(* ===== verification/Prelude.thy ===== *)
theory Prelude
  imports Complex_Main "HOL-Library.Sublist"
begin

text \<open>
  Shared base of the development: the part of the JavaScript language and standard library
  that the modelled TypeScript uses on strings and arrays.

  A JavaScript string is a sequence of UTF-16 code units, so a string is a list of natural
  numbers (its \<open>length\<close> is the one the source sees); a literal is written \<open>js ''abc''\<close>.
  \<open>indexOf\<close> returns \<^term>\<open>None\<close> where the source tests for \<open>-1\<close>. Regular expressions are
  sequences of greedily repeated character classes and line anchors, matched with the
  backtracking order of the language.

  Collections: \<open>js_eval\<close> holds the equations that evaluate string primitives on literals.
\<close>

named_theorems js_eval \<open>equations that evaluate string primitives on concrete strings\<close>

section \<open>Strings as code units\<close>

type_synonym jschar = nat
type_synonym jsstr = "jschar list"

definition js :: "string \<Rightarrow> jsstr" where
  "js s = map of_char s"

lemma js_simps [js_eval]:
  "js [] = []"
  "js (c # s) = of_char c # js s"
  by (simp_all add: js_def)

text \<open>Literals stay folded: they are compared as character strings.\<close>

lemma js_eq_iff [simp]: "js s = js t \<longleftrightarrow> s = t"
  unfolding js_def by (rule inj_map_eq_map) (metis injI of_char_eq_iff)

lemma js_Nil_iff [simp]: "js s = [] \<longleftrightarrow> s = []" "[] = js s \<longleftrightarrow> s = []"
  by (simp_all add: js_def)

lemma js_append: "js (s @ t) = js s @ js t"
  by (simp add: js_def)

lemma length_js [simp]: "length (js s) = length s"
  by (simp add: js_def)

subsection \<open>White space, \<open>trim\<close>\<close>

text \<open>LineTerminator of the language, and the characters of \<open>\s\<close> and \<open>trim\<close>.\<close>

definition is_line_term :: "jschar \<Rightarrow> bool" where
  "is_line_term c \<longleftrightarrow> c = 10 \<or> c = 13 \<or> c = 8232 \<or> c = 8233"

definition is_space :: "jschar \<Rightarrow> bool" where
  "is_space c \<longleftrightarrow> c = 9 \<or> c = 11 \<or> c = 12 \<or> c = 32 \<or> c = 160 \<or> c = 65279 \<or> c = 5760
     \<or> (8192 \<le> c \<and> c \<le> 8202) \<or> c = 8239 \<or> c = 8287 \<or> c = 12288 \<or> is_line_term c"

definition is_digit :: "jschar \<Rightarrow> bool" where
  "is_digit c \<longleftrightarrow> 48 \<le> c \<and> c \<le> 57"

definition trimStart :: "jsstr \<Rightarrow> jsstr" where
  "trimStart s = dropWhile is_space s"

definition trimEnd :: "jsstr \<Rightarrow> jsstr" where
  "trimEnd s = rev (dropWhile is_space (rev s))"

definition trim :: "jsstr \<Rightarrow> jsstr" where
  "trim s = trimEnd (trimStart s)"

lemma digit_not_space [simp]: "is_digit c \<Longrightarrow> \<not> is_space c"
  by (auto simp: is_digit_def is_space_def is_line_term_def)

lemma trim_Nil [simp]: "trim [] = []"
  by (simp add: trim_def trimStart_def trimEnd_def)

lemma trimEnd_id: "s = [] \<or> \<not> is_space (last s) \<Longrightarrow> trimEnd s = s"
  by (cases s rule: rev_cases) (auto simp: trimEnd_def)

lemma trimStart_id: "s = [] \<or> \<not> is_space (hd s) \<Longrightarrow> trimStart s = s"
  by (cases s) (auto simp: trimStart_def)

lemma trim_id: "s = [] \<or> (\<not> is_space (hd s) \<and> \<not> is_space (last s)) \<Longrightarrow> trim s = s"
  by (auto simp: trim_def trimStart_id trimEnd_id)

lemma trim_id_no_space: "\<forall>c \<in> set s. \<not> is_space c \<Longrightarrow> trim s = s"
  by (rule trim_id) (cases s, auto)

lemma trimEnd_prefix: "prefix (trimEnd s) s"
proof -
  have "suffix (dropWhile is_space (rev s)) (rev s)"
    by (rule suffix_dropWhile)
  then show ?thesis by (simp add: suffix_to_prefix trimEnd_def)
qed

lemma trimEnd_last: "trimEnd s \<noteq> [] \<Longrightarrow> \<not> is_space (last (trimEnd s))"
  by (simp add: trimEnd_def last_rev hd_dropWhile)

lemma trimStart_hd: "trimStart s \<noteq> [] \<Longrightarrow> \<not> is_space (hd (trimStart s))"
  by (simp add: trimStart_def hd_dropWhile)

lemma trim_hd: "trim s \<noteq> [] \<Longrightarrow> \<not> is_space (hd (trim s))"
proof -
  assume ne: "trim s \<noteq> []"
  obtain r where r: "trimStart s = trim s @ r"
    using trimEnd_prefix [of "trimStart s"] by (auto simp: prefix_def trim_def)
  with ne have "hd (trimStart s) = hd (trim s)" and "trimStart s \<noteq> []" by auto
  then show ?thesis using trimStart_hd by metis
qed

lemma trim_idem [simp]: "trim (trim s) = trim s"
proof (rule trim_id)
  show "trim s = [] \<or> (\<not> is_space (hd (trim s)) \<and> \<not> is_space (last (trim s)))"
    using trim_hd [of s] trimEnd_last [of "trimStart s"] by (auto simp: trim_def)
qed

lemma dropWhile_Nil_all: "dropWhile P s = [] \<longleftrightarrow> (\<forall>c \<in> set s. P c)"
  by (induction s) auto

lemma trim_empty_iff: "trim s = [] \<longleftrightarrow> (\<forall>c \<in> set s. is_space c)"
proof -
  have "trim s = [] \<longleftrightarrow> (\<forall>c \<in> set (dropWhile is_space s). is_space c)"
    by (simp add: trim_def trimEnd_def trimStart_def dropWhile_Nil_all)
  also have "\<dots> \<longleftrightarrow> dropWhile is_space s = []"
  proof
    assume all: "\<forall>c \<in> set (dropWhile is_space s). is_space c"
    show "dropWhile is_space s = []"
    proof (rule ccontr)
      assume ne: "dropWhile is_space s \<noteq> []"
      then have "is_space (hd (dropWhile is_space s))" using all by simp
      with hd_dropWhile [OF ne] show False by simp
    qed
  next
    assume e: "dropWhile is_space s = []"
    show "\<forall>c \<in> set (dropWhile is_space s). is_space c" by (simp only: e) simp
  qed
  finally show ?thesis by (simp only: dropWhile_Nil_all)
qed

lemma set_trim_subset: "set (trim s) \<subseteq> set s"
  by (auto simp: trim_def trimEnd_def trimStart_def dest!: set_dropWhileD)

lemma length_trim: "length (trim s) \<le> length s"
proof -
  have "length (trim s) \<le> length (trimStart s)"
    using trimEnd_prefix [of "trimStart s"] by (simp add: trim_def prefix_length_le)
  also have "\<dots> \<le> length s"
    by (simp add: trimStart_def length_dropWhile_le)
  finally show ?thesis .
qed

subsection \<open>Searching: \<open>indexOf\<close>, \<open>includes\<close>, \<open>startsWith\<close>, \<open>endsWith\<close>, \<open>slice\<close>\<close>

fun find_sub :: "jsstr \<Rightarrow> jsstr \<Rightarrow> nat option" where
  "find_sub p [] = (if p = [] then Some 0 else None)"
| "find_sub p (c # s) = (if prefix p (c # s) then Some 0 else map_option Suc (find_sub p s))"

definition indexOf :: "jsstr \<Rightarrow> jsstr \<Rightarrow> nat \<Rightarrow> nat option" where
  "indexOf s p from = map_option (\<lambda>i. from + i) (find_sub p (drop from s))"

definition includesStr :: "jsstr \<Rightarrow> jsstr \<Rightarrow> bool" where
  "includesStr s p \<longleftrightarrow> find_sub p s \<noteq> None"

definition startsWith :: "jsstr \<Rightarrow> jsstr \<Rightarrow> bool" where
  "startsWith s p \<longleftrightarrow> prefix p s"

definition endsWith :: "jsstr \<Rightarrow> jsstr \<Rightarrow> bool" where
  "endsWith s p \<longleftrightarrow> suffix p s"

text \<open>\<open>s.slice(a, b)\<close> for \<open>0 \<le> a\<close>, \<open>0 \<le> b\<close>.\<close>

definition slice :: "'a list \<Rightarrow> nat \<Rightarrow> nat \<Rightarrow> 'a list" where
  "slice s a b = take (b - a) (drop a s)"

lemma find_sub_Some:
  "find_sub p s = Some i \<Longrightarrow> i + length p \<le> length s \<and> s = take i s @ p @ drop (i + length p) s"
proof (induction s arbitrary: i)
  case Nil
  then show ?case by (auto split: if_splits)
next
  case (Cons c s)
  show ?case
  proof (cases "prefix p (c # s)")
    case True
    then obtain zs where "c # s = p @ zs" by (auto simp: prefix_def)
    moreover have "i = 0" using True Cons.prems by simp
    moreover have "length (c # s) = length p + length zs" using calculation by simp
    ultimately show ?thesis by simp
  next
    case False
    with Cons.prems obtain j where j: "find_sub p s = Some j" "i = Suc j" by auto
    from Cons.IH [OF j(1)] j(2) show ?thesis by simp
  qed
qed

lemma find_sub_None: "find_sub p s = None \<longleftrightarrow> \<not> sublist p s"
  by (induction s) (auto simp: sublist_Cons_right)

lemma find_sub_minimal: "find_sub p s = Some i \<Longrightarrow> j < i \<Longrightarrow> \<not> prefix p (drop j s)"
proof (induction s arbitrary: i j)
  case Nil
  then show ?case by (auto split: if_splits)
next
  case (Cons c s)
  then show ?case by (cases j) (auto split: if_splits)
qed

lemma find_sub_eqI:
  "prefix p (drop i s) \<Longrightarrow> (\<And>j. j < i \<Longrightarrow> \<not> prefix p (drop j s)) \<Longrightarrow> i \<le> length s \<Longrightarrow> find_sub p s = Some i"
proof (induction s arbitrary: i)
  case Nil
  then show ?case by (simp add: prefix_def)
next
  case (Cons c s)
  show ?case
  proof (cases i)
    case 0
    with Cons.prems show ?thesis by simp
  next
    case (Suc k)
    have "\<not> prefix p (c # s)" using Cons.prems(2) [of 0] Suc by simp
    moreover have "find_sub p s = Some k"
    proof (rule Cons.IH)
      show "prefix p (drop k s)" using Cons.prems(1) Suc by simp
      show "k \<le> length s" using Cons.prems(3) Suc by simp
      fix j assume "j < k"
      then show "\<not> prefix p (drop j s)" using Cons.prems(2) [of "Suc j"] Suc by simp
    qed
    ultimately show ?thesis using Suc by simp
  qed
qed

lemma includesStr_iff_sublist: "includesStr s p \<longleftrightarrow> sublist p s"
  by (simp add: includesStr_def find_sub_None)

lemma indexOf_Some:
  assumes "indexOf s p n = Some i" "n \<le> length s"
  shows "n \<le> i" "i + length p \<le> length s" "s = take n s @ slice s n i @ p @ drop (i + length p) s"
proof -
  from assms(1) obtain k where k: "find_sub p (drop n s) = Some k" "i = n + k"
    by (auto simp: indexOf_def)
  note d = find_sub_Some [OF k(1)]
  show "n \<le> i" using k by simp
  have "k + length p \<le> length s - n" using d by simp
  then show "i + length p \<le> length s" using assms(2) k(2) by linarith
  have "drop n s = slice s n i @ p @ drop (i + length p) s"
    using d k(2) by (simp add: slice_def add.commute add.left_commute)
  then show "s = take n s @ slice s n i @ p @ drop (i + length p) s"
    by (metis append_take_drop_id)
qed

subsection \<open>\<open>split\<close> on one character, \<open>join\<close>\<close>

fun split1 :: "jschar \<Rightarrow> jsstr \<Rightarrow> jsstr list" where
  "split1 c [] = [[]]"
| "split1 c (x # xs) =
     (if x = c then [] # split1 c xs
      else case split1 c xs of [] \<Rightarrow> [[x]] | y # ys \<Rightarrow> (x # y) # ys)"

fun join :: "jsstr \<Rightarrow> jsstr list \<Rightarrow> jsstr" where
  "join sep [] = []"
| "join sep [s] = s"
| "join sep (s # t # ts) = s @ sep @ join sep (t # ts)"

lemma split1_not_Nil [simp]: "split1 c s \<noteq> []"
  by (induction s) (auto split: list.splits)

lemma split1_no_sep: "t \<in> set (split1 c s) \<Longrightarrow> c \<notin> set t"
  by (induction s arbitrary: t) (fastforce split: list.splits if_splits)+

lemma join_split1: "join [c] (split1 c s) = s"
proof (induction s)
  case Nil
  then show ?case by simp
next
  case (Cons x s)
  obtain y ys where yy: "split1 c s = y # ys" by (cases "split1 c s") auto
  show ?case
    using Cons.IH yy by (cases ys) auto
qed

lemma split1_single: "c \<notin> set s \<Longrightarrow> split1 c s = [s]"
  by (induction s) auto

lemma split1_append: "c \<notin> set s \<Longrightarrow> split1 c (s @ c # t) = s # split1 c t"
  by (induction s) auto

lemma split1_join:
  "ts \<noteq> [] \<Longrightarrow> \<forall>t \<in> set ts. c \<notin> set t \<Longrightarrow> split1 c (join [c] ts) = ts"
proof (induction ts rule: induct_list012)
  case (3 x y zs)
  then show ?case by (simp add: split1_append)
qed (auto simp: split1_single)

lemma join_Nil_concat: "join [] ts = concat ts"
  by (induction ts rule: induct_list012) auto

section \<open>Arrays as ordered sets\<close>

text \<open>\<open>Array.from(new Set(xs))\<close> keeps the first occurrence of every element, in order.\<close>

definition uniq :: "'a list \<Rightarrow> 'a list" where
  "uniq xs = rev (remdups (rev xs))"

lemma uniq_simps [simp]: "uniq [] = []" "set (uniq xs) = set xs" "distinct (uniq xs)"
  by (simp_all add: uniq_def)

lemma uniq_snoc: "uniq (xs @ [x]) = (if x \<in> set xs then uniq xs else uniq xs @ [x])"
  by (simp add: uniq_def)

lemma uniq_distinct: "distinct xs \<Longrightarrow> uniq xs = xs"
  by (simp add: uniq_def distinct_remdups_id)

lemma uniq_idem [simp]: "uniq (uniq xs) = uniq xs"
  by (simp add: uniq_distinct)

lemma uniq_eq_Nil [simp]: "uniq xs = [] \<longleftrightarrow> xs = []"
  by (simp add: uniq_def)

lemma filter_uniq: "filter P (uniq xs) = uniq (filter P xs)"
  by (induction xs rule: rev_induct) (auto simp: uniq_snoc)

section \<open>Decimal text of natural numbers and integers\<close>

fun nat_digits :: "nat \<Rightarrow> jsstr" where
  "nat_digits n = (if n < 10 then [48 + n] else nat_digits (n div 10) @ [48 + n mod 10])"

declare nat_digits.simps [simp del]

definition digits_val :: "jsstr \<Rightarrow> nat" where
  "digits_val s = foldl (\<lambda>a c. 10 * a + (c - 48)) 0 s"

lemma digits_val_simps [simp]:
  "digits_val [] = 0"
  "digits_val (s @ [c]) = 10 * digits_val s + (c - 48)"
  by (simp_all add: digits_val_def)

lemma digits_val_append: "digits_val (s @ t) = digits_val s * 10 ^ length t + digits_val t"
  by (induction t rule: rev_induct) (simp_all add: algebra_simps flip: append_assoc)

lemma nat_digits_ne [simp]: "nat_digits n \<noteq> []"
  by (subst nat_digits.simps) simp

lemma nat_digits_digit: "c \<in> set (nat_digits n) \<Longrightarrow> is_digit c"
proof (induction n rule: nat_digits.induct)
  case (1 n)
  then show ?case
    by (subst (asm) (2) nat_digits.simps) (auto simp: is_digit_def split: if_splits)
qed

lemma digits_val_nat_digits [simp]: "digits_val (nat_digits n) = n"
proof (induction n rule: nat_digits.induct)
  case (1 n)
  show ?case
  proof (cases "n < 10")
    case True
    then show ?thesis by (subst nat_digits.simps) (simp add: digits_val_def)
  next
    case False
    with "1.IH" show ?thesis by (subst nat_digits.simps) simp
  qed
qed

lemma nat_digits_inj [simp]: "nat_digits m = nat_digits n \<longleftrightarrow> m = n"
  by (metis digits_val_nat_digits)

lemma nat_digits_no_leading_zero: "0 < n \<Longrightarrow> hd (nat_digits n) \<noteq> 48"
proof (induction n rule: nat_digits.induct)
  case (1 n)
  show ?case
  proof (cases "n < 10")
    case True
    with "1.prems" show ?thesis by (subst nat_digits.simps) simp
  next
    case False
    with "1.IH" show ?thesis by (subst nat_digits.simps) (simp add: hd_append)
  qed
qed

definition int_text :: "int \<Rightarrow> jsstr" where
  "int_text i = (if i < 0 then 45 # nat_digits (nat (- i)) else nat_digits (nat i))"

lemma hd_nat_digits_digit: "is_digit (hd (nat_digits n))"
  by (rule nat_digits_digit [of _ n]) simp

lemma nat_digits_no_minus: "nat_digits n \<noteq> 45 # s"
  using hd_nat_digits_digit [of n] by (auto simp: is_digit_def)

lemma int_text_inj [simp]: "int_text a = int_text b \<longleftrightarrow> a = b"
proof
  assume "int_text a = int_text b"
  then show "a = b"
    using nat_digits_no_minus [of "nat a" "nat_digits (nat (- b))"]
      nat_digits_no_minus [of "nat b" "nat_digits (nat (- a))"]
    by (auto simp: int_text_def split: if_splits)
qed simp

section \<open>Regular expressions\<close>

text \<open>
  The modelled sources use expressions that are sequences of character classes, each
  repeated between \<open>lo\<close> and \<open>hi\<close> times (no upper bound: \<^term>\<open>None\<close>), and of the anchors
  \<open>^\<close> and \<open>$\<close>. \<open>re_match multi r bol s\<close> is the length of the match of \<open>r\<close> at the start of
  \<open>s\<close>, where \<open>bol\<close> tells whether \<open>^\<close> holds there: a repetition first takes as many
  characters as it can and gives them back one by one.
\<close>

datatype re_item = Rep "jschar \<Rightarrow> bool" nat "nat option" | Bol | Eol

definition eol_here :: "bool \<Rightarrow> jsstr \<Rightarrow> bool" where
  "eol_here multi s \<longleftrightarrow> (case s of [] \<Rightarrow> True | c # _ \<Rightarrow> multi \<and> is_line_term c)"

definition bol_after :: "bool \<Rightarrow> bool \<Rightarrow> jsstr \<Rightarrow> bool" where
  "bol_after multi bol taken \<longleftrightarrow> (if taken = [] then bol else multi \<and> is_line_term (last taken))"

definition rep_most :: "(jschar \<Rightarrow> bool) \<Rightarrow> nat option \<Rightarrow> jsstr \<Rightarrow> nat" where
  "rep_most P hi s =
     (let n = length (takeWhile P s) in case hi of None \<Rightarrow> n | Some h \<Rightarrow> min n h)"

text \<open>Counting down from the greediest choice to the least one.\<close>

fun try_down :: "(nat \<Rightarrow> nat option) \<Rightarrow> nat \<Rightarrow> nat \<Rightarrow> nat option" where
  "try_down f lo k =
     (if k < lo then None
      else case f k of
             Some r \<Rightarrow> Some r
           | None \<Rightarrow> (if k = 0 then None else try_down f lo (k - 1)))"

declare try_down.simps [simp del]

fun re_match :: "bool \<Rightarrow> re_item list \<Rightarrow> bool \<Rightarrow> jsstr \<Rightarrow> nat option" where
  "re_match multi [] bol s = Some 0"
| "re_match multi (Bol # r) bol s = (if bol then re_match multi r bol s else None)"
| "re_match multi (Eol # r) bol s = (if eol_here multi s then re_match multi r bol s else None)"
| "re_match multi (Rep P lo hi # r) bol s =
     try_down (\<lambda>k. map_option (\<lambda>m. k + m) (re_match multi r (bol_after multi bol (take k s)) (drop k s)))
       lo (rep_most P hi s)"

text \<open>\<open>/^...$/.test(s)\<close> without flags.\<close>

definition re_test_whole :: "re_item list \<Rightarrow> jsstr \<Rightarrow> bool" where
  "re_test_whole r s \<longleftrightarrow> re_match False (Bol # r @ [Eol]) True s \<noteq> None"

text \<open>
  \<open>s.matchAll(r)\<close> for a global multi-line expression: every match with its index, the search
  going on after the end of the last match. An empty match moves the search by one character.
\<close>

function match_all :: "re_item list \<Rightarrow> bool \<Rightarrow> nat \<Rightarrow> jsstr \<Rightarrow> (jsstr \<times> nat) list" where
  "match_all r bol i s =
     (case re_match True r bol s of
        Some k \<Rightarrow>
          (if k = 0 then
             ([], i) # (case s of [] \<Rightarrow> [] | c # t \<Rightarrow> match_all r (is_line_term c) (i + 1) t)
           else if s = [] then []
           else (take k s, i) # match_all r (is_line_term (last (take k s))) (i + k) (drop k s))
      | None \<Rightarrow> (case s of [] \<Rightarrow> [] | c # t \<Rightarrow> match_all r (is_line_term c) (i + 1) t))"
  by pat_completeness auto
termination
  by (relation "measure (\<lambda>(r, b, i, s). length s)") auto

declare match_all.simps [simp del]

lemma rep_most_le: "rep_most P hi s \<le> length (takeWhile P s)"
  by (auto simp: rep_most_def Let_def split: option.splits)

lemma try_down_Some: "try_down f lo k = Some r \<Longrightarrow> \<exists>j. lo \<le> j \<and> j \<le> k \<and> f j = Some r"
proof (induction f lo k rule: try_down.induct)
  case (1 f lo k)
  show ?case
  proof (cases "f k")
    case None
    with "1.prems" have "\<not> k < lo" "k \<noteq> 0" "try_down f lo (k - 1) = Some r"
      by (auto simp: try_down.simps [of f lo k] split: if_splits)
    with None "1.IH" show ?thesis by (meson diff_le_self le_trans)
  next
    case (Some a)
    with "1.prems" show ?thesis
      by (auto simp: try_down.simps [of f lo k] intro!: exI [of _ k] split: if_splits)
  qed
qed

lemma try_down_None: "try_down f lo k = None \<longleftrightarrow> (\<forall>j \<in> {lo..k}. f j = None)"
proof (induction k)
  case 0
  show ?case by (simp add: try_down.simps [of f lo 0] split: option.splits)
next
  case (Suc k)
  show ?case
  proof (cases "Suc k < lo")
    case True
    then show ?thesis by (simp add: try_down.simps [of f lo "Suc k"])
  next
    case False
    then have "{lo..Suc k} = insert (Suc k) {lo..k}" by auto
    with False Suc.IH show ?thesis
      by (simp add: try_down.simps [of f lo "Suc k"] split: option.splits)
  qed
qed

text \<open>The one-class expressions \<open>/^P{lo,hi}$/\<close> test what they say.\<close>

lemma takeWhile_all_length: "length (takeWhile P s) = length s \<longleftrightarrow> (\<forall>c \<in> set s. P c)"
  by (induction s) auto

lemma eol_here_single_line [simp]: "eol_here False s \<longleftrightarrow> s = []"
  by (simp add: eol_here_def split: list.splits)

lemma re_match_Rep_Eol:
  "re_match False [Rep P lo hi, Eol] bol s \<noteq> None \<longleftrightarrow>
     lo \<le> length s \<and> (\<forall>h. hi = Some h \<longrightarrow> length s \<le> h) \<and> (\<forall>c \<in> set s. P c)"
proof -
  have "re_match False [Rep P lo hi, Eol] bol s \<noteq> None \<longleftrightarrow>
      (\<exists>j. lo \<le> j \<and> j \<le> rep_most P hi s \<and> length s \<le> j)"
    by (auto simp: try_down_None)
  also have "\<dots> \<longleftrightarrow> lo \<le> length s \<and> length s \<le> rep_most P hi s"
    using rep_most_le [of P hi s] length_takeWhile_le [of P s] by auto
  also have "length s \<le> rep_most P hi s \<longleftrightarrow>
      (\<forall>h. hi = Some h \<longrightarrow> length s \<le> h) \<and> (\<forall>c \<in> set s. P c)"
    using takeWhile_all_length [of P s] length_takeWhile_le [of P s]
    by (auto simp: rep_most_def Let_def split: option.splits)
  finally show ?thesis by blast
qed

lemmas re_eval = re_test_whole_def try_down.simps rep_most_def eol_here_def bol_after_def Let_def

end
