(* ===== verification/JsValue.thy ===== *)
theory JsValue
  imports Prelude
begin

text \<open>
  JavaScript values as the modelled code meets them behind the type \<open>unknown\<close>: the data that
  \<open>JSON.parse\<close>, the browser storage and the HTTP interface deliver. An object is the list of
  its own properties in enumeration order (\<open>Object.entries\<close>): integer-like keys first, in
  ascending order, then the other keys in the order of creation. Numbers are exact rationals:
  the modelled code copies and compares them and subtracts integral timestamps, all of which
  are exact in double precision.
\<close>

datatype jsval =
    JUndef
  | JNull
  | JBool bool
  | JNum rat
  | JStr jsstr
  | JArr "jsval list"
  | JObj "(jsstr \<times> jsval) list"

section \<open>Conversions\<close>

fun truthy :: "jsval \<Rightarrow> bool" where
  "truthy JUndef = False"
| "truthy JNull = False"
| "truthy (JBool b) = b"
| "truthy (JNum n) = (n \<noteq> 0)"
| "truthy (JStr s) = (s \<noteq> [])"
| "truthy (JArr xs) = True"
| "truthy (JObj kvs) = True"

text \<open>\<open>a ?? b\<close> and \<open>a || b\<close>.\<close>

definition nullish :: "jsval \<Rightarrow> bool" where
  "nullish v \<longleftrightarrow> v = JUndef \<or> v = JNull"

definition is_object :: "jsval \<Rightarrow> bool" where
  "is_object v \<longleftrightarrow> (case v of JObj _ \<Rightarrow> True | JArr _ \<Rightarrow> True | _ \<Rightarrow> False)"

text \<open>
  Property access: \<^term>\<open>None\<close> is the TypeError on \<open>undefined\<close> and \<open>null\<close>. Only own properties
  are modelled; \<open>opt_prop\<close> is the optional chaining \<open>v?.k\<close>.
\<close>

definition get_prop :: "jsval \<Rightarrow> jsstr \<Rightarrow> jsval option" where
  "get_prop v k =
     (case v of
        JUndef \<Rightarrow> None
      | JNull \<Rightarrow> None
      | JObj kvs \<Rightarrow> Some (case map_of kvs k of Some w \<Rightarrow> w | None \<Rightarrow> JUndef)
      | _ \<Rightarrow> Some JUndef)"

definition opt_prop :: "jsval \<Rightarrow> jsstr \<Rightarrow> jsval" where
  "opt_prop v k = (case get_prop v k of Some w \<Rightarrow> w | None \<Rightarrow> JUndef)"

lemma opt_prop_simps [simp]:
  "opt_prop JUndef k = JUndef" "opt_prop JNull k = JUndef" "opt_prop (JBool b) k = JUndef"
  "opt_prop (JNum n) k = JUndef" "opt_prop (JStr s) k = JUndef" "opt_prop (JArr xs) k = JUndef"
  "opt_prop (JObj kvs) k = (case map_of kvs k of Some w \<Rightarrow> w | None \<Rightarrow> JUndef)"
  by (simp_all add: opt_prop_def get_prop_def)

section \<open>Objects\<close>

text \<open>An array index: the canonical text of a number below \<open>2^32 - 1\<close>.\<close>

definition is_index_key :: "jsstr \<Rightarrow> bool" where
  "is_index_key k \<longleftrightarrow> k \<noteq> [] \<and> list_all is_digit k \<and> nat_digits (digits_val k) = k
     \<and> digits_val k < 4294967295"

fun insert_index :: "jsstr \<Rightarrow> 'v \<Rightarrow> (jsstr \<times> 'v) list \<Rightarrow> (jsstr \<times> 'v) list" where
  "insert_index k v [] = [(k, v)]"
| "insert_index k v ((k', v') # r) =
     (if is_index_key k' \<and> digits_val k' < digits_val k then (k', v') # insert_index k v r
      else (k, v) # (k', v') # r)"

definition obj_set :: "(jsstr \<times> 'v) list \<Rightarrow> jsstr \<Rightarrow> 'v \<Rightarrow> (jsstr \<times> 'v) list" where
  "obj_set kvs k v =
     (if k \<in> fst ` set kvs then map (\<lambda>(k', v'). if k' = k then (k', v) else (k', v')) kvs
      else if is_index_key k then insert_index k v kvs
      else kvs @ [(k, v)])"

definition obj_of :: "(jsstr \<times> 'v) list \<Rightarrow> (jsstr \<times> 'v) list" where
  "obj_of kvs = foldl (\<lambda>ob. \<lambda>(k, v). obj_set ob k v) [] kvs"

lemma map_of_insert_index: "k \<notin> fst ` set kvs \<Longrightarrow> map_of (insert_index k v kvs) = (map_of kvs)(k \<mapsto> v)"
  by (induction k v kvs rule: insert_index.induct) (auto simp: fun_eq_iff)

lemma set_insert_index: "set (insert_index k v kvs) = insert (k, v) (set kvs)"
  by (induction k v kvs rule: insert_index.induct) auto

lemma map_of_replace:
  "map_of (map (\<lambda>(k', v'). if k' = k then (k', v) else (k', v')) kvs) x =
     (if x = k then (if k \<in> fst ` set kvs then Some v else None) else map_of kvs x)"
proof (induction kvs)
  case (Cons a kvs)
  then show ?case by (cases a; cases "x = k") (simp_all del: map_of_eq_None_iff)
qed simp

lemma map_of_obj_set [simp]: "map_of (obj_set kvs k v) = (map_of kvs)(k \<mapsto> v)"
proof (cases "k \<in> fst ` set kvs")
  case True
  then show ?thesis by (simp add: obj_set_def fun_eq_iff map_of_replace)
next
  case False
  then have "map_of kvs k = None" by (simp add: map_of_eq_None_iff)
  with False show ?thesis
    by (auto simp: obj_set_def map_of_insert_index fun_eq_iff map_add_def split: option.splits)
qed

lemma keys_obj_set: "fst ` set (obj_set kvs k v) = insert k (fst ` set kvs)"
  by (force simp: obj_set_def set_insert_index split: if_splits)

lemma distinct_insert_index:
  "distinct (map fst kvs) \<Longrightarrow> k \<notin> fst ` set kvs \<Longrightarrow> distinct (map fst (insert_index k v kvs))"
  by (induction k v kvs rule: insert_index.induct) (auto simp: set_insert_index)

lemma distinct_obj_set: "distinct (map fst kvs) \<Longrightarrow> distinct (map fst (obj_set kvs k v))"
proof -
  assume d: "distinct (map fst kvs)"
  have "map fst (map (\<lambda>(k', v'). if k' = k then (k', v) else (k', v')) kvs) = map fst kvs"
    by (induction kvs) auto
  with d show ?thesis
    by (auto simp: obj_set_def distinct_insert_index simp del: map_map)
qed

lemma obj_of_snoc: "obj_of (kvs @ [(k, v)]) = obj_set (obj_of kvs) k v"
  by (simp add: obj_of_def)

lemma keys_obj_of: "fst ` set (obj_of kvs) = fst ` set kvs"
proof (induction kvs rule: rev_induct)
  case Nil
  then show ?case by (simp add: obj_of_def)
next
  case (snoc kv kvs)
  then show ?case by (cases kv) (simp add: obj_of_snoc keys_obj_set)
qed

lemma distinct_obj_of: "distinct (map fst (obj_of kvs))"
proof (induction kvs rule: rev_induct)
  case Nil
  then show ?case by (simp add: obj_of_def)
next
  case (snoc kv kvs)
  then show ?case by (cases kv) (simp add: obj_of_snoc distinct_obj_set)
qed

text \<open>Objects with distinct, not integer-like keys keep the order in which they were written.\<close>

lemma obj_of_id:
  "distinct (map fst kvs) \<Longrightarrow> list_all (\<lambda>(k, v). \<not> is_index_key k) kvs \<Longrightarrow> obj_of kvs = kvs"
proof (induction kvs rule: rev_induct)
  case Nil
  then show ?case by (simp add: obj_of_def)
next
  case (snoc kv kvs)
  then show ?case by (cases kv) (simp add: obj_of_snoc obj_set_def)
qed

text \<open>A key that does not start with a digit is not an index.\<close>

lemma not_index_key: "k = [] \<or> \<not> is_digit (hd k) \<Longrightarrow> \<not> is_index_key k"
  by (cases k) (auto simp: is_index_key_def)

section \<open>Text of numbers\<close>

text \<open>
  \<open>Number::toString\<close> for decimal fractions: \<open>q = m * 10 ^ e\<close> with \<open>m\<close> not a multiple of ten,
  written plainly, with a decimal point, or with an exponent, by the position of the point.
\<close>

fun places :: "nat \<Rightarrow> nat" where
  "places d =
     (if d = 0 then 0
      else if d mod 10 = 0 then Suc (places (d div 10))
      else if d mod 2 = 0 then Suc (places (d div 2))
      else if d mod 5 = 0 then Suc (places (d div 5))
      else 0)"

declare places.simps [simp del]

fun strip10 :: "nat \<Rightarrow> nat \<times> nat" where
  "strip10 m = (if m = 0 \<or> m mod 10 \<noteq> 0 then (m, 0) else let (m', e) = strip10 (m div 10) in (m', Suc e))"

declare strip10.simps [simp del]

definition decimal :: "rat \<Rightarrow> bool" where
  "decimal q \<longleftrightarrow> (let d = nat (snd (quotient_of q)) in d dvd 10 ^ places d)"

definition decompose :: "rat \<Rightarrow> nat \<times> int" where
  "decompose q =
     (let (p, d) = quotient_of q; j = places (nat d)
      in if j = 0 then (let (m, e) = strip10 (nat p) in (m, int e))
         else (nat p * (10 ^ j div nat d), - int j))"

definition decimal_text :: "nat \<Rightarrow> int \<Rightarrow> jsstr" where
  "decimal_text m e =
     (let ds = nat_digits m; k = int (length ds); n = k + e in
      if k \<le> n \<and> n \<le> 21 then ds @ replicate (nat (n - k)) 48
      else if 0 < n \<and> n \<le> 21 then take (nat n) ds @ 46 # drop (nat n) ds
      else if - 6 < n \<and> n \<le> 0 then 48 # 46 # replicate (nat (- n)) 48 @ ds
      else (if k = 1 then ds else hd ds # 46 # tl ds) @ 101 # (if n - 1 < 0 then 45 else 43)
             # nat_digits (nat \<bar>n - 1\<bar>))"

definition num_text :: "rat \<Rightarrow> jsstr" where
  "num_text q =
     (if q = 0 then [48]
      else if q < 0 then (case decompose (- q) of (m, e) \<Rightarrow> 45 # decimal_text m e)
      else (case decompose q of (m, e) \<Rightarrow> decimal_text m e))"

definition pow10 :: "int \<Rightarrow> rat" where
  "pow10 e = (if 0 \<le> e then 10 ^ nat e else inverse (10 ^ nat (- e)))"

lemma pow10_pos [simp]: "0 < pow10 e" "pow10 e \<noteq> 0"
  by (auto simp: pow10_def)

lemma pow10_nat: "pow10 (int n) = 10 ^ n" "pow10 (- int n) = inverse (10 ^ n)"
  by (auto simp: pow10_def)

lemma pow10_0 [simp]: "pow10 0 = 1"
  by (simp add: pow10_def)

lemma pow10_add: "pow10 (a + b) = pow10 a * pow10 b"
proof -
  have "pow10 e = 10 powi e" for e
    by (simp add: pow10_def power_int_def inverse_eq_divide power_one_over)
  then show ?thesis by (simp add: power_int_add)
qed

lemma strip10_correct: "strip10 m = (m', e) \<Longrightarrow> m = m' * 10 ^ e"
proof (induction m arbitrary: m' e rule: strip10.induct)
  case (1 m)
  show ?case
  proof (cases "m = 0 \<or> m mod 10 \<noteq> 0")
    case True
    with "1.prems" show ?thesis by (subst (asm) strip10.simps) auto
  next
    case False
    obtain a b where ab: "strip10 (m div 10) = (a, b)" by force
    with False "1.prems" have "m' = a" "e = Suc b" by (simp_all add: strip10.simps [of m])
    moreover have "m div 10 = a * 10 ^ b" using "1.IH" False ab by blast
    moreover have "m = 10 * (m div 10)" using False by presburger
    ultimately show ?thesis by simp
  qed
qed

lemma decompose_correct:
  assumes "decimal q" "0 < q" "decompose q = (m, e)"
  shows "q = of_nat m * pow10 e"
proof -
  obtain p d where pd: "quotient_of q = (p, d)" by force
  have d0: "0 < d" using pd by (rule quotient_of_denom_pos)
  have q: "q = of_int p / of_int d" using pd by (rule quotient_of_div)
  have p0: "0 < p" using assms(2) q d0 by (simp add: zero_less_divide_iff)
  define j where "j = places (nat d)"
  have dvd: "nat d dvd 10 ^ j" using assms(1) pd by (simp add: decimal_def Let_def j_def)
  show ?thesis
  proof (cases "j = 0")
    case True
    with dvd have "d = 1" using d0 by simp
    obtain a b where ab: "strip10 (nat p) = (a, b)" by force
    have me: "m = a" "e = int b"
      using assms(3) pd True ab by (auto simp: decompose_def Let_def j_def)
    have "of_int p = (of_nat (nat p) :: rat)" using p0 by simp
    also have "\<dots> = of_nat a * 10 ^ b" using strip10_correct [OF ab] by simp
    finally show ?thesis using q \<open>d = 1\<close> me by (simp add: pow10_nat)
  next
    case False
    have me: "m = nat p * (10 ^ j div nat d)" "e = - int j"
      using assms(3) pd False by (auto simp: decompose_def Let_def j_def)
    from dvd obtain c where c: "10 ^ j = nat d * c" by (auto simp: dvd_def)
    have dc: "(10::rat) ^ j = of_int d * of_nat c"
    proof -
      have "(of_nat (10 ^ j) :: rat) = of_nat (nat d) * of_nat c" using c by simp
      then show ?thesis using d0 by simp
    qed
    have "m = nat p * c" using me(1) c d0 by simp
    then have "of_nat m = (of_int p * of_nat c :: rat)" using p0 by simp
    moreover have "(of_nat c :: rat) \<noteq> 0" using c by (cases c) auto
    ultimately show ?thesis
      using q d0 dc me(2) by (simp add: pow10_nat field_simps)
  qed
qed

lemma places_1 [simp]: "places (Suc 0) = 0"
  by (simp add: places.simps)

lemma decimal_of_int [simp]: "decimal (of_int i)"
  by (simp add: decimal_def)

lemma decimal_uminus [simp]: "decimal (- q) = decimal q"
  by (simp add: decimal_def rat_uminus_code Let_def split: prod.splits)

section \<open>Text of values\<close>

text \<open>
  \<open>'' + v\<close>: the text of a value, \<^term>\<open>None\<close> for the TypeError of an object whose own
  \<open>toString\<close> hides the inherited one.
\<close>

fun to_text :: "jsval \<Rightarrow> jsstr option" and
    elems_text :: "jsval list \<Rightarrow> jsstr list option" where
  "to_text JUndef = Some (js ''undefined'')"
| "to_text JNull = Some (js ''null'')"
| "to_text (JBool b) = Some (if b then js ''true'' else js ''false'')"
| "to_text (JNum n) = Some (num_text n)"
| "to_text (JStr s) = Some s"
| "to_text (JArr xs) = map_option (join [44]) (elems_text xs)"
| "to_text (JObj kvs) =
     (if js ''toString'' \<in> fst ` set kvs then None else Some (js ''[object Object]''))"
| "elems_text [] = Some []"
| "elems_text (x # xs) =
     (case (if nullish x then Some [] else to_text x) of
        None \<Rightarrow> None
      | Some t \<Rightarrow> map_option ((#) t) (elems_text xs))"

end
