(* ===== verification/Json.thy ===== *)
theory Json
  imports JsValue
begin

text \<open>
  \<open>JSON.parse\<close> and \<open>JSON.stringify\<close> of the standard library, as far as the modelled code
  relies on them: the grammar of ECMA-404 on code units, with \<^term>\<open>None\<close> for the SyntaxError,
  and the printer without indentation. The parser is a recursive descent with fuel
  \<open>2 * length s + 1\<close>; \<open>parse_value_fuel\<close> shows that more fuel never changes its result, so
  running out of fuel never stands for a syntax error. \<open>json_roundtrip\<close> is the law the storage
  layer builds on, and the locale \<open>json_codec\<close> is the interface it uses.
\<close>

section \<open>Lexical parts\<close>

definition is_json_ws :: "jschar \<Rightarrow> bool" where
  "is_json_ws c \<longleftrightarrow> c = 9 \<or> c = 10 \<or> c = 13 \<or> c = 32"

definition skip_ws :: "jsstr \<Rightarrow> jsstr" where
  "skip_ws s = dropWhile is_json_ws s"

definition hex_val :: "jschar \<Rightarrow> nat option" where
  "hex_val c = (if is_digit c then Some (c - 48)
     else if 97 \<le> c \<and> c \<le> 102 then Some (c - 87)
     else if 65 \<le> c \<and> c \<le> 70 then Some (c - 55) else None)"

definition hex4 :: "jschar \<Rightarrow> jschar \<Rightarrow> jschar \<Rightarrow> jschar \<Rightarrow> nat option" where
  "hex4 a b c d =
     (case (hex_val a, hex_val b, hex_val c, hex_val d) of
        (Some w, Some x, Some y, Some z) \<Rightarrow> Some (((w * 16 + x) * 16 + y) * 16 + z)
      | _ \<Rightarrow> None)"

definition unescape :: "jschar \<Rightarrow> jschar option" where
  "unescape d =
     (if d = 34 then Some 34 else if d = 92 then Some 92 else if d = 47 then Some 47
      else if d = 98 then Some 8 else if d = 102 then Some 12 else if d = 110 then Some 10
      else if d = 114 then Some 13 else if d = 116 then Some 9 else None)"

abbreviation push_char :: "jschar \<Rightarrow> (jsstr \<times> jsstr) option \<Rightarrow> (jsstr \<times> jsstr) option" where
  "push_char c r \<equiv> map_option (\<lambda>(cs, rest). (c # cs, rest)) r"

text \<open>The characters of a string literal up to the closing quote.\<close>

fun parse_chars :: "jsstr \<Rightarrow> (jsstr \<times> jsstr) option" where
  "parse_chars [] = None"
| "parse_chars (c # s) =
     (if c = 34 then Some ([], s)
      else if c < 32 then None
      else if c = 92 then
        (case s of
           [] \<Rightarrow> None
         | d # t \<Rightarrow>
             (if d = 117 then
                (case t of
                   w # x # y # z # r \<Rightarrow>
                     (case hex4 w x y z of None \<Rightarrow> None | Some v \<Rightarrow> push_char v (parse_chars r))
                 | _ \<Rightarrow> None)
              else (case unescape d of None \<Rightarrow> None | Some v \<Rightarrow> push_char v (parse_chars t))))
      else push_char c (parse_chars s))"

definition int_part :: "jsstr \<Rightarrow> jsstr" where
  "int_part s = (case s of [] \<Rightarrow> [] | c # _ \<Rightarrow> if c = 48 then [48] else takeWhile is_digit s)"

definition frac_part :: "jsstr \<Rightarrow> (jsstr \<times> jsstr) option" where
  "frac_part s =
     (case s of
        [] \<Rightarrow> Some ([], [])
      | c # t \<Rightarrow>
          (if c = 46 then
             (let fd = takeWhile is_digit t in
              if fd = [] then None else Some (fd, dropWhile is_digit t))
           else Some ([], s)))"

definition exp_part :: "jsstr \<Rightarrow> (int \<times> jsstr) option" where
  "exp_part s =
     (case s of
        [] \<Rightarrow> Some (0, [])
      | c # t \<Rightarrow>
          (if c = 101 \<or> c = 69 then
             (let neg = (t \<noteq> [] \<and> hd t = 45);
                  t' = (if t \<noteq> [] \<and> (hd t = 45 \<or> hd t = 43) then tl t else t);
                  ed = takeWhile is_digit t' in
              if ed = [] then None
              else Some (if neg then - int (digits_val ed) else int (digits_val ed),
                         dropWhile is_digit t'))
           else Some (0, s)))"

definition parse_unsigned :: "jsstr \<Rightarrow> (rat \<times> jsstr) option" where
  "parse_unsigned s =
     (let ip = int_part s in
      if ip = [] then None
      else case frac_part (drop (length ip) s) of
             None \<Rightarrow> None
           | Some (fd, r) \<Rightarrow>
               (case exp_part r of
                  None \<Rightarrow> None
                | Some (e, r') \<Rightarrow>
                    Some (of_nat (digits_val (ip @ fd)) * pow10 (e - int (length fd)), r')))"

definition parse_number :: "jsstr \<Rightarrow> (rat \<times> jsstr) option" where
  "parse_number s =
     (case s of
        [] \<Rightarrow> None
      | c # t \<Rightarrow>
          (if c = 45 then map_option (\<lambda>(q, r). (- q, r)) (parse_unsigned t) else parse_unsigned s))"

section \<open>The parser\<close>

fun parse_value :: "nat \<Rightarrow> jsstr \<Rightarrow> (jsval \<times> jsstr) option"
and parse_elems :: "nat \<Rightarrow> jsstr \<Rightarrow> (jsval list \<times> jsstr) option"
and parse_members :: "nat \<Rightarrow> jsstr \<Rightarrow> ((jsstr \<times> jsval) list \<times> jsstr) option" where
  "parse_value 0 s = None"
| "parse_value (Suc f) s =
     (case skip_ws s of
        [] \<Rightarrow> None
      | c # t \<Rightarrow>
          (if c = 123 then
             (case skip_ws t of
                [] \<Rightarrow> None
              | d # r \<Rightarrow>
                  (if d = 125 then Some (JObj [], r)
                   else map_option (\<lambda>(kvs, r'). (JObj (obj_of kvs), r')) (parse_members f t)))
           else if c = 91 then
             (case skip_ws t of
                [] \<Rightarrow> None
              | d # r \<Rightarrow>
                  (if d = 93 then Some (JArr [], r)
                   else map_option (\<lambda>(xs, r'). (JArr xs, r')) (parse_elems f t)))
           else if c = 34 then map_option (\<lambda>(cs, r). (JStr cs, r)) (parse_chars t)
           else if prefix (js ''true'') (c # t) then Some (JBool True, drop 4 (c # t))
           else if prefix (js ''false'') (c # t) then Some (JBool False, drop 5 (c # t))
           else if prefix (js ''null'') (c # t) then Some (JNull, drop 4 (c # t))
           else map_option (\<lambda>(q, r). (JNum q, r)) (parse_number (c # t))))"
| "parse_elems 0 s = None"
| "parse_elems (Suc f) s =
     (case parse_value f s of
        None \<Rightarrow> None
      | Some (v, r) \<Rightarrow>
          (case skip_ws r of
             [] \<Rightarrow> None
           | c # t \<Rightarrow>
               (if c = 93 then Some ([v], t)
                else if c = 44 then map_option (\<lambda>(xs, r'). (v # xs, r')) (parse_elems f t)
                else None)))"
| "parse_members 0 s = None"
| "parse_members (Suc f) s =
     (case skip_ws s of
        [] \<Rightarrow> None
      | c # t \<Rightarrow>
          (if c \<noteq> 34 then None
           else case parse_chars t of
                  None \<Rightarrow> None
                | Some (k, r) \<Rightarrow>
                    (case skip_ws r of
                       [] \<Rightarrow> None
                     | d # r1 \<Rightarrow>
                         (if d \<noteq> 58 then None
                          else case parse_value f r1 of
                                 None \<Rightarrow> None
                               | Some (v, r2) \<Rightarrow>
                                   (case skip_ws r2 of
                                      [] \<Rightarrow> None
                                    | e # r3 \<Rightarrow>
                                        (if e = 125 then Some ([(k, v)], r3)
                                         else if e = 44 then
                                           map_option (\<lambda>(kvs, r'). ((k, v) # kvs, r')) (parse_members f r3)
                                         else None))))))"

definition json_parse :: "jsstr \<Rightarrow> jsval option" where
  "json_parse s =
     (case parse_value (2 * length s + 1) s of
        None \<Rightarrow> None
      | Some (v, r) \<Rightarrow> (if skip_ws r = [] then Some v else None))"

section \<open>The printer\<close>

definition hex_digit :: "nat \<Rightarrow> jschar" where
  "hex_digit n = (if n < 10 then 48 + n else 87 + n)"

definition unicode_escape :: "jschar \<Rightarrow> jsstr" where
  "unicode_escape c =
     [92, 117, hex_digit (c div 4096 mod 16), hex_digit (c div 256 mod 16),
      hex_digit (c div 16 mod 16), hex_digit (c mod 16)]"

definition quote_char :: "jschar \<Rightarrow> jsstr" where
  "quote_char c =
     (if c = 34 then [92, 34] else if c = 92 then [92, 92] else if c = 8 then [92, 98]
      else if c = 12 then [92, 102] else if c = 10 then [92, 110] else if c = 13 then [92, 114]
      else if c = 9 then [92, 116] else if c < 32 then unicode_escape c else [c])"

definition is_high :: "jschar \<Rightarrow> bool" where "is_high c \<longleftrightarrow> 55296 \<le> c \<and> c \<le> 56319"
definition is_low :: "jschar \<Rightarrow> bool" where "is_low c \<longleftrightarrow> 56320 \<le> c \<and> c \<le> 57343"

text \<open>Lone surrogates are escaped, pairs are printed as they are.\<close>

fun quote_chars :: "jsstr \<Rightarrow> jsstr" where
  "quote_chars [] = []"
| "quote_chars [c] = (if is_high c \<or> is_low c then unicode_escape c else quote_char c)"
| "quote_chars (c # d # s) =
     (if is_high c \<and> is_low d then c # d # quote_chars s
      else if is_high c \<or> is_low c then unicode_escape c @ quote_chars (d # s)
      else quote_char c @ quote_chars (d # s))"

definition quote :: "jsstr \<Rightarrow> jsstr" where
  "quote s = 34 # quote_chars s @ [34]"

fun stringify :: "jsval \<Rightarrow> jsstr"
and str_elems :: "jsval list \<Rightarrow> jsstr list"
and str_members :: "(jsstr \<times> jsval) list \<Rightarrow> jsstr list" where
  "stringify JUndef = js ''null''"
| "stringify JNull = js ''null''"
| "stringify (JBool b) = (if b then js ''true'' else js ''false'')"
| "stringify (JNum q) = num_text q"
| "stringify (JStr s) = quote s"
| "stringify (JArr xs) = 91 # join [44] (str_elems xs) @ [93]"
| "stringify (JObj kvs) = 123 # join [44] (str_members kvs) @ [125]"
| "str_elems [] = []"
| "str_elems (v # vs) = stringify v # str_elems vs"
| "str_members [] = []"
| "str_members ((k, v) # kvs) =
     (if v = JUndef then str_members kvs else (quote k @ 58 # stringify v) # str_members kvs)"

text \<open>\<open>JSON.stringify(undefined)\<close> is \<open>undefined\<close>.\<close>

definition json_stringify :: "jsval \<Rightarrow> jsstr option" where
  "json_stringify v = (if v = JUndef then None else Some (stringify v))"

text \<open>
  The values a round trip preserves: no \<open>undefined\<close> inside, decimal numbers, objects in
  enumeration order.
\<close>

fun json_wf :: "jsval \<Rightarrow> bool" where
  "json_wf JUndef = False"
| "json_wf JNull = True"
| "json_wf (JBool b) = True"
| "json_wf (JNum q) = decimal q"
| "json_wf (JStr s) = True"
| "json_wf (JArr xs) = (\<forall>x \<in> set xs. json_wf x)"
| "json_wf (JObj kvs) = (obj_of kvs = kvs \<and> (\<forall>kv \<in> set kvs. json_wf (snd kv)))"

section \<open>Lexical round trips\<close>

lemma hex_val_digit: "n < 16 \<Longrightarrow> hex_val (hex_digit n) = Some n"
  by (auto simp: hex_val_def hex_digit_def is_digit_def)

lemma hex4_digits:
  "w < 16 \<Longrightarrow> x < 16 \<Longrightarrow> y < 16 \<Longrightarrow> z < 16 \<Longrightarrow>
   hex4 (hex_digit w) (hex_digit x) (hex_digit y) (hex_digit z) = Some (((w * 16 + x) * 16 + y) * 16 + z)"
  by (simp add: hex4_def hex_val_digit)

lemma hex4_escape:
  assumes "c < 65536"
  shows "hex4 (hex_digit (c div 4096 mod 16)) (hex_digit (c div 256 mod 16))
     (hex_digit (c div 16 mod 16)) (hex_digit (c mod 16)) = Some c"
proof -
  have d: "c div 256 = c div 16 div 16" "c div 4096 = c div 16 div 16 div 16"
    by (simp_all add: div_mult2_eq [symmetric])
  have "c div 4096 < 16" using assms by (simp add: div_less_iff_less_mult)
  then have eq: "((c div 4096 mod 16 * 16 + c div 256 mod 16) * 16 + c div 16 mod 16) * 16 + c mod 16 = c"
    unfolding d by simp
  have m: "n mod 16 < 16" for n :: nat by simp
  show ?thesis by (simp only: hex4_digits [OF m m m m] eq)
qed

lemma parse_chars_unicode:
  "c < 65536 \<Longrightarrow> parse_chars (unicode_escape c @ r) = push_char c (parse_chars r)"
  using hex4_escape [of c] by (simp add: unicode_escape_def)

lemma parse_chars_quote_char:
  "parse_chars (quote_char c @ r) = push_char c (parse_chars r)"
  by (auto simp: quote_char_def unescape_def parse_chars_unicode)

lemma parse_chars_plain: "\<not> c < 32 \<Longrightarrow> c \<noteq> 34 \<Longrightarrow> c \<noteq> 92 \<Longrightarrow> parse_chars (c # r) = push_char c (parse_chars r)"
  by simp

lemma parse_chars_quote_chars: "parse_chars (quote_chars s @ 34 # r) = Some (s, r)"
proof (induction s rule: quote_chars.induct)
  case 1
  then show ?case by simp
next
  case (2 c)
  have "is_high c \<or> is_low c \<Longrightarrow> c < 65536" by (auto simp: is_high_def is_low_def)
  then show ?case by (simp add: parse_chars_unicode parse_chars_quote_char)
next
  case (3 c d s)
  have b: "is_high c \<or> is_low c \<Longrightarrow> c < 65536" by (auto simp: is_high_def is_low_def)
  show ?case
  proof (cases "is_high c \<and> is_low d")
    case True
    then have "\<not> c < 32" "c \<noteq> 34" "c \<noteq> 92" "\<not> d < 32" "d \<noteq> 34" "d \<noteq> 92"
      by (auto simp: is_high_def is_low_def)
    with True 3 show ?thesis by (simp add: parse_chars_plain del: parse_chars.simps)
  next
    case False
    with 3 b show ?thesis
      by (auto simp: parse_chars_unicode parse_chars_quote_char simp del: parse_chars.simps)
  qed
qed

text \<open>A rest that cannot be read as part of a number before it.\<close>

definition num_stop :: "jsstr \<Rightarrow> bool" where
  "num_stop r \<longleftrightarrow> (case r of [] \<Rightarrow> True | c # _ \<Rightarrow> \<not> is_digit c \<and> c \<noteq> 46 \<and> c \<noteq> 101 \<and> c \<noteq> 69)"

lemma takeWhile_digits:
  "\<forall>c \<in> set ds. P c \<Longrightarrow> (r = [] \<or> \<not> P (hd r)) \<Longrightarrow> takeWhile P (ds @ r) = ds"
  "\<forall>c \<in> set ds. P c \<Longrightarrow> (r = [] \<or> \<not> P (hd r)) \<Longrightarrow> dropWhile P (ds @ r) = r"
  by (induction ds) (auto, (cases r; simp)+)

lemma exp_part_stop: "num_stop r \<Longrightarrow> exp_part r = Some (0, r)"
  by (auto simp: exp_part_def num_stop_def split: list.splits)

lemma frac_part_stop: "r = [] \<or> hd r \<noteq> 46 \<Longrightarrow> frac_part r = Some ([], r)"
  by (auto simp: frac_part_def split: list.splits)

lemma frac_part_digits:
  assumes "fd \<noteq> []" "\<forall>c \<in> set fd. is_digit c" "r = [] \<or> \<not> is_digit (hd r)"
  shows "frac_part (46 # fd @ r) = Some (fd, r)"
  unfolding frac_part_def Let_def
  using assms(1) takeWhile_digits [OF assms(2,3)] by (simp only: list.case simp_thms if_True if_False)

lemma int_part_digits:
  assumes "ds \<noteq> []" "\<forall>c \<in> set ds. is_digit c" "ds = [48] \<or> hd ds \<noteq> 48" "r = [] \<or> \<not> is_digit (hd r)"
  shows "int_part (ds @ r) = ds"
proof (cases "ds = [48]")
  case True
  then show ?thesis by (simp add: int_part_def)
next
  case False
  with assms show ?thesis
    using takeWhile_digits(1) [of ds is_digit r]
    by (cases ds) (auto simp: int_part_def split: list.splits)
qed

lemma exp_part_signed:
  assumes "ds \<noteq> []" "\<forall>c \<in> set ds. is_digit c" "r = [] \<or> \<not> is_digit (hd r)"
  shows "exp_part (101 # 45 # ds @ r) = Some (- int (digits_val ds), r)"
    "exp_part (101 # 43 # ds @ r) = Some (int (digits_val ds), r)"
  unfolding exp_part_def Let_def using assms(1) by (simp_all add: takeWhile_digits [OF assms(2,3)])

lemma exp_part_digits:
  assumes "num_stop r"
  shows "exp_part (101 # (if e < 0 then 45 else 43) # nat_digits (nat \<bar>e\<bar>) @ r) = Some (e, r)"
proof -
  have d: "\<forall>c \<in> set (nat_digits (nat \<bar>e\<bar>)). is_digit c" by (auto simp: nat_digits_digit)
  have s: "r = [] \<or> \<not> is_digit (hd r)"
    using assms by (auto simp: num_stop_def split: list.splits)
  show ?thesis
    using exp_part_signed [OF nat_digits_ne d s] by (cases "e < 0") simp_all
qed

text \<open>The general shape of the printed numbers.\<close>

lemma parse_unsigned_parts:
  assumes ip: "ip \<noteq> []" "\<forall>c \<in> set ip. is_digit c" "ip = [48] \<or> hd ip \<noteq> 48"
    and fd: "\<forall>c \<in> set fd. is_digit c"
    and r: "r = [] \<or> \<not> is_digit (hd r)" "r = [] \<or> hd r \<noteq> 46"
    and ex: "exp_part r = Some (e, r')"
  shows "parse_unsigned (ip @ (if fd = [] then [] else 46 # fd) @ r) =
    Some (of_nat (digits_val (ip @ fd)) * pow10 (e - int (length fd)), r')"
proof -
  have "int_part (ip @ (if fd = [] then [] else 46 # fd) @ r) = ip"
    using ip r(1) by (intro int_part_digits) (auto simp: is_digit_def)
  moreover have "frac_part ((if fd = [] then [] else 46 # fd) @ r) = Some (fd, r)"
    using fd r by (auto simp: frac_part_stop frac_part_digits)
  ultimately show ?thesis using ip(1) ex by (simp add: parse_unsigned_def Let_def)
qed

lemma num_stop_digit: "num_stop r \<Longrightarrow> (r = [] \<or> \<not> is_digit (hd r)) \<and> (r = [] \<or> hd r \<noteq> 46)"
  by (auto simp: num_stop_def split: list.splits)

lemma digits_val_replicate [simp]: "digits_val (replicate n 48) = 0"
  by (induction n) (auto simp: replicate_append_same [symmetric])

lemma digits_val_zeros: "digits_val (s @ replicate n 48) = digits_val s * 10 ^ n"
  by (simp add: digits_val_append)

lemma digits_val_zero_prefix: "digits_val (48 # replicate n 48 @ s) = digits_val s"
  using digits_val_append [of "48 # replicate n 48" s] digits_val_replicate [of "Suc n"] by simp

lemma parse_decimal_text:
  assumes "0 < m" "num_stop r"
  shows "parse_unsigned (decimal_text m e @ r) = Some (of_nat m * pow10 e, r)"
proof -
  define ds where "ds = nat_digits m"
  define k where "k = length ds"
  define n where "n = int k + e"
  have dig: "\<forall>c \<in> set ds. is_digit c" by (auto simp: ds_def nat_digits_digit)
  have ne: "ds \<noteq> []" "0 < k" by (simp_all add: ds_def k_def)
  have h: "hd ds \<noteq> 48" using assms(1) by (simp add: ds_def nat_digits_no_leading_zero)
  have z: "is_digit 48" by (simp add: is_digit_def)
  note stop = num_stop_digit [OF assms(2)]
  note parts = parse_unsigned_parts [where r' = r]
  have val: "digits_val ds = m" by (simp add: ds_def)
  have shape: "decimal_text m e =
     (if int k \<le> n \<and> n \<le> 21 then ds @ replicate (nat (n - int k)) 48
      else if 0 < n \<and> n \<le> 21 then take (nat n) ds @ 46 # drop (nat n) ds
      else if - 6 < n \<and> n \<le> 0 then 48 # 46 # replicate (nat (- n)) 48 @ ds
      else (if k = 1 then ds else hd ds # 46 # tl ds) @ 101 # (if n - 1 < 0 then 45 else 43)
             # nat_digits (nat \<bar>n - 1\<bar>))"
    by (simp add: decimal_text_def Let_def ds_def k_def n_def)
  consider (plain) "int k \<le> n" "n \<le> 21" | (point) "n < int k" "0 < n" "n \<le> 21"
    | (small) "n \<le> 0" "- 6 < n" | (expo) "n \<le> - 6 \<or> 21 < n" by linarith
  then show ?thesis
  proof cases
    case plain
    then have ee: "e = int (nat (n - int k))" by (simp add: n_def)
    have "parse_unsigned ((ds @ replicate (nat (n - int k)) 48) @ (if [] = ([] :: nat list) then [] else 46 # []) @ r)
      = Some (of_nat (digits_val ((ds @ replicate (nat (n - int k)) 48) @ [])) * pow10 (0 - int (length ([] :: nat list))), r)"
      using ne dig h z stop assms(2) by (intro parts) (auto simp: exp_part_stop)
    moreover have "decimal_text m e = ds @ replicate (nat (n - int k)) 48"
      using plain by (simp add: shape)
    moreover have "pow10 e = 10 ^ nat (n - int k)"
      by (subst ee) (rule pow10_nat)
    ultimately show ?thesis
      using val by (simp add: digits_val_zeros)
  next
    case point
    have fd: "drop (nat n) ds \<noteq> []" using point by (simp add: k_def [symmetric])
    have tk: "take (nat n) ds \<noteq> []" using point ne by simp
    have "parse_unsigned (take (nat n) ds @ (if drop (nat n) ds = [] then [] else 46 # drop (nat n) ds) @ r)
      = Some (of_nat (digits_val (take (nat n) ds @ drop (nat n) ds)) * pow10 (0 - int (length (drop (nat n) ds))), r)"
      using tk dig h stop assms(2) point
      by (intro parts) (auto simp: exp_part_stop hd_take dest: in_set_takeD in_set_dropD)
    moreover have "0 - int (length (drop (nat n) ds)) = e"
      using point by (simp add: n_def k_def [symmetric])
    ultimately show ?thesis using point fd val by (simp add: shape)
  next
    case small
    have "parse_unsigned ([48] @ (if replicate (nat (- n)) 48 @ ds = [] then [] else 46 # replicate (nat (- n)) 48 @ ds) @ r)
      = Some (of_nat (digits_val ([48] @ replicate (nat (- n)) 48 @ ds)) * pow10 (0 - int (length (replicate (nat (- n)) 48 @ ds))), r)"
      using dig z stop assms(2) by (intro parts) (auto simp: exp_part_stop)
    moreover have "0 - int (length (replicate (nat (- n)) 48 @ ds)) = e"
      using small by (simp add: n_def k_def [symmetric])
    moreover have "\<not> int k \<le> n" using small ne by simp
    ultimately show ?thesis
      using small ne val by (simp add: shape digits_val_zero_prefix)
  next
    case expo
    obtain d dt where dd: "ds = d # dt" using ne(1) by (cases ds) auto
    let ?x = "101 # (if n - 1 < 0 then 45 else 43) # nat_digits (nat \<bar>n - 1\<bar>) @ r"
    have x: "exp_part ?x = Some (n - 1, r)" using assms(2) by (rule exp_part_digits)
    have "parse_unsigned ([d] @ (if dt = [] then [] else 46 # dt) @ ?x)
      = Some (of_nat (digits_val ([d] @ dt)) * pow10 (n - 1 - int (length dt)), r)"
      using dig dd h x by (intro parts) (auto simp: is_digit_def)
    moreover have "n - 1 - int (length dt) = e" using dd by (simp add: n_def k_def)
    moreover have "decimal_text m e @ r = [d] @ (if dt = [] then [] else 46 # dt) @ ?x"
      using expo ne dd by (auto simp: shape k_def)
    ultimately show ?thesis using dd val by simp
  qed
qed

lemma decimal_text_hd: "0 < m \<Longrightarrow> decimal_text m e \<noteq> [] \<and> is_digit (hd (decimal_text m e))"
proof -
  have d: "is_digit (hd (nat_digits m))" by (rule hd_nat_digits_digit)
  have "nat_digits m \<noteq> []" by simp
  then obtain c t where "nat_digits m = c # t" by (cases "nat_digits m") auto
  with d show ?thesis
    by (auto simp: decimal_text_def Let_def is_digit_def take_Cons')
qed

lemma parse_num_text:
  assumes "decimal q" "num_stop r"
  shows "parse_number (num_text q @ r) = Some (q, r)"
proof -
  consider (z) "q = 0" | (neg) "q < 0" | (pos) "0 < q" by linarith
  then show ?thesis
  proof cases
    case z
    have "parse_unsigned ([48] @ (if [] = ([] :: nat list) then [] else 46 # []) @ r) =
        Some (of_nat (digits_val ([48] @ [])) * pow10 (0 - int (length ([] :: nat list))), r)"
      using assms(2) num_stop_digit [OF assms(2)]
      by (intro parse_unsigned_parts) (auto simp: is_digit_def exp_part_stop)
    then show ?thesis using z by (simp add: num_text_def parse_number_def digits_val_def)
  next
    case neg
    obtain m e where me: "decompose (- q) = (m, e)" by force
    have q: "- q = of_nat m * pow10 e"
      using decompose_correct [OF _ _ me] assms(1) neg by simp
    with neg have "0 < m" by (cases m) auto
    then show ?thesis
      using neg me q parse_decimal_text [OF _ assms(2), of m e]
      by (simp add: num_text_def parse_number_def)
  next
    case pos
    obtain m e where me: "decompose q = (m, e)" by force
    have q: "q = of_nat m * pow10 e"
      using decompose_correct [OF _ _ me] assms(1) pos by simp
    with pos have m: "0 < m" by (cases m) auto
    obtain c t where ct: "decimal_text m e = c # t" "is_digit c"
      using decimal_text_hd [OF m, of e] by (cases "decimal_text m e") auto
    then have "c \<noteq> 45" by (auto simp: is_digit_def)
    moreover have "num_text q = c # t" using pos me ct by (simp add: num_text_def)
    ultimately show ?thesis
      using ct parse_decimal_text [OF m assms(2), of e] by (simp add: parse_number_def flip: q)
  qed
qed

section \<open>Consumption and fuel\<close>

lemma skip_ws_le: "length (skip_ws s) \<le> length s"
  by (simp add: skip_ws_def length_dropWhile_le)

lemma skip_ws_Cons_le: "skip_ws s = c # t \<Longrightarrow> length t < length s"
  using skip_ws_le [of s] by simp

lemma parse_chars_less: "parse_chars s = Some (cs, r) \<Longrightarrow> length r < length s"
proof (induction s arbitrary: cs r rule: parse_chars.induct)
  case 1
  then show ?case by simp
next
  case (2 c s)
  then show ?case
    by (fastforce simp del: parse_chars.simps simp: parse_chars.simps(2) [of c s]
        split: if_splits list.splits option.splits)
qed

lemma frac_part_le: "frac_part s = Some (fd, r) \<Longrightarrow> length r \<le> length s"
  by (auto simp: frac_part_def Let_def length_dropWhile_le le_SucI split: list.splits if_splits)

lemma exp_part_le: "exp_part s = Some (e, r) \<Longrightarrow> length r \<le> length s"
proof (cases s)
  case (Cons c t)
  have "length (dropWhile is_digit (tl t)) \<le> length t" "length (dropWhile is_digit t) \<le> length t"
    using length_dropWhile_le [of is_digit "tl t"] length_dropWhile_le [of is_digit t] by auto
  moreover assume "exp_part s = Some (e, r)"
  ultimately show ?thesis
    using Cons by (auto simp: exp_part_def Let_def split: if_splits)
qed (simp add: exp_part_def)

lemma int_part_le: "int_part s \<noteq> [] \<Longrightarrow> length (drop (length (int_part s)) s) < length s"
  by (cases s) (auto simp: int_part_def)

lemma parse_unsigned_less: "parse_unsigned s = Some (q, r) \<Longrightarrow> length r < length s"
  using int_part_le [of s] frac_part_le exp_part_le
  by (fastforce simp: parse_unsigned_def Let_def split: if_splits option.splits prod.splits)

lemma parse_number_less: "parse_number s = Some (q, r) \<Longrightarrow> length r < length s"
  by (auto simp: parse_number_def split: list.splits if_splits dest: parse_unsigned_less)

lemma parse_less:
  "parse_value f s = Some (v, r) \<Longrightarrow> length r < length s"
  "parse_elems f s = Some (xs, r) \<Longrightarrow> length r < length s"
  "parse_members f s = Some (kvs, r) \<Longrightarrow> length r < length s"
proof (induction f s and f s and f s arbitrary: v r and xs r and kvs r
    rule: parse_value_parse_elems_parse_members.induct)
  case (2 f s)
  obtain c t where ct: "skip_ws s = c # t"
    using "2.prems" by (cases "skip_ws s") auto
  have lt: "length t < length s" using ct by (rule skip_ws_Cons_le)
  have dl: "length (drop 4 (c # t)) < length s" "length (drop 5 (c # t)) < length s"
    using lt by auto
  have num: "parse_number (c # t) = Some (q, r') \<Longrightarrow> length r' < length s" for q r'
    using parse_number_less [of "c # t" q r'] lt by simp
  have chs: "parse_chars t = Some (cs, r') \<Longrightarrow> length r' < length s" for cs r'
    using parse_chars_less [of t cs r'] lt by simp
  have sk: "skip_ws t = d # r' \<Longrightarrow> length r' < length s" for d r'
    using skip_ws_Cons_le [of t d r'] lt by simp
  have mem: "c = 123 \<Longrightarrow> skip_ws t = d # r' \<Longrightarrow> d \<noteq> 125 \<Longrightarrow> parse_members f t = Some (m, r'') \<Longrightarrow> length r'' < length s"
    for d r' m r'' using "2.IH"(1) [OF ct, of d r' m r''] lt by simp
  have els: "c = 91 \<Longrightarrow> skip_ws t = d # r' \<Longrightarrow> d \<noteq> 93 \<Longrightarrow> parse_elems f t = Some (m, r'') \<Longrightarrow> length r'' < length s"
    for d r' m r'' using "2.IH"(2) [OF ct, of d r' m r''] lt by simp
  consider "c = 123" | "c = 91" | "c = 34" | "c \<noteq> 123" "c \<noteq> 91" "c \<noteq> 34" by blast
  then show ?case
  proof cases
    case 1
    with "2.prems" ct show ?thesis by (auto split: list.splits if_splits dest: sk mem)
  next
    case 2
    with "2.prems" ct show ?thesis by (auto split: list.splits if_splits dest: sk els)
  next
    case 3
    with "2.prems" ct show ?thesis by (auto dest: chs)
  next
    case 4
    with "2.prems" ct dl show ?thesis
      by (auto split: if_splits dest: num simp del: drop_Cons' drop_Suc_Cons)
  qed
next
  case (4 f s)
  obtain v' r1 where v': "parse_value f s = Some (v', r1)"
    using "4.prems" by (auto split: option.splits)
  then have l1: "length r1 < length s" using "4.IH"(1) by blast
  obtain c t where ct: "skip_ws r1 = c # t"
    using "4.prems" v' by (cases "skip_ws r1") auto
  then have l2: "length t < length s" using skip_ws_Cons_le [OF ct] l1 by simp
  show ?case
    using "4.prems" v' ct l2 "4.IH"(2) [OF v' refl ct] by (fastforce split: if_splits)
next
  case (6 f s)
  obtain t where ct: "skip_ws s = 34 # t"
    using "6.prems" by (auto split: list.splits if_splits)
  obtain k r1 where kr: "parse_chars t = Some (k, r1)"
    using "6.prems" ct by (auto split: option.splits)
  obtain r2 where r2: "skip_ws r1 = 58 # r2"
    using "6.prems" ct kr by (auto split: list.splits if_splits)
  obtain v' r3 where v': "parse_value f r2 = Some (v', r3)"
    using "6.prems" ct kr r2 by (auto split: option.splits)
  obtain e r4 where er: "skip_ws r3 = e # r4"
    using "6.prems" ct kr r2 v' by (cases "skip_ws r3") auto
  have "length r3 < length r2" using "6.IH"(1) ct kr r2 v' by fastforce
  then have l: "length r4 < length s"
    using skip_ws_Cons_le [OF ct] parse_chars_less [OF kr] skip_ws_Cons_le [OF r2] skip_ws_Cons_le [OF er]
    by simp
  show ?case
    using "6.prems" ct kr r2 v' er l "6.IH"(2) by (fastforce split: if_splits)
qed auto

lemmas parse_simps = parse_value.simps parse_elems.simps parse_members.simps

lemma parse_fuel_step:
  "2 * length s + 1 \<le> f \<Longrightarrow> parse_value (Suc f) s = parse_value f s"
  "2 * length s + 2 \<le> f \<Longrightarrow> parse_elems (Suc f) s = parse_elems f s"
  "2 * length s + 2 \<le> f \<Longrightarrow> parse_members (Suc f) s = parse_members f s"
proof (induction f s and f s and f s rule: parse_value_parse_elems_parse_members.induct)
  case (2 f s)
  show ?case
  proof (cases "skip_ws s")
    case Nil
    then show ?thesis by (simp add: parse_value.simps(2) [of _ s] del: parse_simps)
  next
    case (Cons c t)
    have "2 * length t + 2 \<le> f" using skip_ws_Cons_le [OF Cons] "2.prems" by simp
    then have "c = 123 \<Longrightarrow> skip_ws t = d # r \<Longrightarrow> d \<noteq> 125 \<Longrightarrow> parse_members (Suc f) t = parse_members f t"
      and "c = 91 \<Longrightarrow> skip_ws t = d # r \<Longrightarrow> d \<noteq> 93 \<Longrightarrow> parse_elems (Suc f) t = parse_elems f t" for d r
      using "2.IH" Cons by auto
    then show ?thesis
      by (auto simp: parse_value.simps(2) [of _ s] Cons simp del: parse_simps split: list.splits)
  qed
next
  case (4 f s)
  have 1: "parse_value (Suc f) s = parse_value f s" using "4.IH"(1) "4.prems" by simp
  have 2: "parse_elems (Suc f) t = parse_elems f t"
    if "parse_value f s = Some (v, r)" "skip_ws r = 44 # t" for v r t
  proof -
    have "length t + 1 < length s" using parse_less(1) [OF that(1)] skip_ws_Cons_le [OF that(2)] by simp
    then show ?thesis using "4.IH"(2) [OF that(1) refl that(2)] "4.prems" by simp
  qed
  show ?case
    by (auto simp: parse_elems.simps(2) [of _ s] 1 2 simp del: parse_simps split: option.splits list.splits)
next
  case (6 f s)
  have 1: "parse_value (Suc f) r1 = parse_value f r1"
    if "skip_ws s = 34 # t" "parse_chars t = Some (k, r)" "skip_ws r = 58 # r1" for t k r r1
  proof -
    have "length r1 < length s"
      using skip_ws_Cons_le [OF that(1)] parse_chars_less [OF that(2)] skip_ws_Cons_le [OF that(3)] by simp
    then show ?thesis using "6.IH"(1) [OF that(1) _ that(2) refl that(3)] "6.prems" by simp
  qed
  have 2: "parse_members (Suc f) r3 = parse_members f r3"
    if "skip_ws s = 34 # t" "parse_chars t = Some (k, r)" "skip_ws r = 58 # r1"
      "parse_value f r1 = Some (v, r2)" "skip_ws r2 = 44 # r3" for t k r r1 v r2 r3
  proof -
    have "length r3 < length s"
      using skip_ws_Cons_le [OF that(1)] parse_chars_less [OF that(2)] skip_ws_Cons_le [OF that(3)]
        parse_less(1) [OF that(4)] skip_ws_Cons_le [OF that(5)] by simp
    then show ?thesis using "6.IH"(2) [OF that(1) _ that(2) refl that(3) _ that(4) refl that(5)] "6.prems" by simp
  qed
  show ?case
    by (auto simp: parse_members.simps(2) [of _ s] 1 2 simp del: parse_simps split: option.splits list.splits)
qed auto

lemma parse_value_fuel: "2 * length s + 1 \<le> f \<Longrightarrow> parse_value f s = parse_value (2 * length s + 1) s"
  by (induction f rule: dec_induct) (auto simp: parse_fuel_step(1) simp del: parse_simps)

section \<open>The round trip\<close>

definition value_stop :: "jsstr \<Rightarrow> bool" where
  "value_stop r \<longleftrightarrow> r = [] \<or> hd r = 44 \<or> hd r = 93 \<or> hd r = 125"

lemma value_stop_num: "value_stop r \<Longrightarrow> num_stop r"
  by (auto simp: value_stop_def num_stop_def is_digit_def split: list.splits)

lemma num_text_hd: "decimal q \<Longrightarrow> num_text q \<noteq> [] \<and> (is_digit (hd (num_text q)) \<or> hd (num_text q) = 45)"
proof -
  assume d: "decimal q"
  have "0 < q \<Longrightarrow> decompose q = (m, e) \<Longrightarrow> 0 < m" for m e
    using decompose_correct [OF d, of m e] by (cases m) auto
  then show ?thesis
    using decimal_text_hd by (auto simp: num_text_def is_digit_def split: prod.splits)
qed

lemma stringify_hd:
  assumes "json_wf v"
  shows "stringify v \<noteq> [] \<and> \<not> is_json_ws (hd (stringify v)) \<and> hd (stringify v) \<noteq> 93"
proof (cases v)
  case (JNum q)
  then show ?thesis using num_text_hd [of q] assms by (auto simp: is_digit_def is_json_ws_def)
qed (auto simp: is_json_ws_def quote_def js_eval)

lemma skip_ws_id: "s = [] \<or> \<not> is_json_ws (hd s) \<Longrightarrow> skip_ws s = s"
  by (cases s) (auto simp: skip_ws_def)

lemma skip_ws_stringify: "json_wf v \<Longrightarrow> skip_ws (stringify v @ r) = stringify v @ r"
  using stringify_hd [of v] by (intro skip_ws_id) (simp add: hd_append)

lemma join_Cons: "ss \<noteq> [] \<Longrightarrow> join sep (s # ss) = s @ sep @ join sep ss"
  by (cases ss) auto

lemma join_hd: "s \<noteq> [] \<Longrightarrow> hd (join sep (s # ss) @ r) = hd s \<and> join sep (s # ss) \<noteq> []"
  by (cases ss) auto

lemma str_elems_Nil [simp]: "str_elems xs = [] \<longleftrightarrow> xs = []"
  by (cases xs) auto

lemma json_wf_not_undef: "json_wf v \<Longrightarrow> v \<noteq> JUndef"
  by auto

lemma str_members_Cons:
  "json_wf v \<Longrightarrow> str_members ((k, v) # kvs) = (quote k @ 58 # stringify v) # str_members kvs"
  by (simp add: json_wf_not_undef)

lemma str_members_Nil: "\<forall>kv \<in> set kvs. json_wf (snd kv) \<Longrightarrow> str_members kvs = [] \<longleftrightarrow> kvs = []"
  by (cases kvs) (auto simp: str_members_Cons simp del: str_members.simps(2))

lemma parse_value_num:
  assumes "decimal q" "num_stop r"
  shows "parse_value (Suc f) (num_text q @ r) = Some (JNum q, r)"
proof -
  obtain c t where ct: "num_text q = c # t" "is_digit c \<or> c = 45"
    using num_text_hd [OF assms(1)] by (cases "num_text q") auto
  then have ws: "skip_ws (c # t @ r) = c # t @ r"
    by (intro skip_ws_id) (auto simp: is_json_ws_def is_digit_def)
  have c: "c \<noteq> 123" "c \<noteq> 91" "c \<noteq> 34" "c \<noteq> 116" "c \<noteq> 102" "c \<noteq> 110"
    using ct(2) by (auto simp: is_digit_def)
  show ?thesis
    using parse_num_text [OF assms] ct(1) ws c
    by (simp add: js_eval)
qed

lemma parse_member_step:
  assumes "parse_value f (sv @ e # r) = Some (v, e # r)" "e = 125 \<or> e = 44"
  shows "parse_members (Suc f) (quote k @ 58 # sv @ e # r) =
    (if e = 125 then Some ([(k, v)], r)
     else map_option (\<lambda>(kvs, r'). ((k, v) # kvs, r')) (parse_members f r))"
proof -
  have "skip_ws (34 # s) = 34 # s" "skip_ws (58 # s) = 58 # s" "skip_ws (e # s) = e # s" for s
    using assms(2) by (auto simp: skip_ws_def is_json_ws_def)
  then show ?thesis
    using assms parse_chars_quote_chars [of k "58 # sv @ e # r"] by (auto simp: quote_def)
qed

lemma parse_stringify:
  "json_wf v \<Longrightarrow> value_stop r \<Longrightarrow> 2 * length (stringify v) + 1 \<le> f \<Longrightarrow>
     parse_value f (stringify v @ r) = Some (v, r)"
  "xs \<noteq> [] \<Longrightarrow> \<forall>x \<in> set xs. json_wf x \<Longrightarrow> 2 * length (join [44] (str_elems xs)) + 2 \<le> f \<Longrightarrow>
     parse_elems f (join [44] (str_elems xs) @ 93 # r) = Some (xs, r)"
  "kvs \<noteq> [] \<Longrightarrow> \<forall>kv \<in> set kvs. json_wf (snd kv) \<Longrightarrow> 2 * length (join [44] (str_members kvs)) + 2 \<le> f \<Longrightarrow>
     parse_members f (join [44] (str_members kvs) @ 125 # r) = Some (kvs, r)"
proof (induction v and xs and kvs arbitrary: f r and f r and f r rule: stringify_str_elems_str_members.induct)
  case (2)
  then show ?case by (cases f) (auto simp: skip_ws_def is_json_ws_def js_eval)
next
  case (3 b)
  then show ?case by (cases f) (auto simp: skip_ws_def is_json_ws_def js_eval)
next
  case (4 q)
  then show ?case using parse_value_num [of q r] value_stop_num [of r] by (cases f) (auto simp del: parse_simps)
next
  case (5 s)
  then obtain g where "f = Suc g" by (cases f) auto
  with parse_chars_quote_chars [of s r] show ?case
    by (simp add: quote_def skip_ws_def is_json_ws_def)
next
  case (6 xs)
  then obtain g where g: "f = Suc g" "2 * length (join [44] (str_elems xs)) + 2 \<le> g" by (cases f) auto
  show ?case
  proof (cases xs)
    case Nil
    with g show ?thesis by (simp add: skip_ws_def is_json_ws_def)
  next
    case (Cons x xs')
    then have x: "json_wf x" using "6.prems" by simp
    let ?s = "join [44] (str_elems xs) @ 93 # r"
    have h: "hd ?s = hd (stringify x)" "?s \<noteq> []"
      using join_hd [of "stringify x"] stringify_hd [OF x] Cons by auto
    then have ws: "skip_ws ?s = ?s" using stringify_hd [OF x] by (intro skip_ws_id) simp
    obtain d t where dt: "?s = d # t" "d \<noteq> 93" using h stringify_hd [OF x] by (cases ?s) auto
    have "parse_elems g ?s = Some (xs, r)"
      using "6.IH" g(2) "6.prems"(1) Cons by simp
    then show ?thesis
      using g(1) ws dt by (simp add: skip_ws_id is_json_ws_def)
  qed
next
  case (7 kvs)
  then obtain g where g: "f = Suc g" "2 * length (join [44] (str_members kvs)) + 2 \<le> g" by (cases f) auto
  show ?case
  proof (cases kvs)
    case Nil
    with g show ?thesis by (simp add: skip_ws_def is_json_ws_def)
  next
    case (Cons kv kvs')
    obtain k v where kv: "kv = (k, v)" by force
    then have v: "json_wf v" using "7.prems" Cons by simp
    let ?s = "join [44] (str_members kvs) @ 125 # r"
    have h: "hd ?s = 34" "?s \<noteq> []"
      using join_hd [of "quote k @ 58 # stringify v" "[44]"] Cons kv json_wf_not_undef [OF v]
      by (auto simp: quote_def)
    obtain t where dt: "?s = 34 # t" using h by (cases ?s) auto
    have "parse_members g ?s = Some (kvs, r)"
      using "7.IH" g(2) "7.prems"(1) Cons by simp
    then show ?thesis
      using g(1) dt "7.prems"(1) by (simp add: skip_ws_id is_json_ws_def)
  qed
next
  case (9 v vs)
  then obtain g where g: "f = Suc g" by (cases f) auto
  show ?case
  proof (cases "vs = []")
    case True
    have "parse_value g (stringify v @ 93 # r) = Some (v, 93 # r)"
      using "9.IH"(1) "9.prems" g True by (simp add: value_stop_def)
    then show ?thesis using g True by (simp add: skip_ws_def is_json_ws_def)
  next
    case False
    let ?r = "join [44] (str_elems vs) @ 93 # r"
    have j: "join [44] (str_elems (v # vs)) = stringify v @ 44 # join [44] (str_elems vs)"
      using False by (simp add: join_Cons)
    have "parse_value g (stringify v @ 44 # ?r) = Some (v, 44 # ?r)"
      using "9.IH"(1) "9.prems" g j by (simp add: value_stop_def)
    moreover have "parse_elems g ?r = Some (vs, r)"
      using "9.IH"(2) "9.prems" g j False by simp
    ultimately show ?thesis using g j by (simp add: skip_ws_def is_json_ws_def)
  qed
next
  case (11 k v kvs)
  then obtain g where g: "f = Suc g" by (cases f) auto
  have v: "json_wf v" "v \<noteq> JUndef" using "11.prems" by auto
  show ?case
  proof (cases "kvs = []")
    case True
    have "parse_value g (stringify v @ 125 # r) = Some (v, 125 # r)"
      using "11.IH"(2) "11.prems" g True v by (simp add: value_stop_def quote_def)
    from parse_member_step [OF this, of k] show ?thesis using g True v by simp
  next
    case False
    let ?r = "join [44] (str_members kvs) @ 125 # r"
    have ne: "str_members kvs \<noteq> []" using False str_members_Nil [of kvs] "11.prems" by simp
    then have j: "join [44] (str_members ((k, v) # kvs)) = quote k @ 58 # stringify v @ 44 # join [44] (str_members kvs)"
      using v by (simp add: join_Cons)
    have "parse_value g (stringify v @ 44 # ?r) = Some (v, 44 # ?r)"
      using "11.IH"(2) "11.prems" g j v by (simp add: value_stop_def)
    moreover have "parse_members g ?r = Some (kvs, r)"
      using "11.IH"(3) "11.prems" g j False v by simp
    ultimately show ?thesis using parse_member_step [of g "stringify v" 44 ?r v k] g j by simp
  qed
qed auto

theorem json_roundtrip: "json_wf v \<Longrightarrow> json_parse (stringify v) = Some v"
  using parse_stringify(1) [of v "[]" "2 * length (stringify v) + 1"]
  by (simp add: json_parse_def value_stop_def skip_ws_def del: parse_simps)

section \<open>The interface to the storage layer\<close>

locale json_codec =
  fixes enc :: "jsval \<Rightarrow> jsstr"
    and dec :: "jsstr \<Rightarrow> jsval option"
    and ok :: "jsval \<Rightarrow> bool"
  assumes dec_enc: "ok v \<Longrightarrow> dec (enc v) = Some v"
    and enc_not_empty: "ok v \<Longrightarrow> enc v \<noteq> []"
begin

lemma enc_inj: "ok v \<Longrightarrow> ok w \<Longrightarrow> enc v = enc w \<Longrightarrow> v = w"
  by (metis dec_enc option.inject)

end

interpretation json: json_codec stringify json_parse json_wf
  by unfold_locales (use json_roundtrip stringify_hd in auto)

end
