(* ===== verification/Messages.thy ===== *)
theory Messages
  imports Prelude
begin

text \<open>
  The message model of the chat playground (\<open>features/playground/types.ts\<close>) and the operations on
  one message: construction and access (\<open>lib/message/message-utils.ts\<close>), timing
  (\<open>message-timing-utils.ts\<close>) and the separation of reasoning in \<open><think>\<close> tags from visible text
  (\<open>message-reasoning-utils.ts\<close>).

  An optional property is an \<^typ>\<open>'a option\<close> field; \<open>errorCode\<close> distinguishes \<open>undefined\<close>
  (\<^term>\<open>None\<close>) from \<open>null\<close> (\<^term>\<open>Some None\<close>). Every read of the clock (\<open>Date.now()\<close>) and every
  identifier drawn from \<open>nanoid\<close> is an argument, in the order in which the source evaluates them.
\<close>

section \<open>Types\<close>

datatype MessageRole = User | Assistant | System
datatype MessageStatus = Loading | Streaming | Complete | Error
datatype PlaygroundMessageLayoutMode = Alternating | LayoutLeft

record MessageVersion =
  version_id :: jsstr
  version_content :: jsstr

record Reasoning =
  r_content :: jsstr
  r_duration :: rat
  r_startedAt :: "rat option"
  r_completedAt :: "rat option"
  r_durationMs :: "rat option"

record Source =
  href :: jsstr
  source_title :: jsstr

record Message =
  msg_key :: jsstr
  msg_from :: MessageRole
  versions :: "MessageVersion list"
  createdAt :: "rat option"
  startedAt :: "rat option"
  completedAt :: "rat option"
  durationMs :: "rat option"
  sources :: "Source list option"
  reasoning :: "Reasoning option"
  isReasoningStreaming :: "bool option"
  isReasoningComplete :: "bool option"
  isContentComplete :: "bool option"
  status :: "MessageStatus option"
  errorCode :: "jsstr option option"

datatype ContentPart = TextPart "jsstr option" | ImageUrlPart jsstr
datatype MessageContent = ContentText jsstr | ContentParts "ContentPart list"

record ChatCompletionMessage =
  role :: MessageRole
  api_content :: MessageContent

text \<open>\<open>a ?? b\<close> on optional values, and the truth value of an optional flag.\<close>

definition orelse :: "'a option \<Rightarrow> 'a option \<Rightarrow> 'a option" where
  "orelse a b = (case a of None \<Rightarrow> b | Some _ \<Rightarrow> a)"

definition flag :: "bool option \<Rightarrow> bool" where
  "flag b = (b = Some True)"

lemma orelse_simps [simp]: "orelse None b = b" "orelse (Some x) b = Some x"
  by (simp_all add: orelse_def)

lemma flag_simps [simp]: "flag None = False" "flag (Some b) = b"
  by (simp_all add: flag_def)

section \<open>Construction and access\<close>

definition createMessageVersion :: "jsstr \<Rightarrow> jsstr \<Rightarrow> MessageVersion" where
  "createMessageVersion nid content = \<lparr>version_id = nid, version_content = content\<rparr>"

definition getCurrentVersion :: "Message \<Rightarrow> MessageVersion" where
  "getCurrentVersion m =
     (case versions m of
        [] \<Rightarrow> \<lparr>version_id = js ''default'', version_content = []\<rparr>
      | v # _ \<Rightarrow> v)"

definition getMessageContent :: "Message \<Rightarrow> jsstr" where
  "getMessageContent m = version_content (getCurrentVersion m)"

definition hasMessageContent :: "Message \<Rightarrow> bool" where
  "hasMessageContent m \<longleftrightarrow> trim (getMessageContent m) \<noteq> []"

definition updateCurrentVersionContent :: "Message \<Rightarrow> jsstr \<Rightarrow> Message" where
  "updateCurrentVersionContent m content =
     m\<lparr>versions := [(getCurrentVersion m)\<lparr>version_content := content\<rparr>]\<rparr>"

definition createUserMessage :: "jsstr \<Rightarrow> jsstr \<Rightarrow> jsstr \<Rightarrow> rat \<Rightarrow> Message" where
  "createUserMessage nid1 nid2 content created =
     \<lparr>msg_key = nid1, msg_from = User, versions = [createMessageVersion nid2 content],
      createdAt = Some created, startedAt = None, completedAt = None, durationMs = None,
      sources = None, reasoning = None, isReasoningStreaming = None, isReasoningComplete = None,
      isContentComplete = None, status = None, errorCode = None\<rparr>"

definition createLoadingAssistantMessage :: "jsstr \<Rightarrow> jsstr \<Rightarrow> rat \<Rightarrow> Message" where
  "createLoadingAssistantMessage nid1 nid2 started =
     \<lparr>msg_key = nid1, msg_from = Assistant, versions = [createMessageVersion nid2 []],
      createdAt = Some started, startedAt = Some started, completedAt = None, durationMs = None,
      sources = None, reasoning = None, isReasoningStreaming = Some False,
      isReasoningComplete = Some False, isContentComplete = Some False,
      status = Some Loading, errorCode = None\<rparr>"

definition buildMessageContent :: "jsstr \<Rightarrow> jsstr list \<Rightarrow> MessageContent" where
  "buildMessageContent txt imageUrls =
     (let validImages = filter (\<lambda>url. trim url \<noteq> []) imageUrls in
      if validImages = [] then ContentText txt
      else ContentParts (TextPart (Some txt) # map (\<lambda>url. ImageUrlPart (trim url)) validImages))"

fun is_text_part :: "ContentPart \<Rightarrow> bool" where
  "is_text_part (TextPart _) = True"
| "is_text_part (ImageUrlPart _) = False"

definition getTextContent :: "MessageContent \<Rightarrow> jsstr" where
  "getTextContent c =
     (case c of
        ContentText s \<Rightarrow> s
      | ContentParts ps \<Rightarrow>
          (case List.find is_text_part ps of Some (TextPart (Some t)) \<Rightarrow> t | _ \<Rightarrow> []))"

definition formatMessageForAPI :: "Message \<Rightarrow> ChatCompletionMessage" where
  "formatMessageForAPI m =
     \<lparr>role = msg_from m, api_content = ContentText (version_content (getCurrentVersion m))\<rparr>"

definition isValidMessage :: "Message \<Rightarrow> bool" where
  "isValidMessage m =
     (if versions m = [] then False
      else if msg_from m = Assistant \<and> \<not> hasMessageContent m then False
      else True)"

section \<open>Timing\<close>

definition completeAssistantTiming :: "Message \<Rightarrow> rat \<Rightarrow> Message" where
  "completeAssistantTiming m completed =
     (if msg_from m \<noteq> Assistant then m
      else let started = (case orelse (startedAt m) (createdAt m) of Some t \<Rightarrow> t | None \<Rightarrow> completed)
           in m\<lparr>startedAt := Some started, completedAt := Some completed,
                durationMs := Some (max 0 (completed - started))\<rparr>)"

definition startReasoningTiming :: "Message \<Rightarrow> rat \<Rightarrow> Reasoning" where
  "startReasoningTiming m started =
     (case reasoning m of
        None \<Rightarrow> \<lparr>r_content = [], r_duration = 0, r_startedAt = Some started,
                 r_completedAt = None, r_durationMs = None\<rparr>
      | Some r \<Rightarrow> \<lparr>r_content = r_content r, r_duration = r_duration r,
                   r_startedAt = orelse (r_startedAt r) (Some started),
                   r_completedAt = r_completedAt r, r_durationMs = r_durationMs r\<rparr>)"

definition completeReasoningTiming :: "Message \<Rightarrow> rat \<Rightarrow> Message" where
  "completeReasoningTiming m completed =
     (case reasoning m of
        None \<Rightarrow> m
      | Some r \<Rightarrow>
          (if r_durationMs r \<noteq> None then m
           else let started = (case orelse (r_startedAt r) (startedAt m) of Some t \<Rightarrow> t | None \<Rightarrow> completed);
                    dur = max 0 (completed - started)
                in m\<lparr>reasoning := Some (r\<lparr>r_startedAt := Some started, r_completedAt := Some completed,
                       r_durationMs := Some dur, r_duration := of_int \<lceil>dur / 1000\<rceil>\<rparr>)\<rparr>))"

section \<open>Reasoning in think tags\<close>

record ParsedThinkTags =
  visibleContent :: jsstr
  think_reasoning :: jsstr
  hasUnclosedTag :: bool

abbreviation open_tag :: jsstr where "open_tag \<equiv> js ''<think>''"
abbreviation close_tag :: jsstr where "close_tag \<equiv> js ''</think>''"

lemma indexOf_progress:
  assumes "indexOf s p n = Some i" "p \<noteq> []"
  shows "n < length s" "n \<le> i" "i + length p \<le> length s"
proof -
  from assms(1) obtain k where k: "find_sub p (drop n s) = Some k" "i = n + k"
    by (auto simp: indexOf_def)
  from find_sub_Some [OF k(1)] have "k + length p \<le> length s - n" by simp
  then show "n < length s" "n \<le> i" "i + length p \<le> length s"
    using assms(2) k(2) by (cases p, auto)+
qed

text \<open>The loop of the parser over the positions of the content.\<close>

function think_loop :: "jsstr \<Rightarrow> nat \<Rightarrow> jsstr list \<Rightarrow> jsstr list \<Rightarrow> jsstr list \<times> jsstr list \<times> bool" where
  "think_loop content currentPos visibleParts reasoningParts =
     (case indexOf content open_tag currentPos of
        None \<Rightarrow>
          (if currentPos < length content then visibleParts @ [drop currentPos content] else visibleParts,
           reasoningParts, False)
      | Some openPos \<Rightarrow>
          (let vis = (if openPos > currentPos then visibleParts @ [slice content currentPos openPos]
                      else visibleParts)
           in case indexOf content close_tag (openPos + 7) of
                None \<Rightarrow> (vis, reasoningParts @ [drop (openPos + 7) content], True)
              | Some closePos \<Rightarrow>
                  think_loop content (closePos + 8) vis
                    (reasoningParts @ [slice content (openPos + 7) closePos])))"
  by pat_completeness auto
termination
proof (relation "measure (\<lambda>(content, pos, vis, reas). length content - pos)", goal_cases)
  case (2 content pos vis reas openPos vis' closePos)
  then show ?case
    using indexOf_progress [of content open_tag pos openPos]
      indexOf_progress [of content close_tag "openPos + 7" closePos]
    by simp
qed simp

declare think_loop.simps [simp del]

definition parseThinkTags :: "jsstr \<Rightarrow> ParsedThinkTags" where
  "parseThinkTags content =
     (if \<not> includesStr content open_tag
      then \<lparr>visibleContent = content, think_reasoning = [], hasUnclosedTag = False\<rparr>
      else case think_loop content 0 [] [] of
             (vis, reas, unclosed) \<Rightarrow>
               \<lparr>visibleContent = trim (join [] vis), think_reasoning = trim (join [10, 10] reas),
                hasUnclosedTag = unclosed\<rparr>)"

section \<open>Facts about one message\<close>

named_theorems msg_defs \<open>definitions of the operations on one message\<close>

declare
  createMessageVersion_def [msg_defs] getMessageContent_def [msg_defs]
  updateCurrentVersionContent_def [msg_defs] completeAssistantTiming_def [msg_defs]
  startReasoningTiming_def [msg_defs] completeReasoningTiming_def [msg_defs]

lemma getCurrentVersion_single [simp]: "versions m = v # vs \<Longrightarrow> getCurrentVersion m = v"
  by (simp add: getCurrentVersion_def)

lemma getMessageContent_update [simp]: "getMessageContent (updateCurrentVersionContent m s) = s"
  by (simp add: msg_defs)

lemma updateCurrentVersionContent_twice [simp]:
  "updateCurrentVersionContent (updateCurrentVersionContent m s) t = updateCurrentVersionContent m t"
  by (simp add: msg_defs)

lemma updateCurrentVersionContent_fields [simp]:
  "msg_key (updateCurrentVersionContent m s) = msg_key m"
  "msg_from (updateCurrentVersionContent m s) = msg_from m"
  "status (updateCurrentVersionContent m s) = status m"
  "reasoning (updateCurrentVersionContent m s) = reasoning m"
  "startedAt (updateCurrentVersionContent m s) = startedAt m"
  "createdAt (updateCurrentVersionContent m s) = createdAt m"
  "errorCode (updateCurrentVersionContent m s) = errorCode m"
  "isReasoningStreaming (updateCurrentVersionContent m s) = isReasoningStreaming m"
  "versions (updateCurrentVersionContent m s) \<noteq> []"
  by (simp_all add: msg_defs)

lemma completeAssistantTiming_fields [simp]:
  "msg_key (completeAssistantTiming m t) = msg_key m"
  "msg_from (completeAssistantTiming m t) = msg_from m"
  "status (completeAssistantTiming m t) = status m"
  "versions (completeAssistantTiming m t) = versions m"
  "reasoning (completeAssistantTiming m t) = reasoning m"
  "createdAt (completeAssistantTiming m t) = createdAt m"
  "errorCode (completeAssistantTiming m t) = errorCode m"
  "isReasoningStreaming (completeAssistantTiming m t) = isReasoningStreaming m"
  by (simp_all add: completeAssistantTiming_def Let_def)

lemma completeReasoningTiming_fields [simp]:
  "msg_key (completeReasoningTiming m t) = msg_key m"
  "msg_from (completeReasoningTiming m t) = msg_from m"
  "status (completeReasoningTiming m t) = status m"
  "versions (completeReasoningTiming m t) = versions m"
  "startedAt (completeReasoningTiming m t) = startedAt m"
  "createdAt (completeReasoningTiming m t) = createdAt m"
  "errorCode (completeReasoningTiming m t) = errorCode m"
  "isReasoningStreaming (completeReasoningTiming m t) = isReasoningStreaming m"
  "(reasoning (completeReasoningTiming m t) = None) = (reasoning m = None)"
  "map_option r_content (reasoning (completeReasoningTiming m t)) = map_option r_content (reasoning m)"
  by (auto simp: completeReasoningTiming_def Let_def split: option.splits)

lemma getMessageContent_timing [simp]:
  "getMessageContent (completeAssistantTiming m t) = getMessageContent m"
  "getMessageContent (completeReasoningTiming m t) = getMessageContent m"
  by (simp_all add: getMessageContent_def getCurrentVersion_def)

lemma getMessageContent_cong: "versions m = versions n \<Longrightarrow> getMessageContent m = getMessageContent n"
  by (simp add: getMessageContent_def getCurrentVersion_def)

lemma r_content_startReasoningTiming [simp]:
  "r_content (startReasoningTiming m t) = (case reasoning m of None \<Rightarrow> [] | Some r \<Rightarrow> r_content r)"
  by (simp add: startReasoningTiming_def split: option.splits)

subsection \<open>The think-tag parser\<close>

text \<open>The tag strings cannot overlap themselves: their first character occurs only once.\<close>

lemma not_prefix_append_overlap:
  assumes "\<not> sublist p v" "p \<noteq> []" "hd p \<notin> set (tl p)" "j < length v"
  shows "\<not> prefix p (drop j v @ p @ r)"
proof
  assume pre: "prefix p (drop j v @ p @ r)"
  let ?d = "drop j v"
  have d: "?d \<noteq> []" using assms(4) by simp
  show False
  proof (cases "length p \<le> length ?d")
    case True
    have "prefix p ?d" using pre True by (metis prefix_length_prefix prefixI)
    then have "sublist p v"
      by (metis append_take_drop_id prefix_imp_sublist sublist_appendI sublist_order.order_trans suffix_drop suffix_imp_sublist)
    with assms(1) show False by simp
  next
    case False
    then have l: "length ?d < length p" by simp
    have "p ! length ?d = (?d @ p @ r) ! length ?d"
      using pre l by (metis nth_append prefix_def)
    also have "\<dots> = hd p" using assms(2) by (simp add: nth_append hd_conv_nth)
    finally have "p ! length ?d = hd p" .
    moreover have "p ! length ?d = tl p ! (length ?d - 1)"
      using l d by (cases p) (auto simp: nth_Cons')
    moreover have "length ?d - 1 < length (tl p)" using l d by (cases ?d) auto
    ultimately show False using assms(3) by (metis nth_mem)
  qed
qed

lemma find_sub_first:
  assumes "\<not> sublist p v" "p \<noteq> []" "hd p \<notin> set (tl p)"
  shows "find_sub p (v @ p @ r) = Some (length v)"
proof (rule find_sub_eqI)
  show "prefix p (drop (length v) (v @ p @ r))" by simp
  show "length v \<le> length (v @ p @ r)" by simp
  fix j assume "j < length v"
  with not_prefix_append_overlap [OF assms this] show "\<not> prefix p (drop j (v @ p @ r))"
    by simp
qed

lemma tag_facts [simp]:
  "hd open_tag \<notin> set (tl open_tag)" "hd close_tag \<notin> set (tl close_tag)"
  by (simp_all add: js_eval)

text \<open>
  A document as blocks: visible text before each closed reasoning block. Rendering it and
  parsing it back gives the parts.
\<close>

fun render_blocks :: "(jsstr \<times> jsstr) list \<Rightarrow> jsstr" where
  "render_blocks [] = []"
| "render_blocks ((v, r) # bs) = v @ open_tag @ r @ close_tag @ render_blocks bs"

definition plain_block :: "jsstr \<times> jsstr \<Rightarrow> bool" where
  "plain_block b \<longleftrightarrow> \<not> includesStr (fst b) open_tag \<and> \<not> includesStr (snd b) close_tag"

definition vis_part :: "jsstr \<Rightarrow> jsstr list" where
  "vis_part v = (if v = [] then [] else [v])"

lemma think_loop_block:
  assumes "plain_block (v, r)"
  shows "think_loop (pre @ v @ open_tag @ r @ close_tag @ rest) (length pre) vis reas =
    think_loop (pre @ v @ open_tag @ r @ close_tag @ rest) (length (pre @ v @ open_tag @ r @ close_tag))
      (vis @ vis_part v) (reas @ [r])"
proof -
  let ?c = "pre @ v @ open_tag @ r @ close_tag @ rest"
  have nv: "\<not> sublist open_tag v" and nr: "\<not> sublist close_tag r"
    using assms by (simp_all add: plain_block_def includesStr_iff_sublist)
  have o: "indexOf ?c open_tag (length pre) = Some (length pre + length v)"
    using find_sub_first [OF nv _ tag_facts(1)] by (simp add: indexOf_def)
  have "drop (length pre + length v + 7) ?c = r @ close_tag @ rest" by simp
  then have c: "indexOf ?c close_tag (length pre + length v + 7) =
      Some (length pre + length v + 7 + length r)"
    using find_sub_first [OF nr _ tag_facts(2), of rest] by (simp add: indexOf_def)
  have s1: "slice ?c (length pre) (length pre + length v) = v" by (simp add: slice_def)
  have s2: "slice ?c (length pre + length v + 7) (length pre + length v + 7 + length r) = r"
    by (simp add: slice_def)
  have e: "length pre + length v + 7 + length r + 8 = length (pre @ v @ open_tag @ r @ close_tag)" by simp
  show ?thesis
    by (subst think_loop.simps) (simp only: o c option.case Let_def s1 s2 e, cases v, simp_all add: vis_part_def)
qed

lemma think_loop_render:
  assumes "list_all plain_block bs" "\<not> includesStr tail open_tag"
  shows "think_loop (pre @ render_blocks bs @ tail) (length pre) vis reas =
    (vis @ concat (map (\<lambda>b. vis_part (fst b)) bs) @ vis_part tail, reas @ map snd bs, False)"
  using assms(1)
proof (induction bs arbitrary: pre vis reas)
  case Nil
  have "indexOf (pre @ tail) open_tag (length pre) = None"
    using assms(2) by (simp add: indexOf_def includesStr_def)
  then show ?case by (subst think_loop.simps) (simp add: vis_part_def)
next
  case (Cons b bs)
  obtain v r where b: "b = (v, r)" by force
  let ?pre = "pre @ v @ open_tag @ r @ close_tag"
  have "think_loop (?pre @ render_blocks bs @ tail) (length ?pre) (vis @ vis_part v) (reas @ [r]) =
    ((vis @ vis_part v) @ concat (map (\<lambda>b. vis_part (fst b)) bs) @ vis_part tail, (reas @ [r]) @ map snd bs, False)"
    using Cons.prems by (intro Cons.IH) simp
  moreover have "plain_block (v, r)" using Cons.prems b by simp
  note think_loop_block [OF this, of pre "render_blocks bs @ tail" vis reas]
  ultimately show ?case using b by simp
qed

lemma join_vis_parts: "join [] (concat (map (\<lambda>b. vis_part (fst b)) bs) @ vis_part tail) = concat (map fst bs) @ tail"
  by (induction bs) (auto simp: join_Nil_concat vis_part_def)

lemma includes_render: "bs \<noteq> [] \<Longrightarrow> includesStr (render_blocks bs @ tail) open_tag"
proof -
  assume "bs \<noteq> []"
  then obtain v r bs' where "bs = (v, r) # bs'" by (cases bs) auto
  then have "render_blocks bs @ tail = v @ open_tag @ (r @ close_tag @ render_blocks bs' @ tail)" by simp
  then show ?thesis by (metis includesStr_iff_sublist sublist_appendI)
qed

end
