(* ===== verification/Streaming.thy ===== *)
theory Streaming
  imports Messages
begin

text \<open>
  How a reply is built up: chunks of a stream, finalisation, the non-streaming response, errors
  and the repair of interrupted replies (\<open>lib/message/message-streaming-utils.ts\<close>,
  \<open>message-update-utils.ts\<close>). Each operation takes the clock values it reads, in evaluation order.

  The locale \<open>message_update\<close> is the contract of the functions handed to
  \<open>updateLastAssistantMessage\<close>: they keep the identity and the role of a message.
  \<open>wf_update\<close> adds that they keep the message invariant \<open>msg_wf\<close>, \<open>settling_update\<close> that they leave
  a final message. Every updater of the source is an interpretation.
\<close>

section \<open>Streaming\<close>

datatype StreamChunkType = ReasoningChunk | ContentChunk

text \<open>\<open>a || b\<close> on strings.\<close>

definition or_str :: "jsstr \<Rightarrow> jsstr \<Rightarrow> jsstr" where
  "or_str a b = (if a \<noteq> [] then a else b)"

definition processStreamingContent :: "rat \<Rightarrow> Message \<Rightarrow> jsstr option \<Rightarrow> Message" where
  "processStreamingContent t1 m contentChunk =
     (let currentVersion = getCurrentVersion m;
          fullContent = (case contentChunk of
              Some chunk \<Rightarrow> (if chunk \<noteq> [] then version_content currentVersion @ chunk
                             else version_content currentVersion)
            | None \<Rightarrow> version_content currentVersion)
      in if reasoning m = None \<and> \<not> includesStr fullContent open_tag
         then (updateCurrentVersionContent m fullContent)\<lparr>isReasoningStreaming := Some False\<rparr>
         else let parsed = parseThinkTags fullContent;
                  finalReasoning =
                    (if think_reasoning parsed \<noteq> []
                     then Some ((startReasoningTiming m t1)\<lparr>r_content := think_reasoning parsed\<rparr>)
                     else reasoning m)
              in (updateCurrentVersionContent m fullContent)
                   \<lparr>reasoning := finalReasoning, isReasoningStreaming := Some (hasUnclosedTag parsed)\<rparr>)"

definition getAppendableChunk :: "jsstr \<Rightarrow> jsstr \<Rightarrow> jsstr" where
  "getAppendableChunk currentContent chunk =
     (if currentContent = [] \<or> \<not> startsWith chunk currentContent then chunk
      else drop (length currentContent) chunk)"

definition applyStreamingChunk :: "rat \<Rightarrow> rat \<Rightarrow> Message \<Rightarrow> StreamChunkType \<Rightarrow> jsstr \<Rightarrow> Message" where
  "applyStreamingChunk t1 t2 m type chunk =
     (if status m = Some Error then m
      else case type of
        ReasoningChunk \<Rightarrow>
          (let r = startReasoningTiming m t1;
               appendableChunk = getAppendableChunk (r_content r) chunk
           in m\<lparr>reasoning := Some (r\<lparr>r_content := r_content r @ appendableChunk\<rparr>),
                isReasoningStreaming := Some True, status := Some Streaming\<rparr>)
      | ContentChunk \<Rightarrow>
          (let appendableChunk = getAppendableChunk (version_content (getCurrentVersion m)) chunk;
               contentMessage = processStreamingContent t1 m (Some appendableChunk)
           in (if flag (isReasoningStreaming contentMessage) then contentMessage
               else completeReasoningTiming contentMessage t2)\<lparr>status := Some Streaming\<rparr>))"

definition finalizeMessage :: "rat \<Rightarrow> rat \<Rightarrow> Message \<Rightarrow> jsstr option \<Rightarrow> Message" where
  "finalizeMessage t1 t2 m apiReasoningContent =
     (let content = version_content (getCurrentVersion m);
          parsedThinkTags = (if includesStr content open_tag then Some (parseThinkTags content) else None);
          visible = (case parsedThinkTags of Some p \<Rightarrow> visibleContent p | None \<Rightarrow> content);
          finalReasoning =
            or_str (case apiReasoningContent of Some s \<Rightarrow> s | None \<Rightarrow> [])
             (or_str (case reasoning m of Some r \<Rightarrow> r_content r | None \<Rightarrow> [])
               (case parsedThinkTags of Some p \<Rightarrow> think_reasoning p | None \<Rightarrow> []));
          finalized =
            (updateCurrentVersionContent m visible)
              \<lparr>reasoning := (if finalReasoning \<noteq> []
                             then Some ((startReasoningTiming m t1)\<lparr>r_content := finalReasoning\<rparr>)
                             else None),
               isReasoningStreaming := Some False\<rparr>
      in completeReasoningTiming finalized t2)"

definition completeAssistantMessage :: "rat \<Rightarrow> rat \<Rightarrow> rat \<Rightarrow> Message \<Rightarrow> Message" where
  "completeAssistantMessage t1 t2 t3 m =
     completeAssistantTiming ((finalizeMessage t1 t2 m None)\<lparr>status := Some Complete\<rparr>) t3"

definition isAssistantMessageFinal :: "Message \<Rightarrow> bool" where
  "isAssistantMessageFinal m \<longleftrightarrow> status m = Some Complete \<or> status m = Some Error"

definition isAssistantMessagePending :: "Message \<Rightarrow> bool" where
  "isAssistantMessagePending m \<longleftrightarrow> status m = Some Loading \<or> status m = Some Streaming"

definition isPendingAssistantMessage :: "Message option \<Rightarrow> bool" where
  "isPendingAssistantMessage m =
     (case m of None \<Rightarrow> False | Some x \<Rightarrow> msg_from x = Assistant \<and> isAssistantMessagePending x)"

section \<open>The non-streaming response\<close>

record ChoiceMessage =
  cm_content :: "jsstr option"
  cm_reasoning_content :: "jsstr option"

record ChatCompletionChoice =
  choice_message :: "ChoiceMessage option"

record ChatCompletionResponse =
  choices :: "ChatCompletionChoice list option"

text \<open>\<open>response.choices?.[0]\<close>\<close>

definition first_choice :: "ChatCompletionResponse \<Rightarrow> ChatCompletionChoice option" where
  "first_choice response =
     (case choices response of Some (c # _) \<Rightarrow> Some c | _ \<Rightarrow> None)"

definition hasChatCompletionChoice :: "ChatCompletionResponse \<Rightarrow> bool" where
  "hasChatCompletionChoice response \<longleftrightarrow> first_choice response \<noteq> None"

definition applyChatCompletionChoice :: "rat \<Rightarrow> rat \<Rightarrow> rat \<Rightarrow> Message \<Rightarrow> ChatCompletionChoice \<Rightarrow> Message" where
  "applyChatCompletionChoice t1 t2 t3 m choice =
     completeAssistantTiming
       ((finalizeMessage t1 t2
           (updateCurrentVersionContent m
              (case Option.bind (choice_message choice) cm_content of Some s \<Rightarrow> s | None \<Rightarrow> []))
           (Option.bind (choice_message choice) cm_reasoning_content))\<lparr>status := Some Complete\<rparr>) t3"

definition applyChatCompletionResponse ::
    "rat \<Rightarrow> rat \<Rightarrow> rat \<Rightarrow> Message \<Rightarrow> ChatCompletionResponse \<Rightarrow> Message option" where
  "applyChatCompletionResponse t1 t2 t3 m response =
     (case first_choice response of
        None \<Rightarrow> None
      | Some choice \<Rightarrow> Some (applyChatCompletionChoice t1 t2 t3 m choice))"

section \<open>Updating the last reply\<close>

abbreviation API_REQUEST_ERROR :: jsstr where "API_REQUEST_ERROR \<equiv> js ''Request error occurred''"
abbreviation INTERRUPTED :: jsstr where "INTERRUPTED \<equiv> js ''Generation was interrupted''"

definition updateLastAssistantMessage :: "Message list \<Rightarrow> (Message \<Rightarrow> Message) \<Rightarrow> Message list" where
  "updateLastAssistantMessage messages updater =
     (if messages = [] then messages
      else if msg_from (last messages) \<noteq> Assistant then messages
      else messages[length messages - 1 := updater (last messages)])"

text \<open>The updater that turns a reply into an error; \<open>errorCode || null\<close> drops the empty code.\<close>

definition error_updater :: "rat \<Rightarrow> jsstr \<Rightarrow> jsstr option \<Rightarrow> jsstr \<Rightarrow> Message \<Rightarrow> Message" where
  "error_updater t1 errorMessage code title m =
     completeAssistantTiming
       ((updateCurrentVersionContent m (title @ js '': '' @ errorMessage))
          \<lparr>status := Some Error, isReasoningStreaming := Some False,
           errorCode := Some (case code of Some c \<Rightarrow> (if c \<noteq> [] then Some c else None) | None \<Rightarrow> None)\<rparr>) t1"

definition updateAssistantMessageWithError ::
    "rat \<Rightarrow> Message list \<Rightarrow> jsstr \<Rightarrow> jsstr option \<Rightarrow> jsstr \<Rightarrow> Message list" where
  "updateAssistantMessageWithError t1 messages errorMessage code title =
     updateLastAssistantMessage messages (error_updater t1 errorMessage code title)"

section \<open>Repair after loading\<close>

text \<open>The index of the last pending reply, by the descending loop of the source.\<close>

fun last_pending_from :: "Message list \<Rightarrow> nat \<Rightarrow> nat option" where
  "last_pending_from messages 0 = None"
| "last_pending_from messages (Suc i) =
     (if isPendingAssistantMessage (Some (messages ! i)) then Some i
      else last_pending_from messages i)"

definition sanitize_message :: "(jsstr \<Rightarrow> jsstr) \<Rightarrow> rat \<Rightarrow> rat \<Rightarrow> rat \<Rightarrow> Message \<Rightarrow> Message" where
  "sanitize_message tr t1 t2 t3 m =
     (let finalized = finalizeMessage t1 t2 m None;
          hasContent = hasMessageContent finalized;
          hasReasoning = (case reasoning finalized of Some r \<Rightarrow> trim (r_content r) \<noteq> [] | None \<Rightarrow> False)
      in if hasContent \<or> hasReasoning
         then completeAssistantTiming
                (finalized\<lparr>status := Some Complete, isReasoningStreaming := Some False\<rparr>) t3
         else completeAssistantTiming
                ((updateCurrentVersionContent finalized (tr API_REQUEST_ERROR @ js '': '' @ tr INTERRUPTED))
                   \<lparr>status := Some Error, isReasoningStreaming := Some False\<rparr>) t3)"

definition sanitizeMessagesOnLoad ::
    "(jsstr \<Rightarrow> jsstr) \<Rightarrow> rat \<Rightarrow> rat \<Rightarrow> rat \<Rightarrow> Message list \<Rightarrow> Message list" where
  "sanitizeMessagesOnLoad tr t1 t2 t3 messages =
     (case last_pending_from messages (length messages) of
        None \<Rightarrow> messages
      | Some targetIndex \<Rightarrow>
          messages[targetIndex := sanitize_message tr t1 t2 t3 (messages ! targetIndex)])"

section \<open>The message invariant\<close>

text \<open>
  Measured durations are not negative, a measured reasoning phase has its end points and its
  duration in whole seconds, a final reply is timed, the reasoning flag is only up while the
  reply streams, and there is a current version.
\<close>

definition reasoning_wf :: "Reasoning \<Rightarrow> bool" where
  "reasoning_wf r \<longleftrightarrow>
     (case r_durationMs r of
        None \<Rightarrow> True
      | Some d \<Rightarrow> 0 \<le> d \<and> r_startedAt r \<noteq> None \<and> r_completedAt r \<noteq> None
                 \<and> r_duration r = of_int \<lceil>d / 1000\<rceil>)"

definition msg_wf :: "Message \<Rightarrow> bool" where
  "msg_wf m \<longleftrightarrow>
     versions m \<noteq> [] \<and>
     (case durationMs m of None \<Rightarrow> True | Some d \<Rightarrow> 0 \<le> d) \<and>
     (case reasoning m of None \<Rightarrow> True | Some r \<Rightarrow> reasoning_wf r) \<and>
     (msg_from m = Assistant \<and> isAssistantMessageFinal m \<longrightarrow> completedAt m \<noteq> None \<and> durationMs m \<noteq> None) \<and>
     (flag (isReasoningStreaming m) \<longrightarrow> status m = Some Streaming)"

section \<open>Contracts of updaters\<close>

locale message_update =
  fixes upd :: "Message \<Rightarrow> Message"
  assumes upd_key: "msg_key (upd m) = msg_key m"
    and upd_from: "msg_from (upd m) = msg_from m"
begin

lemma update_length: "length (updateLastAssistantMessage ms upd) = length ms"
  by (simp add: updateLastAssistantMessage_def)

lemma update_nth:
  "i < length ms \<Longrightarrow> updateLastAssistantMessage ms upd ! i =
     (if Suc i = length ms \<and> msg_from (ms ! i) = Assistant then upd (ms ! i) else ms ! i)"
  by (auto simp: updateLastAssistantMessage_def nth_list_update last_conv_nth)

lemma update_map:
  assumes "\<And>m. f (upd m) = f m"
  shows "map f (updateLastAssistantMessage ms upd) = map f ms"
  by (rule nth_equalityI) (auto simp: update_length update_nth assms)

lemma update_keys: "map msg_key (updateLastAssistantMessage ms upd) = map msg_key ms"
  by (rule update_map) (rule upd_key)

lemma update_roles: "map msg_from (updateLastAssistantMessage ms upd) = map msg_from ms"
  by (rule update_map) (rule upd_from)

lemma update_butlast: "butlast (updateLastAssistantMessage ms upd) = butlast ms"
  by (rule nth_equalityI) (auto simp: update_length update_nth nth_butlast)

end

locale wf_update = message_update +
  assumes upd_wf: "msg_wf m \<Longrightarrow> msg_wf (upd m)"
begin

lemma update_wf: "list_all msg_wf ms \<Longrightarrow> list_all msg_wf (updateLastAssistantMessage ms upd)"
  by (auto simp: list_all_length update_length update_nth upd_wf)

end

locale settling_update = wf_update +
  assumes upd_final: "isAssistantMessageFinal (upd m)"
begin

lemma update_settles:
  "ms \<noteq> [] \<Longrightarrow> msg_from (last ms) = Assistant \<Longrightarrow>
     isAssistantMessageFinal (last (updateLastAssistantMessage ms upd))"
  by (simp add: updateLastAssistantMessage_def last_list_update upd_final)

end

section \<open>Frames of the operations\<close>

lemma processStreamingContent_fields [simp]:
  "msg_key (processStreamingContent t m c) = msg_key m"
  "msg_from (processStreamingContent t m c) = msg_from m"
  "status (processStreamingContent t m c) = status m"
  "durationMs (processStreamingContent t m c) = durationMs m"
  "completedAt (processStreamingContent t m c) = completedAt m"
  "versions (processStreamingContent t m c) \<noteq> []"
  by (simp_all add: processStreamingContent_def Let_def updateCurrentVersionContent_def)

lemma getMessageContent_simps [simp]:
  "getMessageContent (m\<lparr>status := a\<rparr>) = getMessageContent m"
  "getMessageContent (m\<lparr>isReasoningStreaming := b\<rparr>) = getMessageContent m"
  "getMessageContent (m\<lparr>reasoning := c\<rparr>) = getMessageContent m"
  "getMessageContent (m\<lparr>errorCode := d\<rparr>) = getMessageContent m"
  by (simp_all add: getMessageContent_def getCurrentVersion_def)

lemma getMessageContent_process [simp]:
  "getMessageContent (processStreamingContent t m (Some c)) = getMessageContent m @ c"
  by (auto simp: processStreamingContent_def Let_def) (auto simp: getMessageContent_def)

lemma finalizeMessage_fields [simp]:
  "msg_key (finalizeMessage t1 t2 m a) = msg_key m"
  "msg_from (finalizeMessage t1 t2 m a) = msg_from m"
  "status (finalizeMessage t1 t2 m a) = status m"
  "startedAt (finalizeMessage t1 t2 m a) = startedAt m"
  "createdAt (finalizeMessage t1 t2 m a) = createdAt m"
  "isReasoningStreaming (finalizeMessage t1 t2 m a) = Some False"
  "versions (finalizeMessage t1 t2 m a) \<noteq> []"
  by (simp_all add: finalizeMessage_def Let_def)

lemma durationMs_frames [simp]:
  "durationMs (completeReasoningTiming m t) = durationMs m"
  "completedAt (completeReasoningTiming m t) = completedAt m"
  "durationMs (updateCurrentVersionContent m s) = durationMs m"
  "completedAt (updateCurrentVersionContent m s) = completedAt m"
  by (simp_all add: completeReasoningTiming_def updateCurrentVersionContent_def Let_def split: option.splits)

lemma finalizeMessage_duration [simp]:
  "durationMs (finalizeMessage t1 t2 m a) = durationMs m"
  "completedAt (finalizeMessage t1 t2 m a) = completedAt m"
  by (simp_all add: finalizeMessage_def Let_def)

text \<open>What finalisation leaves as content and as reasoning.\<close>

definition final_content :: "jsstr \<Rightarrow> jsstr" where
  "final_content c = (if includesStr c open_tag then visibleContent (parseThinkTags c) else c)"

definition final_reasoning :: "jsstr \<Rightarrow> jsstr \<Rightarrow> jsstr \<Rightarrow> jsstr" where
  "final_reasoning api old c =
     or_str api (or_str old (if includesStr c open_tag then think_reasoning (parseThinkTags c) else []))"

abbreviation reasoning_text :: "Message \<Rightarrow> jsstr" where
  "reasoning_text m \<equiv> (case reasoning m of Some r \<Rightarrow> r_content r | None \<Rightarrow> [])"

lemma getMessageContent_finalize [simp]:
  "getMessageContent (finalizeMessage t1 t2 m a) = final_content (getMessageContent m)"
  by (simp add: finalizeMessage_def Let_def final_content_def) (simp add: getMessageContent_def)

lemma reasoning_text_complete [simp]:
  "reasoning_text (completeReasoningTiming m t) = reasoning_text m"
  by (simp add: completeReasoningTiming_def Let_def split: option.splits)

lemma reasoning_text_finalize [simp]:
  "reasoning_text (finalizeMessage t1 t2 m a) =
     final_reasoning (case a of Some s \<Rightarrow> s | None \<Rightarrow> []) (reasoning_text m) (getMessageContent m)"
  by (auto simp: finalizeMessage_def Let_def final_reasoning_def or_str_def getMessageContent_def
      split: option.splits if_splits)

section \<open>The invariant is kept\<close>

lemma reasoning_wf_content [simp]: "reasoning_wf (r\<lparr>r_content := c\<rparr>) = reasoning_wf r"
  by (simp add: reasoning_wf_def split: option.splits)

lemma startReasoningTiming_wf:
  "(\<forall>r. reasoning m = Some r \<longrightarrow> reasoning_wf r) \<Longrightarrow> reasoning_wf (startReasoningTiming m t)"
  by (auto simp: startReasoningTiming_def reasoning_wf_def orelse_def split: option.splits)

lemma completeReasoningTiming_wf:
  "(\<forall>r. reasoning m = Some r \<longrightarrow> reasoning_wf r) \<Longrightarrow> reasoning (completeReasoningTiming m t) = Some r \<Longrightarrow> reasoning_wf r"
  by (auto simp: completeReasoningTiming_def reasoning_wf_def Let_def split: option.splits if_splits)

lemma msg_wf_reasoningD: "msg_wf m \<Longrightarrow> reasoning m = Some r \<Longrightarrow> reasoning_wf r"
  by (simp add: msg_wf_def)

lemma processStreamingContent_reasoning_wf:
  "msg_wf m \<Longrightarrow> reasoning (processStreamingContent t m c) = Some r \<Longrightarrow> reasoning_wf r"
  using startReasoningTiming_wf [of m t] msg_wf_reasoningD [of m]
  by (auto simp: processStreamingContent_def Let_def split: if_splits)

lemma finalizeMessage_reasoning_wf:
  assumes "msg_wf m" "reasoning (finalizeMessage t1 t2 m a) = Some r"
  shows "reasoning_wf r" "r_durationMs r \<noteq> None"
proof -
  let ?n = "\<lambda>v x. (updateCurrentVersionContent m v)\<lparr>reasoning := (if x \<noteq> [] then Some ((startReasoningTiming m t1)\<lparr>r_content := x\<rparr>) else None), isReasoningStreaming := Some False\<rparr>"
  have "reasoning (completeReasoningTiming (?n v x) t2) = Some r \<Longrightarrow> reasoning_wf r \<and> r_durationMs r \<noteq> None" for v x
  proof
    assume r: "reasoning (completeReasoningTiming (?n v x) t2) = Some r"
    show "reasoning_wf r"
      using startReasoningTiming_wf [of m t1] msg_wf_reasoningD [OF assms(1)]
      by (intro completeReasoningTiming_wf [OF _ r]) auto
    show "r_durationMs r \<noteq> None"
      using r by (auto simp: completeReasoningTiming_def Let_def split: option.splits if_splits)
  qed
  then show "reasoning_wf r" "r_durationMs r \<noteq> None"
    using assms(2) unfolding finalizeMessage_def Let_def by blast+
qed

lemma msg_wf_applyStreamingChunk: "msg_wf m \<Longrightarrow> msg_wf (applyStreamingChunk t1 t2 m ty c)"
proof -
  assume wf: "msg_wf m"
  show ?thesis
  proof (cases ty)
    case ReasoningChunk
    then show ?thesis
      using wf startReasoningTiming_wf [of m t1] msg_wf_reasoningD [OF wf]
      by (auto simp: applyStreamingChunk_def msg_wf_def Let_def isAssistantMessageFinal_def)
  next
    case ContentChunk
    let ?p = "processStreamingContent t1 m (Some (getAppendableChunk (version_content (getCurrentVersion m)) c))"
    have "reasoning ?p = Some r \<Longrightarrow> reasoning_wf r" for r
      using wf by (rule processStreamingContent_reasoning_wf)
    moreover have "reasoning (completeReasoningTiming ?p t2) = Some r \<Longrightarrow> reasoning_wf r" for r
      using calculation by (auto intro: completeReasoningTiming_wf)
    ultimately show ?thesis
      using ContentChunk wf
      by (auto simp: applyStreamingChunk_def msg_wf_def Let_def isAssistantMessageFinal_def split: option.splits)
  qed
qed

lemma msg_wf_timed_final:
  assumes "versions m \<noteq> []" "\<And>r. reasoning m = Some r \<Longrightarrow> reasoning_wf r"
    "\<not> flag (isReasoningStreaming m)" "\<And>d. durationMs m = Some d \<Longrightarrow> 0 \<le> d"
  shows "msg_wf (completeAssistantTiming m t)"
  using assms
  by (auto simp: msg_wf_def completeAssistantTiming_def Let_def split: option.splits)

lemma msg_wf_durationD: "msg_wf m \<Longrightarrow> durationMs m = Some d \<Longrightarrow> 0 \<le> d"
  by (simp add: msg_wf_def)

lemma msg_wf_update_content: "msg_wf m \<Longrightarrow> msg_wf (updateCurrentVersionContent m c)"
  by (auto simp: msg_wf_def isAssistantMessageFinal_def)

lemma msg_wf_completeAssistantMessage: "msg_wf m \<Longrightarrow> msg_wf (completeAssistantMessage t1 t2 t3 m)"
  unfolding completeAssistantMessage_def
  by (rule msg_wf_timed_final) (auto dest: finalizeMessage_reasoning_wf(1) msg_wf_durationD)

lemma msg_wf_applyChatCompletionChoice: "msg_wf m \<Longrightarrow> msg_wf (applyChatCompletionChoice t1 t2 t3 m c)"
  unfolding applyChatCompletionChoice_def
  by (rule msg_wf_timed_final)
    (auto dest: finalizeMessage_reasoning_wf(1) [OF msg_wf_update_content] msg_wf_durationD)

lemma msg_wf_error_updater: "msg_wf m \<Longrightarrow> msg_wf (error_updater t e c ti m)"
  unfolding error_updater_def
  by (rule msg_wf_timed_final) (auto dest: msg_wf_reasoningD msg_wf_durationD)

lemma msg_wf_sanitize_message: "msg_wf m \<Longrightarrow> msg_wf (sanitize_message tr t1 t2 t3 m)"
  unfolding sanitize_message_def Let_def
  by (split if_split, intro conjI impI; rule msg_wf_timed_final)
    (auto dest: finalizeMessage_reasoning_wf(1) msg_wf_durationD)

section \<open>The updaters of the source meet their contracts\<close>

lemma applyStreamingChunk_ids [simp]:
  "msg_key (applyStreamingChunk t1 t2 m ty c) = msg_key m"
  "msg_from (applyStreamingChunk t1 t2 m ty c) = msg_from m"
  by (auto simp: applyStreamingChunk_def Let_def split: StreamChunkType.splits)

interpretation chunk: wf_update "\<lambda>m. applyStreamingChunk t1 t2 m ty c" for t1 t2 ty c
  by unfold_locales (simp_all add: msg_wf_applyStreamingChunk)

interpretation complete: settling_update "completeAssistantMessage t1 t2 t3" for t1 t2 t3
  by unfold_locales
    (simp_all add: msg_wf_completeAssistantMessage, simp_all add: completeAssistantMessage_def isAssistantMessageFinal_def)

interpretation choice: settling_update "\<lambda>m. applyChatCompletionChoice t1 t2 t3 m c" for t1 t2 t3 c
  by unfold_locales
    (simp_all add: msg_wf_applyChatCompletionChoice, simp_all add: applyChatCompletionChoice_def isAssistantMessageFinal_def)

interpretation failure: settling_update "error_updater t e c ti" for t e c ti
  by unfold_locales
    (simp_all add: msg_wf_error_updater, simp_all add: error_updater_def isAssistantMessageFinal_def)

section \<open>What a stream of chunks leaves\<close>

text \<open>One content chunk, and a stream of them, on the text alone.\<close>

definition append_chunk :: "jsstr \<Rightarrow> jsstr \<Rightarrow> jsstr" where
  "append_chunk acc chunk = acc @ getAppendableChunk acc chunk"

fun stream_content :: "rat \<Rightarrow> rat \<Rightarrow> Message \<Rightarrow> jsstr list \<Rightarrow> Message" where
  "stream_content t1 t2 m [] = m"
| "stream_content t1 t2 m (c # cs) = stream_content t1 t2 (applyStreamingChunk t1 t2 m ContentChunk c) cs"

lemma applyStreamingChunk_content:
  "status m \<noteq> Some Error \<Longrightarrow>
     getMessageContent (applyStreamingChunk t1 t2 m ContentChunk c) = append_chunk (getMessageContent m) c"
  by (simp add: applyStreamingChunk_def Let_def append_chunk_def) (simp add: getMessageContent_def)

lemma applyStreamingChunk_status:
  "status m \<noteq> Some Error \<Longrightarrow> status (applyStreamingChunk t1 t2 m ty c) = Some Streaming"
  by (auto simp: applyStreamingChunk_def Let_def split: StreamChunkType.splits)

lemma applyStreamingChunk_reasoning:
  "status m \<noteq> Some Error \<Longrightarrow>
     reasoning_text (applyStreamingChunk t1 t2 m ReasoningChunk c) = append_chunk (reasoning_text m) c"
  by (simp add: applyStreamingChunk_def Let_def append_chunk_def)

lemma stream_content_fold:
  "status m \<noteq> Some Error \<Longrightarrow>
     getMessageContent (stream_content t1 t2 m cs) = foldl append_chunk (getMessageContent m) cs"
  by (induction cs arbitrary: m) (simp_all add: applyStreamingChunk_content applyStreamingChunk_status)

text \<open>Deltas none of which starts with all the text before it, and growing snapshots.\<close>

fun fresh_deltas :: "jsstr \<Rightarrow> jsstr list \<Rightarrow> bool" where
  "fresh_deltas acc [] = True"
| "fresh_deltas acc (c # cs) = ((acc = [] \<or> \<not> startsWith c acc) \<and> fresh_deltas (acc @ c) cs)"

fun snapshots :: "jsstr \<Rightarrow> jsstr list \<Rightarrow> bool" where
  "snapshots acc [] = True"
| "snapshots acc (c # cs) = (startsWith c acc \<and> snapshots c cs)"

lemma append_chunk_fresh: "acc = [] \<or> \<not> startsWith c acc \<Longrightarrow> append_chunk acc c = acc @ c"
  by (auto simp: append_chunk_def getAppendableChunk_def)

lemma append_chunk_snapshot: "startsWith c acc \<Longrightarrow> append_chunk acc c = c"
  by (auto simp: append_chunk_def getAppendableChunk_def startsWith_def prefix_def)

lemma fold_fresh: "fresh_deltas acc cs \<Longrightarrow> foldl append_chunk acc cs = acc @ concat cs"
  by (induction cs arbitrary: acc) (simp_all add: append_chunk_fresh)

lemma fold_snapshots: "snapshots acc cs \<Longrightarrow> foldl append_chunk acc cs = last (acc # cs)"
  by (induction cs arbitrary: acc) (simp_all add: append_chunk_snapshot)

text \<open>
  A stream of deltas, none of which starts with the whole text received before it, leaves
  the concatenation of all deltas in a reply that has not failed.
\<close>

theorem stream_of_deltas_concatenates:
  assumes "status m \<noteq> Some Error" "fresh_deltas (getMessageContent m) cs"
  shows "getMessageContent (stream_content t1 t2 m cs) = getMessageContent m @ concat cs"
  using assms by (simp add: stream_content_fold fold_fresh)

theorem stream_of_deltas_concatenates_witness:
  "getMessageContent
     (stream_content 0 0 (createLoadingAssistantMessage (js ''k'') (js ''v'') 0) [js ''ab'', js ''cd'', js ''ab''])
   = js ''abcdab''"
proof -
  let ?m = "createLoadingAssistantMessage (js ''k'') (js ''v'') 0"
  have c: "getMessageContent ?m = []"
    by (simp add: createLoadingAssistantMessage_def msg_defs)
  have "status ?m \<noteq> Some Error" by (simp add: createLoadingAssistantMessage_def)
  moreover have "fresh_deltas (getMessageContent ?m) [js ''ab'', js ''cd'', js ''ab'']"
    unfolding c by (simp add: startsWith_def js_eval)
  ultimately show ?thesis
    by (subst stream_of_deltas_concatenates) (simp_all add: c, simp add: js_eval)
qed

text \<open>
  C35: a stream of cumulative snapshots, each of which starts with the one before it, leaves the
  last snapshot.
\<close>

theorem stream_of_snapshots_keeps_last:
  assumes "status m \<noteq> Some Error" "snapshots (getMessageContent m) cs"
  shows "getMessageContent (stream_content t1 t2 m cs) = last (getMessageContent m # cs)"
  using assms by (simp add: stream_content_fold fold_snapshots)

theorem stream_of_snapshots_keeps_last_witness:
  "getMessageContent
     (stream_content 0 0 (createLoadingAssistantMessage (js ''k'') (js ''v'') 0) [js ''a'', js ''abc''])
   = js ''abc''"
proof -
  let ?m = "createLoadingAssistantMessage (js ''k'') (js ''v'') 0"
  have c: "getMessageContent ?m = []"
    by (simp add: createLoadingAssistantMessage_def msg_defs)
  have "status ?m \<noteq> Some Error" by (simp add: createLoadingAssistantMessage_def)
  moreover have "snapshots (getMessageContent ?m) [js ''a'', js ''abc'']"
    unfolding c by (simp add: startsWith_def js_eval)
  ultimately show ?thesis
    by (subst stream_of_snapshots_keeps_last) simp_all
qed



section \<open>Completion\<close>

text \<open>
  Completing a reply whose text consists of closed reasoning blocks with visible text around
  them leaves the visible text, moves the blocks into the reasoning, and marks the reply as
  complete, with the reasoning flag down and both durations measured.
\<close>

theorem complete_separates_reasoning:
  assumes "getMessageContent m = render_blocks bs @ tail" "bs \<noteq> []"
    and "list_all plain_block bs" "\<not> includesStr tail open_tag"
    and "reasoning m = None" "msg_from m = Assistant" "trim (join [10, 10] (map snd bs)) \<noteq> []"
  shows "let n = completeAssistantMessage t1 t2 t3 m in
    getMessageContent n = trim (concat (map fst bs) @ tail)
    \<and> map_option r_content (reasoning n) = Some (trim (join [10, 10] (map snd bs)))
    \<and> status n = Some Complete \<and> isReasoningStreaming n = Some False
    \<and> durationMs n \<noteq> None \<and> Option.bind (reasoning n) r_durationMs \<noteq> None"
proof -
  define n where "n = completeAssistantMessage t1 t2 t3 m"
  have p: "parseThinkTags (getMessageContent m) =
      \<lparr>visibleContent = trim (concat (map fst bs) @ tail),
       think_reasoning = trim (join [10, 10] (map snd bs)), hasUnclosedTag = False\<rparr>"
    using think_loop_render [OF assms(3,4), of "[]" "[]" "[]"] includes_render [OF assms(2), of tail]
      join_vis_parts [of bs tail] assms(1)
    by (simp add: parseThinkTags_def)
  have inc: "includesStr (getMessageContent m) open_tag"
    using assms(1) includes_render [OF assms(2)] by simp
  let ?f = "finalizeMessage t1 t2 m None"
  have r: "reasoning_text ?f = trim (join [10, 10] (map snd bs))"
    using inc p assms(5) by (simp add: final_reasoning_def or_str_def)
  obtain x where x: "reasoning ?f = Some x"
  proof (cases "reasoning ?f")
    case None
    with r assms(7) show thesis by (simp only: option.case simp_thms)
  qed simp
  then have d: "r_durationMs x \<noteq> None"
    by (auto simp: finalizeMessage_def completeReasoningTiming_def Let_def split: option.splits if_splits)
  have n: "getMessageContent n = final_content (getMessageContent m)" "reasoning n = reasoning ?f"
    "status n = Some Complete" "isReasoningStreaming n = Some False"
    by (simp_all add: n_def completeAssistantMessage_def)
  have "durationMs n \<noteq> None"
    using assms(6) by (simp add: n_def completeAssistantMessage_def completeAssistantTiming_def Let_def)
  then show ?thesis
    using n r x d inc p by (simp add: final_content_def flip: n_def)
qed

theorem complete_separates_reasoning_witness:
  "let m = updateCurrentVersionContent (createLoadingAssistantMessage (js ''k'') (js ''v'') 0)
             (js ''<think>why</think>hi'');
       n = completeAssistantMessage 1 2 2000 m
   in getMessageContent n = js ''hi'' \<and> map_option r_content (reasoning n) = Some (js ''why'')"
proof -
  let ?m = "updateCurrentVersionContent (createLoadingAssistantMessage (js ''k'') (js ''v'') 0)
             (js ''<think>why</think>hi'')"
  let ?bs = "[([], js ''why'')]"
  have 1: "getMessageContent ?m = render_blocks ?bs @ js ''hi''" by (simp add: js_eval)
  have 2: "?bs \<noteq> []" by simp
  have 3: "list_all plain_block ?bs" by (simp add: plain_block_def includesStr_def js_eval)
  have 4: "\<not> includesStr (js ''hi'') open_tag" by (simp add: includesStr_def js_eval)
  have 5: "reasoning ?m = None" "msg_from ?m = Assistant" by (simp_all add: createLoadingAssistantMessage_def)
  have t: "trim (js ''why'') = js ''why''" "trim (js ''hi'') = js ''hi''"
    by (rule trim_id; simp add: js_eval is_space_def is_line_term_def)+
  then have 6: "trim (join [10, 10] (map snd ?bs)) \<noteq> []" by simp
  from complete_separates_reasoning [OF 1 2 3 4 5 6, of 1 2 2000] t show ?thesis by (simp add: Let_def)
qed

section \<open>Repair\<close>

lemma last_pending_Some:
  "last_pending_from ms n = Some i \<Longrightarrow> i < n \<and> isPendingAssistantMessage (Some (ms ! i))
     \<and> (\<forall>j. i < j \<and> j < n \<longrightarrow> \<not> isPendingAssistantMessage (Some (ms ! j)))"
  by (induction n) (auto split: if_splits simp: less_Suc_eq)

lemma last_pending_None:
  "last_pending_from ms n = None \<longleftrightarrow> (\<forall>j < n. \<not> isPendingAssistantMessage (Some (ms ! j)))"
  by (induction n) (auto simp: less_Suc_eq)

lemma sanitize_message_final: "isAssistantMessageFinal (sanitize_message tr t1 t2 t3 m)"
  by (auto simp: sanitize_message_def Let_def isAssistantMessageFinal_def)

lemma sanitize_message_ids [simp]:
  "msg_key (sanitize_message tr t1 t2 t3 m) = msg_key m"
  "msg_from (sanitize_message tr t1 t2 t3 m) = msg_from m"
  by (simp_all add: sanitize_message_def Let_def)

lemma final_not_pending: "isAssistantMessageFinal m \<Longrightarrow> \<not> isAssistantMessagePending m"
  by (auto simp: isAssistantMessageFinal_def isAssistantMessagePending_def)

interpretation repair: settling_update "sanitize_message tr t1 t2 t3" for tr t1 t2 t3
  by unfold_locales (simp_all add: msg_wf_sanitize_message sanitize_message_final)

text \<open>The replies that are still pending, by position.\<close>

definition pending_positions :: "Message list \<Rightarrow> nat list" where
  "pending_positions ms = filter (\<lambda>i. isPendingAssistantMessage (Some (ms ! i))) [0..<length ms]"

lemma filter_remove_last:
  "filter P [0..<n] = ps @ [i] \<Longrightarrow> filter (\<lambda>j. P j \<and> j \<noteq> i) [0..<n] = ps"
proof -
  assume f: "filter P [0..<n] = ps @ [i]"
  have "filter (\<lambda>j. P j \<and> j \<noteq> i) [0..<n] = filter (\<lambda>j. j \<noteq> i) (filter P [0..<n])"
    by (simp add: conj_commute)
  also have "\<dots> = filter (\<lambda>j. j \<noteq> i) ps" using f by simp
  also have "\<dots> = ps"
    using f by (metis (mono_tags, lifting) distinct_append distinct_filter distinct_upt filter_True
        disjoint_insert(1) list.simps(15) list.set(1))
  finally show ?thesis .
qed

lemma last_pending_positions:
  "last_pending_from ms (length ms) = (if pending_positions ms = [] then None else Some (last (pending_positions ms)))"
proof (cases "last_pending_from ms (length ms)")
  case None
  then show ?thesis by (auto simp: last_pending_None pending_positions_def filter_empty_conv)
next
  case (Some i)
  note i = last_pending_Some [OF Some]
  let ?P = "\<lambda>i. isPendingAssistantMessage (Some (ms ! i))"
  have "[0..<length ms] = [0..<i] @ i # [Suc i..<length ms]"
    using i upt_add_eq_append [of 0 i "length ms - i"] by (simp add: upt_conv_Cons)
  then have "pending_positions ms = filter ?P [0..<i] @ i # filter ?P [Suc i..<length ms]"
    using i by (simp add: pending_positions_def)
  moreover have "filter ?P [Suc i..<length ms] = []"
    using i by (auto simp: filter_empty_conv)
  ultimately show ?thesis using Some by simp
qed

text \<open>
  C37: the repair after loading settles exactly one reply, the last pending one: the positions
  that are still pending afterwards are the earlier ones, every other message is as it was, and
  number, keys and roles of the messages do not change.
\<close>

theorem sanitize_repairs_last_pending:
  "let ns = sanitizeMessagesOnLoad tr t1 t2 t3 ms in
    pending_positions ns = butlast (pending_positions ms)
    \<and> map msg_key ns = map msg_key ms \<and> map msg_from ns = map msg_from ms
    \<and> (\<forall>i. i < length ms \<longrightarrow> pending_positions ms = [] \<or> i \<noteq> last (pending_positions ms) \<longrightarrow> ns ! i = ms ! i)"
proof -
  define ns where "ns = sanitizeMessagesOnLoad tr t1 t2 t3 ms"
  have "pending_positions ns = butlast (pending_positions ms)
    \<and> map msg_key ns = map msg_key ms \<and> map msg_from ns = map msg_from ms
    \<and> (\<forall>i. i < length ms \<longrightarrow> pending_positions ms = [] \<or> i \<noteq> last (pending_positions ms) \<longrightarrow> ns ! i = ms ! i)"
  proof (cases "pending_positions ms = []")
  case True
  then have "ns = ms" by (simp add: ns_def sanitizeMessagesOnLoad_def last_pending_positions)
  with True show ?thesis by simp
next
  case False
  define i where "i = last (pending_positions ms)"
  define ps where "ps = butlast (pending_positions ms)"
  have pp: "pending_positions ms = ps @ [i]" using False by (simp add: i_def ps_def)
  have il: "i < length ms" using pp by (metis (no_types, lifting) filter_is_subset in_set_conv_decomp pending_positions_def set_upt atLeastLessThan_iff subsetD)
  have ns: "ns = ms[i := sanitize_message tr t1 t2 t3 (ms ! i)]"
    using False by (simp add: ns_def sanitizeMessagesOnLoad_def last_pending_positions i_def)
  have np: "\<not> isPendingAssistantMessage (Some (sanitize_message tr t1 t2 t3 (ms ! i)))"
    using sanitize_message_final final_not_pending by (simp add: isPendingAssistantMessage_def)
  have "pending_positions ns = filter (\<lambda>j. isPendingAssistantMessage (Some (ms ! j)) \<and> j \<noteq> i) [0..<length ms]"
    unfolding pending_positions_def using np il by (auto simp: ns nth_list_update intro!: filter_cong)
  also have "\<dots> = ps" using pp by (intro filter_remove_last) (simp add: pending_positions_def)
  finally have "pending_positions ns = ps" .
  moreover have "map msg_key ns = map msg_key ms" "map msg_from ns = map msg_from ms"
    using il by (simp_all add: ns map_update list_update_same_conv)
  ultimately show ?thesis using pp by (simp add: ns ps_def [symmetric])
  qed
  then show ?thesis by (simp add: ns_def)
qed

text \<open>Two interrupted replies without content: the first stays pending after the repair.\<close>

theorem sanitize_repairs_last_pending_witness:
  "let m = createLoadingAssistantMessage (js ''k'') (js ''v'') 0;
       ns = sanitizeMessagesOnLoad id 1 2 3 [m, m]
   in pending_positions [m, m] = [0, 1] \<and> pending_positions ns = [0] \<and> ns ! 0 = m"
proof -
  let ?m = "createLoadingAssistantMessage (js ''k'') (js ''v'') 0"
  have p: "pending_positions [?m, ?m] = [0, 1]"
    by (simp add: pending_positions_def isPendingAssistantMessage_def isAssistantMessagePending_def
        createLoadingAssistantMessage_def upt_rec)
  from sanitize_repairs_last_pending [of id 1 2 3 "[?m, ?m]"] p show ?thesis
    by (simp add: Let_def)
qed

end
