(* ===== verification/Conversation.thy ===== *)
theory Conversation
  imports Streaming
begin

text \<open>
  Operations on the whole conversation (\<open>lib/message/conversation-message-utils.ts\<close>): sending,
  regenerating, editing and deleting messages, with the conversation invariant \<open>conv_wf\<close>: every
  message is well-formed, keys are distinct and only the last reply may be pending. Fresh
  identifiers come from \<open>nanoid\<close>: their freshness is a hypothesis of the statements that need it.
\<close>

section \<open>Operations\<close>

text \<open>\<open>findIndex\<close>, with \<^term>\<open>None\<close> for \<open>-1\<close>.\<close>

fun findIndex :: "('a \<Rightarrow> bool) \<Rightarrow> 'a list \<Rightarrow> nat option" where
  "findIndex P [] = None"
| "findIndex P (x # xs) = (if P x then Some 0 else map_option Suc (findIndex P xs))"

text \<open>Reading a property of \<open>undefined\<close>.\<close>

datatype js_error = TypeError

record ApplyMessageEditResult =
  edit_messages :: "Message list"
  shouldSend :: bool

record ChatMessageRenderState =
  alwaysShowActions :: bool
  render_content :: jsstr
  isEditing :: bool

definition appendUserMessagePair ::
    "Message list \<Rightarrow> jsstr \<Rightarrow> jsstr \<Rightarrow> jsstr \<Rightarrow> jsstr \<Rightarrow> jsstr \<Rightarrow> rat \<Rightarrow> Message list" where
  "appendUserMessagePair messages content n1 n2 n3 n4 now =
     messages @ [createUserMessage n1 n2 content now, createLoadingAssistantMessage n3 n4 now]"

definition createRegeneratedMessages ::
    "Message list \<Rightarrow> jsstr \<Rightarrow> jsstr \<Rightarrow> jsstr \<Rightarrow> rat \<Rightarrow> Message list option" where
  "createRegeneratedMessages messages messageKey n1 n2 now =
     (case findIndex (\<lambda>m. msg_key m = messageKey) messages of
        None \<Rightarrow> None
      | Some messageIndex \<Rightarrow>
          (if msg_from (messages ! messageIndex) = User
           then Some (take (messageIndex + 1) messages @ [createLoadingAssistantMessage n1 n2 now])
           else Some (take messageIndex messages @ [createLoadingAssistantMessage n1 n2 now])))"

definition removeMessageByKey :: "Message list \<Rightarrow> jsstr \<Rightarrow> Message list" where
  "removeMessageByKey messages messageKey = filter (\<lambda>m. msg_key m \<noteq> messageKey) messages"

text \<open>The descending loop: an index past the end reads a property of \<open>undefined\<close>.\<close>

fun getPreviousUserMessage :: "Message list \<Rightarrow> nat \<Rightarrow> js_error + Message option" where
  "getPreviousUserMessage messages 0 = Inr None"
| "getPreviousUserMessage messages (Suc index) =
     (if length messages \<le> index then Inl TypeError
      else if msg_from (messages ! index) = User then Inr (Some (messages ! index))
      else getPreviousUserMessage messages index)"

definition applyMessageEdit ::
    "Message list \<Rightarrow> jsstr \<Rightarrow> jsstr \<Rightarrow> bool \<Rightarrow> jsstr \<Rightarrow> jsstr \<Rightarrow> rat \<Rightarrow> ApplyMessageEditResult option" where
  "applyMessageEdit messages messageKey content shouldSubmit n1 n2 submittedAt =
     (case findIndex (\<lambda>m. msg_key m = messageKey) messages of
        None \<Rightarrow> None
      | Some messageIndex \<Rightarrow>
          (let updatedMessages =
                 map (\<lambda>m. if msg_key m = messageKey
                          then (updateCurrentVersionContent m content)
                                 \<lparr>createdAt := (if shouldSubmit then Some submittedAt else createdAt m)\<rparr>
                          else m) messages
           in if \<not> shouldSubmit \<or> msg_from (updatedMessages ! messageIndex) \<noteq> User
              then Some \<lparr>edit_messages = updatedMessages, shouldSend = False\<rparr>
              else Some \<lparr>edit_messages = take (messageIndex + 1) updatedMessages
                           @ [createLoadingAssistantMessage n1 n2 submittedAt],
                         shouldSend = True\<rparr>))"

definition getEditingMessageContent :: "Message list \<Rightarrow> jsstr option \<Rightarrow> jsstr" where
  "getEditingMessageContent messages editingKey =
     (case editingKey of
        None \<Rightarrow> []
      | Some k \<Rightarrow>
          (if k = [] then []
           else case List.find (\<lambda>item. msg_key item = k) messages of
                  Some message \<Rightarrow> getMessageContent message
                | None \<Rightarrow> []))"

definition getChatMessageRenderState ::
    "Message list \<Rightarrow> Message \<Rightarrow> nat \<Rightarrow> jsstr option \<Rightarrow> ChatMessageRenderState" where
  "getChatMessageRenderState messages message messageIndex editingKey =
     \<lparr>alwaysShowActions = (Suc messageIndex = length messages \<and> msg_from message = Assistant),
      render_content = getMessageContent message,
      isEditing = (editingKey = Some (msg_key message))\<rparr>"

section \<open>The conversation invariant\<close>

abbreviation pending_reply :: "Message \<Rightarrow> bool" where
  "pending_reply m \<equiv> isPendingAssistantMessage (Some m)"

definition conv_wf :: "Message list \<Rightarrow> bool" where
  "conv_wf ms \<longleftrightarrow> list_all msg_wf ms \<and> distinct (map msg_key ms)
     \<and> list_all (\<lambda>m. \<not> pending_reply m) (butlast ms)"

lemma msg_wf_createUserMessage [simp]: "msg_wf (createUserMessage a b c t)"
  by (simp add: createUserMessage_def msg_wf_def)

lemma msg_wf_createLoading [simp]: "msg_wf (createLoadingAssistantMessage a b t)"
  by (simp add: createLoadingAssistantMessage_def msg_wf_def isAssistantMessageFinal_def)

lemma create_fields [simp]:
  "msg_key (createUserMessage a b c t) = a" "msg_from (createUserMessage a b c t) = User"
  "msg_key (createLoadingAssistantMessage a b t) = a"
  "msg_from (createLoadingAssistantMessage a b t) = Assistant"
  "status (createLoadingAssistantMessage a b t) = Some Loading"
  "reasoning (createLoadingAssistantMessage a b t) = None"
  "getMessageContent (createLoadingAssistantMessage a b t) = []"
  "getMessageContent (createUserMessage a b c t) = c"
  by (simp_all add: createUserMessage_def createLoadingAssistantMessage_def msg_defs)

lemma pending_create [simp]:
  "pending_reply (createLoadingAssistantMessage a b t)"
  "\<not> pending_reply (createUserMessage a b c t)"
  by (simp_all add: isPendingAssistantMessage_def isAssistantMessagePending_def)

lemma findIndex_Some: "findIndex P xs = Some i \<Longrightarrow> i < length xs \<and> P (xs ! i) \<and> (\<forall>j < i. \<not> P (xs ! j))"
proof (induction xs arbitrary: i)
  case (Cons x xs)
  then show ?case by (auto split: if_splits simp: nth_Cons split: nat.splits)
qed simp

lemma findIndex_None: "findIndex P xs = None \<longleftrightarrow> (\<forall>x \<in> set xs. \<not> P x)"
  by (induction xs) auto

lemma user_not_pending [simp]: "msg_from m = User \<Longrightarrow> \<not> pending_reply m"
  by (simp add: isPendingAssistantMessage_def)

lemma conv_wf_takeD:
  "conv_wf ms \<Longrightarrow> list_all msg_wf (take n ms) \<and> distinct (map msg_key (take n ms))"
  by (auto simp: conv_wf_def list_all_iff take_map [symmetric] dest: in_set_takeD)

lemma conv_wf_snoc:
  assumes "list_all msg_wf ms" "distinct (map msg_key ms)" "list_all (\<lambda>m. \<not> pending_reply m) ms"
    "msg_wf m" "msg_key m \<notin> msg_key ` set ms"
  shows "conv_wf (ms @ [m])"
  using assms by (simp add: conv_wf_def)

lemma conv_wf_no_pending: "conv_wf ms \<Longrightarrow> ms = [] \<or> \<not> pending_reply (last ms) \<Longrightarrow> list_all (\<lambda>m. \<not> pending_reply m) ms"
  by (cases ms rule: rev_cases) (auto simp: conv_wf_def)

lemma take_no_pending:
  assumes "conv_wf ms" "n < length ms \<or> (n = length ms \<and> (ms = [] \<or> \<not> pending_reply (last ms)))"
  shows "list_all (\<lambda>m. \<not> pending_reply m) (take n ms)"
proof (cases "n < length ms")
  case True
  then have "take n ms = take n (butlast ms)" by (simp add: take_butlast)
  with assms(1) show ?thesis by (auto simp: conv_wf_def list_all_iff dest: in_set_takeD)
next
  case False
  with assms show ?thesis using conv_wf_no_pending by auto
qed

lemma last_at: "Suc i = length xs \<Longrightarrow> last xs = xs ! i"
  by (cases xs rule: rev_cases) auto

lemma conv_wf_append_pair:
  assumes "conv_wf ms" "ms = [] \<or> \<not> pending_reply (last ms)"
    and "n1 \<noteq> n3" "n1 \<notin> msg_key ` set ms" "n3 \<notin> msg_key ` set ms"
  shows "conv_wf (appendUserMessagePair ms txt n1 n2 n3 n4 now)"
  using assms conv_wf_no_pending [OF assms(1,2)]
  by (auto simp: appendUserMessagePair_def conv_wf_def butlast_append)

text \<open>
  Sending a message extends the conversation by the user's text and an empty pending reply;
  with fresh identifiers and no pending reply before, the conversation invariant is kept.
\<close>

theorem send_keeps_conversation:
  assumes "conv_wf ms" "ms = [] \<or> \<not> pending_reply (last ms)"
    and "n1 \<noteq> n3" "n1 \<notin> msg_key ` set ms" "n3 \<notin> msg_key ` set ms"
  shows "let ns = appendUserMessagePair ms txt n1 n2 n3 n4 now in
    conv_wf ns \<and> take (length ms) ns = ms \<and> length ns = length ms + 2
    \<and> map getMessageContent (drop (length ms) ns) = [txt, []]
    \<and> map msg_from (drop (length ms) ns) = [User, Assistant] \<and> pending_reply (last ns)"
  using conv_wf_append_pair [OF assms] by (simp add: appendUserMessagePair_def)

theorem send_keeps_conversation_witness:
  "conv_wf (appendUserMessagePair [] (js ''hi'') (js ''a'') (js ''b'') (js ''c'') (js ''d'') 5)"
proof -
  have 1: "conv_wf []" by (simp add: conv_wf_def)
  have 2: "[] = [] \<or> \<not> pending_reply (last [])" by simp
  have 3: "js ''a'' \<noteq> js ''c''" by simp
  from send_keeps_conversation [OF 1 2 3, of "js ''hi''" "js ''b''" "js ''d''" 5] show ?thesis
    by (simp add: Let_def)
qed

lemma regenerate_shape:
  assumes "conv_wf ms" "n1 \<notin> msg_key ` set ms"
    and r: "createRegeneratedMessages ms k n1 n2 now = Some ns"
  shows "conv_wf ns \<and> last ns = createLoadingAssistantMessage n1 n2 now
      \<and> (\<exists>i < length ms. msg_key (ms ! i) = k
           \<and> butlast ns = take (if msg_from (ms ! i) = User then Suc i else i) ms)"
proof -
  obtain i where i: "findIndex (\<lambda>m. msg_key m = k) ms = Some i"
    using r by (auto simp: createRegeneratedMessages_def split: option.splits)
  note f = findIndex_Some [OF i]
  define n where "n = (if msg_from (ms ! i) = User then Suc i else i)"
  have ns: "ns = take n ms @ [createLoadingAssistantMessage n1 n2 now]"
    using r i by (auto simp: createRegeneratedMessages_def n_def split: if_splits)
  have "n < length ms \<or> (n = length ms \<and> (ms = [] \<or> \<not> pending_reply (last ms)))"
    using f by (cases "Suc i = length ms") (auto simp: n_def last_at)
  then have "list_all (\<lambda>m. \<not> pending_reply m) (take n ms)"
    using assms(1) by (rule take_no_pending [rotated])
  then have "conv_wf ns"
    unfolding ns using conv_wf_takeD [OF assms(1), of n] assms(2)
    by (intro conv_wf_snoc) (auto dest: in_set_takeD)
  then show ?thesis using f ns by (auto simp: n_def)
qed

text \<open>
  Regenerating is possible exactly for the keys of the conversation. The new conversation is
  the old one up to the chosen message, that message included exactly when it is the user's,
  followed by an empty pending reply, and it is well-formed again.
\<close>

theorem regenerate_truncates:
  assumes "conv_wf ms" "n1 \<notin> msg_key ` set ms"
  shows "(createRegeneratedMessages ms k n1 n2 now = None \<longleftrightarrow> k \<notin> msg_key ` set ms)
    \<and> (\<forall>ns. createRegeneratedMessages ms k n1 n2 now = Some ns \<longrightarrow>
         conv_wf ns \<and> last ns = createLoadingAssistantMessage n1 n2 now
         \<and> (\<exists>i < length ms. msg_key (ms ! i) = k
              \<and> butlast ns = take (if msg_from (ms ! i) = User then Suc i else i) ms))"
proof -
  have none: "createRegeneratedMessages ms k n1 n2 now = None \<longleftrightarrow> k \<notin> msg_key ` set ms"
    using findIndex_None [of "\<lambda>m. msg_key m = k" ms]
    by (cases "findIndex (\<lambda>m. msg_key m = k) ms") (auto simp: createRegeneratedMessages_def)
  with regenerate_shape [OF assms] show ?thesis by blast
qed

theorem regenerate_truncates_witness:
  "\<exists>ns. createRegeneratedMessages
      (appendUserMessagePair [] (js ''hi'') (js ''a'') (js ''b'') (js ''c'') (js ''d'') 5)
      (js ''c'') (js ''e'') (js ''f'') 6 = Some ns \<and> conv_wf ns \<and> length ns = 2"
proof -
  let ?ms = "appendUserMessagePair [] (js ''hi'') (js ''a'') (js ''b'') (js ''c'') (js ''d'') 5"
  have 1: "conv_wf ?ms" by (simp add: appendUserMessagePair_def conv_wf_def)
  have 2: "js ''e'' \<notin> msg_key ` set ?ms" by (simp add: appendUserMessagePair_def)
  have 3: "createRegeneratedMessages ?ms (js ''c'') (js ''e'') (js ''f'') 6 =
      Some [createUserMessage (js ''a'') (js ''b'') (js ''hi'') 5, createLoadingAssistantMessage (js ''e'') (js ''f'') 6]"
    by (simp add: createRegeneratedMessages_def appendUserMessagePair_def)
  from regenerate_truncates [OF 1 2, of "js ''c''" "js ''f''" 6] 3 show ?thesis by simp
qed

lemma conv_wf_map:
  assumes "conv_wf ms" "\<And>m. msg_wf m \<Longrightarrow> msg_wf (f m)" "\<And>m. msg_key (f m) = msg_key m"
    "\<And>m. pending_reply (f m) = pending_reply m"
  shows "conv_wf (map f ms)"
  using assms by (auto simp: conv_wf_def list_all_iff comp_def map_butlast [symmetric])

abbreviation edit_one :: "jsstr \<Rightarrow> jsstr \<Rightarrow> bool \<Rightarrow> rat \<Rightarrow> Message \<Rightarrow> Message" where
  "edit_one k content submit now m \<equiv>
     (if msg_key m = k
      then (updateCurrentVersionContent m content)
             \<lparr>createdAt := (if submit then Some now else createdAt m)\<rparr>
      else m)"

lemma edit_one_simps:
  "msg_wf m \<Longrightarrow> msg_wf (edit_one k c s t m)"
  "msg_key (edit_one k c s t m) = msg_key m"
  "msg_from (edit_one k c s t m) = msg_from m"
  "pending_reply (edit_one k c s t m) = pending_reply m"
  "msg_key m = k \<Longrightarrow> getMessageContent (edit_one k c s t m) = c"
  by (auto simp: msg_wf_def isAssistantMessageFinal_def isPendingAssistantMessage_def
      isAssistantMessagePending_def getMessageContent_def getCurrentVersion_def updateCurrentVersionContent_def)

lemma edit_shape:
  assumes "conv_wf ms" "n1 \<notin> msg_key ` set ms" "i < length ms" "msg_key (ms ! i) = k"
  shows "\<exists>res. applyMessageEdit ms k txt submit n1 n2 now = Some res
    \<and> conv_wf (edit_messages res)
    \<and> getMessageContent (edit_messages res ! i) = txt
    \<and> shouldSend res = (submit \<and> msg_from (ms ! i) = User)
    \<and> (if shouldSend res
       then length (edit_messages res) = i + 2 \<and> last (edit_messages res) = createLoadingAssistantMessage n1 n2 now
            \<and> take i (edit_messages res) = take i ms
       else length (edit_messages res) = length ms \<and> (\<forall>j < length ms. j \<noteq> i \<longrightarrow> edit_messages res ! j = ms ! j))"
proof -
  let ?us = "map (edit_one k txt submit now) ms"
  have d: "distinct (map msg_key ms)" using assms(1) by (simp add: conv_wf_def)
  have uk: "\<And>j. j < length ms \<Longrightarrow> msg_key (ms ! j) = k \<Longrightarrow> j = i"
    using d assms(3,4) nth_eq_iff_index_eq [OF d] by fastforce
  obtain i' where f: "findIndex (\<lambda>m. msg_key m = k) ms = Some i'"
    using assms(3,4) findIndex_None [of "\<lambda>m. msg_key m = k" ms] by (cases "findIndex (\<lambda>m. msg_key m = k) ms") auto
  with findIndex_Some [OF f] uk have f: "findIndex (\<lambda>m. msg_key m = k) ms = Some i" by auto
  have us: "conv_wf ?us" by (rule conv_wf_map [OF assms(1)]) (rule edit_one_simps; assumption)+
  have same: "j < length ms \<Longrightarrow> j \<noteq> i \<Longrightarrow> ?us ! j = ms ! j" for j using uk by auto
  have at: "getMessageContent (?us ! i) = txt" using assms(3,4) edit_one_simps(5) by simp
  show ?thesis
  proof (cases "submit \<and> msg_from (ms ! i) = User")
    case False
    then have "applyMessageEdit ms k txt submit n1 n2 now = Some \<lparr>edit_messages = ?us, shouldSend = False\<rparr>"
      using f assms(3) edit_one_simps(3) by (auto simp: applyMessageEdit_def Let_def)
    with False us at same show ?thesis by (intro exI [of _ "\<lparr>edit_messages = ?us, shouldSend = False\<rparr>"]) auto
  next
    case True
    let ?l = "createLoadingAssistantMessage n1 n2 now"
    let ?res = "\<lparr>edit_messages = take (Suc i) ?us @ [?l], shouldSend = True\<rparr>"
    have r: "applyMessageEdit ms k txt submit n1 n2 now = Some ?res"
      using f assms(3) conjunct1 [OF True] conjunct2 [OF True]
      by (simp add: applyMessageEdit_def Let_def updateCurrentVersionContent_def cong: if_cong)
    have role: "msg_from (?us ! i) = User" using True assms(3) edit_one_simps(3) by simp
    have "Suc i < length ?us \<or> (Suc i = length ?us \<and> (?us = [] \<or> \<not> pending_reply (last ?us)))"
      using assms(3) role by (cases "Suc i = length ms") (auto simp: last_at)
    then have np: "list_all (\<lambda>m. \<not> pending_reply m) (take (Suc i) ?us)"
      by (rule take_no_pending [OF us])
    have "map msg_key ?us = map msg_key ms" by simp
    then have k: "msg_key ` set ?us = msg_key ` set ms" by (metis list.set_map)
    have "msg_key ` set (take (Suc i) ?us) \<subseteq> msg_key ` set ms"
      unfolding k [symmetric] by (intro image_mono set_take_subset)
    then have "conv_wf (take (Suc i) ?us @ [?l])"
      using conv_wf_takeD [OF us, of "Suc i"] np assms(2)
      by (intro conv_wf_snoc) (auto simp del: set_map)
    moreover have "take i ?us = take i ms"
      using same assms(3) by (intro nth_equalityI) auto
    moreover have "(take (Suc i) ?us @ [?l]) ! i = ?us ! i"
      using assms(3) by (simp add: nth_append)
    ultimately show ?thesis using r True at assms(3) by (intro exI [of _ ?res]) (auto simp: min_def)
  qed
qed

text \<open>
  An edit keeps the conversation well-formed and puts the new text into the edited message.
  It asks for a new reply exactly when it was submitted on a message of the user; then everything
  after that message is replaced by one pending reply, otherwise all other messages stay.
\<close>

theorem edit_keeps_conversation:
  assumes "conv_wf ms" "n1 \<notin> msg_key ` set ms" "i < length ms" "msg_key (ms ! i) = k"
  shows "\<exists>res. applyMessageEdit ms k txt submit n1 n2 now = Some res
    \<and> conv_wf (edit_messages res)
    \<and> getMessageContent (edit_messages res ! i) = txt
    \<and> shouldSend res = (submit \<and> msg_from (ms ! i) = User)
    \<and> (if shouldSend res
       then length (edit_messages res) = i + 2 \<and> last (edit_messages res) = createLoadingAssistantMessage n1 n2 now
            \<and> take i (edit_messages res) = take i ms
       else length (edit_messages res) = length ms \<and> (\<forall>j < length ms. j \<noteq> i \<longrightarrow> edit_messages res ! j = ms ! j))"
  by (rule edit_shape [OF assms])

theorem edit_keeps_conversation_witness:
  "\<exists>res. applyMessageEdit (appendUserMessagePair [] (js ''hi'') (js ''a'') (js ''b'') (js ''c'') (js ''d'') 5)
      (js ''a'') (js ''yo'') True (js ''e'') (js ''f'') 6 = Some res
    \<and> shouldSend res \<and> getMessageContent (edit_messages res ! 0) = js ''yo''"
proof -
  let ?ms = "appendUserMessagePair [] (js ''hi'') (js ''a'') (js ''b'') (js ''c'') (js ''d'') 5"
  have 1: "conv_wf ?ms" by (simp add: appendUserMessagePair_def conv_wf_def)
  have 2: "js ''e'' \<notin> msg_key ` set ?ms" by (simp add: appendUserMessagePair_def)
  have 3: "0 < length ?ms" "msg_key (?ms ! 0) = js ''a''" by (simp_all add: appendUserMessagePair_def)
  have 4: "msg_from (?ms ! 0) = User" by (simp add: appendUserMessagePair_def)
  from edit_keeps_conversation [OF 1 2 3, of "js ''yo''" True "js ''f''" 6] 4 show ?thesis by auto
qed

lemma conv_wf_edit:
  assumes "conv_wf ms" "n1 \<notin> msg_key ` set ms" "applyMessageEdit ms k txt submit n1 n2 now = Some res"
  shows "conv_wf (edit_messages res)"
proof -
  obtain i where "findIndex (\<lambda>m. msg_key m = k) ms = Some i"
    using assms(3) by (auto simp: applyMessageEdit_def split: option.splits)
  from findIndex_Some [OF this] edit_shape [OF assms(1,2), of i k "txt" submit n2 now] assms(3)
  show ?thesis by auto
qed

lemma butlast_filter_subset: "set (butlast (filter P ms)) \<subseteq> set (butlast ms)"
proof (induction ms rule: rev_induct)
  case (snoc x xs)
  then show ?case by (auto dest: in_set_butlastD)
qed simp

lemma conv_wf_remove: "conv_wf ms \<Longrightarrow> conv_wf (removeMessageByKey ms k)"
  using butlast_filter_subset [of "\<lambda>m. msg_key m \<noteq> k" ms]
  by (auto simp: removeMessageByKey_def conv_wf_def list_all_iff distinct_map_filter)

text \<open>
  deleting a message removes exactly the message with that key and keeps the conversation
  invariant and the order of the rest.
\<close>

theorem remove_keeps_conversation:
  assumes "conv_wf ms"
  shows "conv_wf (removeMessageByKey ms k)
    \<and> map msg_key (removeMessageByKey ms k) = filter (\<lambda>x. x \<noteq> k) (map msg_key ms)"
  using conv_wf_remove [OF assms] by (simp add: removeMessageByKey_def filter_map comp_def)

theorem remove_keeps_conversation_witness:
  "conv_wf (removeMessageByKey
     (appendUserMessagePair [] (js ''hi'') (js ''a'') (js ''b'') (js ''c'') (js ''d'') 5) (js ''a''))"
proof -
  have "conv_wf (appendUserMessagePair [] (js ''hi'') (js ''a'') (js ''b'') (js ''c'') (js ''d'') 5)"
    by (simp add: appendUserMessagePair_def conv_wf_def)
  from remove_keeps_conversation [OF this] show ?thesis by blast
qed

text \<open>The search for the prompt of a failed reply finds the nearest user message before it.\<close>

lemma getPreviousUserMessage_nearest:
  "n \<le> length ms \<Longrightarrow> \<exists>r. getPreviousUserMessage ms n = Inr r \<and>
     (case r of
        None \<Rightarrow> (\<forall>j < n. msg_from (ms ! j) \<noteq> User)
      | Some m \<Rightarrow> (\<exists>j < n. m = ms ! j \<and> msg_from m = User
                     \<and> (\<forall>l. j < l \<and> l < n \<longrightarrow> msg_from (ms ! l) \<noteq> User)))"
proof (induction n)
  case 0
  then show ?case by simp
next
  case (Suc n)
  then obtain r where "getPreviousUserMessage ms n = Inr r"
    "case r of
        None \<Rightarrow> (\<forall>j < n. msg_from (ms ! j) \<noteq> User)
      | Some m \<Rightarrow> (\<exists>j < n. m = ms ! j \<and> msg_from m = User
                     \<and> (\<forall>l. j < l \<and> l < n \<longrightarrow> msg_from (ms ! l) \<noteq> User))" by auto
  with Suc.prems show ?case by (cases r) (auto simp: less_Suc_eq)
qed

end
