(* ===== verification/MessageView.thy ===== *)
theory MessageView
  imports Conversation
begin

text \<open>
  What the playground shows for a conversation: the display states computed by
  \<open>lib/message/message-{content,error,action,editor,layout}-utils.ts\<close>, \<open>lib/input\<close> and
  \<open>lib/options\<close>, and the parts the message components render from them
  (\<open>components/message\<close>, \<open>components/chat/playground-chat.tsx\<close>). A component is modelled by the
  list of the parts it renders, top to bottom, and its buttons by their labels and disabled flags;
  styling is left out.
\<close>

section \<open>Display states\<close>

record MessageContentState =
  displayContent :: jsstr
  hasSources :: bool
  isAssistant :: bool
  showLoader :: bool
  showMessageContent :: bool
  state_sources :: "Source list"
  hasReasoning :: bool
  reasoningContent :: "jsstr option"

definition shouldShowMessageLoader :: "Message \<Rightarrow> bool \<Rightarrow> jsstr \<Rightarrow> bool" where
  "shouldShowMessageLoader message is_assistant versionContent \<longleftrightarrow>
     is_assistant \<and> \<not> flag (isReasoningStreaming message)
     \<and> (status message = Some Loading \<or> (status message = Some Streaming \<and> versionContent = []))"

definition shouldShowMessageContent :: "Message \<Rightarrow> jsstr \<Rightarrow> bool" where
  "shouldShowMessageContent message versionContent \<longleftrightarrow>
     (msg_from message = User \<or> \<not> flag (isReasoningStreaming message)) \<and> length versionContent > 0"

definition getDisplayContent :: "Message \<Rightarrow> jsstr \<Rightarrow> jsstr" where
  "getDisplayContent message versionContent =
     (if msg_from message \<noteq> Assistant then versionContent
      else if \<not> includesStr versionContent open_tag then versionContent
      else visibleContent (parseThinkTags versionContent))"

definition getMessageContentState :: "Message \<Rightarrow> jsstr \<Rightarrow> MessageContentState" where
  "getMessageContentState message versionContent =
     (let is_assistant = msg_from message = Assistant;
          srcs = (case sources message of Some s \<Rightarrow> s | None \<Rightarrow> []);
          rc = (if is_assistant then map_option r_content (reasoning message) else None);
          has = (case rc of Some c \<Rightarrow> c \<noteq> [] | None \<Rightarrow> False)
      in \<lparr>displayContent = getDisplayContent message versionContent,
          hasSources = length srcs > 0,
          isAssistant = is_assistant,
          showLoader = shouldShowMessageLoader message is_assistant versionContent,
          showMessageContent = shouldShowMessageContent message versionContent,
          state_sources = srcs,
          hasReasoning = has,
          reasoningContent = (if has then rc else None)\<rparr>)"

datatype ErrorKind = Generic | ModelPrice

record MessageErrorState =
  error_content :: jsstr
  error_kind :: ErrorKind
  showSettingsLink :: bool

abbreviation MODEL_PRICE_ERROR_CODE :: jsstr where
  "MODEL_PRICE_ERROR_CODE \<equiv> js ''model_price_error''"

abbreviation FALLBACK_ERROR_CONTENT :: jsstr where
  "FALLBACK_ERROR_CONTENT \<equiv> js ''An unknown error occurred''"

definition isAdminRole :: "rat option \<Rightarrow> bool" where
  "isAdminRole userRole \<longleftrightarrow> (case userRole of None \<Rightarrow> False | Some r \<Rightarrow> r \<ge> 10)"

definition isErrorMessage :: "Message \<Rightarrow> bool" where
  "isErrorMessage message \<longleftrightarrow> status message = Some Error"

definition getMessageErrorState :: "Message \<Rightarrow> bool \<Rightarrow> MessageErrorState option" where
  "getMessageErrorState message isAdmin =
     (if \<not> isErrorMessage message then None
      else
        (let content = or_str (getMessageContent message) FALLBACK_ERROR_CONTENT;
             isModelPriceError = errorCode message = Some (Some MODEL_PRICE_ERROR_CODE)
         in Some \<lparr>error_content = content,
                  error_kind = (if isModelPriceError then ModelPrice else Generic),
                  showSettingsLink = (isModelPriceError \<and> isAdmin)\<rparr>))"

record MessageActionState =
  action_content :: jsstr
  hasContent :: bool
  action_isAssistant :: bool
  isUser :: bool
  isLoading :: bool

definition getMessageActionState :: "Message \<Rightarrow> MessageActionState" where
  "getMessageActionState message =
     \<lparr>action_content = getMessageContent message,
      hasContent = hasMessageContent message,
      action_isAssistant = (msg_from message = Assistant),
      isUser = (msg_from message = User),
      isLoading = (status message = Some Loading \<or> status message = Some Streaming)\<rparr>"

record MessageEditorState =
  canSave :: bool
  hasChanged :: bool
  showSaveAndSubmit :: bool

definition getMessageEditorState :: "Message \<Rightarrow> jsstr \<Rightarrow> jsstr \<Rightarrow> MessageEditorState" where
  "getMessageEditorState message editText originalText =
     \<lparr>canSave = (length (trim editText) > 0 \<and> editText \<noteq> originalText),
      hasChanged = (editText \<noteq> originalText),
      showSaveAndSubmit = (msg_from message = User)\<rparr>"

datatype MessageAlignment = AlignLeft | AlignRight

definition getMessageAlignment :: "Message \<Rightarrow> PlaygroundMessageLayoutMode \<Rightarrow> MessageAlignment" where
  "getMessageAlignment message layoutMode =
     (if layoutMode = LayoutLeft then AlignLeft
      else if msg_from message = User then AlignRight else AlignLeft)"

section \<open>Options and input\<close>

record ModelOption =
  model_label :: jsstr
  model_value :: jsstr

record GroupOption =
  group_label :: jsstr
  group_value :: jsstr
  group_ratio :: rat
  group_desc :: "jsstr option"

definition getModelFallback :: "ModelOption list \<Rightarrow> jsstr \<Rightarrow> jsstr option" where
  "getModelFallback models currentModel =
     (if list_ex (\<lambda>m. model_value m = currentModel) models then None
      else case models of [] \<Rightarrow> None | m # _ \<Rightarrow> Some (model_value m))"

definition shouldClearModelForGroup :: "ModelOption list \<Rightarrow> jsstr \<Rightarrow> bool" where
  "shouldClearModelForGroup models currentModel \<longleftrightarrow>
     (if currentModel = [] then False
      else \<not> list_ex (\<lambda>m. model_value m = currentModel) models)"

definition getGroupFallback :: "GroupOption list \<Rightarrow> jsstr \<Rightarrow> jsstr option" where
  "getGroupFallback groups currentGroup =
     (if list_ex (\<lambda>g. group_value g = currentGroup) groups then None
      else case groups of
             [] \<Rightarrow> None
           | g # _ \<Rightarrow>
               (case List.find (\<lambda>g. group_value g = js ''default'') groups of
                  Some d \<Rightarrow> Some (group_value d)
                | None \<Rightarrow> Some (group_value g)))"

text \<open>
  The two effects of \<open>usePlaygroundOptions\<close>: what \<open>updateConfig\<close> writes for the model and the
  group once the lists are loaded (\<^term>\<open>None\<close>: nothing). An empty fallback is falsy.
\<close>

definition model_effect :: "ModelOption list \<Rightarrow> jsstr \<Rightarrow> jsstr option" where
  "model_effect modelsData currentModel =
     (case getModelFallback modelsData currentModel of
        Some f \<Rightarrow>
          (if f \<noteq> [] then Some f
           else if shouldClearModelForGroup modelsData currentModel then Some [] else None)
      | None \<Rightarrow> (if shouldClearModelForGroup modelsData currentModel then Some [] else None))"

definition group_effect :: "GroupOption list \<Rightarrow> jsstr \<Rightarrow> jsstr option" where
  "group_effect groupsData currentGroup =
     (case getGroupFallback groupsData currentGroup of
        Some f \<Rightarrow> (if f \<noteq> [] then Some f else None)
      | None \<Rightarrow> None)"

record InputControlState =
  canSubmit :: bool
  isSelectorDisabled :: bool
  shouldShowStop :: bool

definition getSubmittableInputText :: "jsstr option \<Rightarrow> bool \<Rightarrow> jsstr option" where
  "getSubmittableInputText txt disabled =
     (if disabled then None
      else case txt of None \<Rightarrow> None | Some t \<Rightarrow> (if trim t = [] then None else Some t))"

definition getInputControlState ::
    "bool \<Rightarrow> GroupOption list \<Rightarrow> bool \<Rightarrow> bool \<Rightarrow> bool \<Rightarrow> ModelOption list \<Rightarrow> jsstr \<Rightarrow> InputControlState" where
  "getInputControlState disabled groups hasStopHandler isGenerating isModelLoading models txt =
     \<lparr>canSubmit = (\<not> disabled \<and> length models > 0 \<and> length (trim txt) > 0),
      isSelectorDisabled = (disabled \<or> isModelLoading \<or> length groups = 0),
      shouldShowStop = (isGenerating \<and> hasStopHandler)\<rparr>"

section \<open>Rendered parts\<close>

datatype MessagePart =
    SourcesPart nat
  | ReasoningPart jsstr
  | LoaderPart
  | ErrorPart
  | RawSourcePart jsstr
  | ResponsePart bool jsstr
  | MetadataPart
  | ErrorActionsPart
  | ActionsPart

definition PlaygroundMessageContent :: "Message \<Rightarrow> jsstr \<Rightarrow> bool \<Rightarrow> MessagePart list" where
  "PlaygroundMessageContent message versionContent isSourceVisible =
     (let st = getMessageContentState message versionContent;
          isError = isErrorMessage message;
          isMessageFinal = (status message \<noteq> Some Loading \<and> status message \<noteq> Some Streaming)
      in (if hasSources st then [SourcesPart (length (state_sources st))] else [])
         @ (case reasoningContent st of Some c \<Rightarrow> (if hasReasoning st then [ReasoningPart c] else []) | None \<Rightarrow> [])
         @ (if showLoader st then [LoaderPart] else [])
         @ (if isError then [ErrorPart, MetadataPart, ErrorActionsPart] else [])
         @ (if \<not> isError \<and> showMessageContent st
            then [if isSourceVisible then RawSourcePart versionContent
                  else ResponsePart isMessageFinal (displayContent st),
                  MetadataPart, ActionsPart]
            else []))"

datatype ActionLabel = Copy | Copied | ShowPreview | ShowSource | Regenerate | EditAction | DeleteAction

record MessageActionItem =
  action_label :: ActionLabel
  action_disabled :: bool

text \<open>The buttons of a message; every handler of the playground is passed.\<close>

definition MessageActions :: "Message \<Rightarrow> jsstr option \<Rightarrow> bool \<Rightarrow> bool \<Rightarrow> MessageActionItem list" where
  "MessageActions message copiedText isSourceVisible isGenerating =
     (let st = getMessageActionState message in
      (if hasContent st
       then [\<lparr>action_label = (if copiedText = Some (action_content st) then Copied else Copy),
              action_disabled = False\<rparr>] else [])
      @ (if action_isAssistant st \<and> hasContent st \<and> \<not> isLoading st
         then [\<lparr>action_label = (if isSourceVisible then ShowPreview else ShowSource), action_disabled = False\<rparr>]
         else [])
      @ (if (action_isAssistant st \<or> isUser st) \<and> hasContent st \<and> \<not> isLoading st
         then [\<lparr>action_label = Regenerate, action_disabled = isGenerating\<rparr>] else [])
      @ (if hasContent st then [\<lparr>action_label = EditAction, action_disabled = isGenerating\<rparr>] else [])
      @ [\<lparr>action_label = DeleteAction, action_disabled = isGenerating\<rparr>])"

text \<open>\<open>guardAction\<close>: the action, or the warning while a generation runs.\<close>

definition guardAction :: "bool \<Rightarrow> ('s \<Rightarrow> 's) \<Rightarrow> 's \<Rightarrow> 's" where
  "guardAction isGenerating action s = (if isGenerating then s else action s)"

text \<open>The keyboard of the message editor: what a key press asks the playground to do.\<close>

datatype EditorRequest = NoRequest | CancelEdit | SaveEdit jsstr | SaveEditAndSubmit jsstr

definition handleCancel :: "MessageEditorState \<Rightarrow> bool \<Rightarrow> EditorRequest" where
  "handleCancel st confirmed = (if hasChanged st \<and> \<not> confirmed then NoRequest else CancelEdit)"

definition handleKeyDown :: "Message \<Rightarrow> jsstr \<Rightarrow> jsstr \<Rightarrow> jsstr \<Rightarrow> bool \<Rightarrow> bool \<Rightarrow> bool \<Rightarrow> EditorRequest" where
  "handleKeyDown message editText originalText key metaKey ctrlKey confirmed =
     (let st = getMessageEditorState message editText originalText in
      if key = js ''Escape'' then handleCancel st confirmed
      else if (metaKey \<or> ctrlKey) \<and> key = js ''Enter'' then
        (if \<not> canSave st then NoRequest
         else if showSaveAndSubmit st then SaveEditAndSubmit editText else SaveEdit editText)
      else NoRequest)"

text \<open>
  The message list: only the newest \<open>MAX_RENDERED_HISTORY_MESSAGES\<close> messages are rendered, each
  with its index in the whole conversation, its editing flag and, for an error, the prompt the
  error actions offer to edit.
\<close>

definition MAX_RENDERED_HISTORY_MESSAGES :: nat where
  "MAX_RENDERED_HISTORY_MESSAGES = 24"

record RenderedMessage =
  rendered :: Message
  rendered_index :: nat
  rendered_state :: ChatMessageRenderState
  rendered_alignment :: MessageAlignment
  rendered_source :: bool
  rendered_prompt :: "js_error + Message option"

definition visibleMessageOffset :: "Message list \<Rightarrow> nat" where
  "visibleMessageOffset messages = length messages - MAX_RENDERED_HISTORY_MESSAGES"

definition PlaygroundChat ::
    "Message list \<Rightarrow> jsstr option \<Rightarrow> jsstr set \<Rightarrow> PlaygroundMessageLayoutMode \<Rightarrow> RenderedMessage list" where
  "PlaygroundChat messages editingKey sourceMessageKeys layoutMode =
     (let offset = visibleMessageOffset messages in
      map (\<lambda>(i, message).
             \<lparr>rendered = message, rendered_index = offset + i,
              rendered_state = getChatMessageRenderState messages message (offset + i) editingKey,
              rendered_alignment = getMessageAlignment message layoutMode,
              rendered_source = (msg_key message \<in> sourceMessageKeys),
              rendered_prompt = (if isErrorMessage message then getPreviousUserMessage messages (offset + i)
                                 else Inr None)\<rparr>)
        (List.enumerate 0 (drop offset messages)))"

definition handleToggleMessageSource :: "jsstr set \<Rightarrow> Message \<Rightarrow> jsstr set" where
  "handleToggleMessageSource keys message =
     (if msg_key message \<in> keys then keys - {msg_key message} else insert (msg_key message) keys)"


section \<open>Properties\<close>

text \<open>
  a well-formed reply that is settled without error and has text is shown as exactly its
  text, final, with its metadata and buttons, and never with the loader; the text shown has no
  think block left over from the stream.
\<close>

theorem settled_reply_is_shown:
  assumes "msg_wf m" "msg_from m = Assistant" "status m = Some Complete" "hasMessageContent m"
    "\<not> includesStr (getMessageContent m) open_tag"
  shows "filter (\<lambda>p. case p of SourcesPart _ \<Rightarrow> False | ReasoningPart _ \<Rightarrow> False | _ \<Rightarrow> True)
      (PlaygroundMessageContent m (getMessageContent m) False)
    = [ResponsePart True (getMessageContent m), MetadataPart, ActionsPart]"
proof -
  have f: "\<not> flag (isReasoningStreaming m)"
    using assms(1,2,3) by (simp add: msg_wf_def isAssistantMessageFinal_def)
  have ne: "getMessageContent m \<noteq> []"
    using assms(4) by (auto simp: hasMessageContent_def)
  show ?thesis using f ne assms(2,3,5)
    by (auto simp: PlaygroundMessageContent_def getMessageContentState_def Let_def isErrorMessage_def
        shouldShowMessageLoader_def shouldShowMessageContent_def getDisplayContent_def split: option.splits)
qed

theorem settled_reply_is_shown_witness:
  "filter (\<lambda>p. case p of SourcesPart _ \<Rightarrow> False | ReasoningPart _ \<Rightarrow> False | _ \<Rightarrow> True)
      (PlaygroundMessageContent
         ((updateCurrentVersionContent (createLoadingAssistantMessage (js ''k'') (js ''v'') 5) (js ''hello''))
            \<lparr>status := Some Complete, completedAt := Some 7, durationMs := Some 2\<rparr>)
         (js ''hello'') False)
    = [ResponsePart True (js ''hello''), MetadataPart, ActionsPart]"
proof -
  let ?m = "(updateCurrentVersionContent (createLoadingAssistantMessage (js ''k'') (js ''v'') 5) (js ''hello''))
            \<lparr>status := Some Complete, completedAt := Some 7, durationMs := Some 2\<rparr>"
  have 1: "msg_wf ?m"
    by (simp add: msg_wf_def updateCurrentVersionContent_def createLoadingAssistantMessage_def)
  have 2: "msg_from ?m = Assistant" by simp
  have 3: "status ?m = Some Complete" by simp
  have e: "getMessageContent ?m = js ''hello''"
    by (simp add: getMessageContent_def getCurrentVersion_def updateCurrentVersionContent_def)
  have 4: "hasMessageContent ?m" unfolding hasMessageContent_def e
    by (subst trim_id) (simp_all add: js_eval is_space_def is_line_term_def)
  have 5: "\<not> includesStr (getMessageContent ?m) open_tag" unfolding e by (simp add: includesStr_def js_eval)
  from settled_reply_is_shown [OF 1 2 3 4 5] show ?thesis unfolding e .
qed

text \<open>
  the message list shows the newest messages, at most \<^const>\<open>MAX_RENDERED_HISTORY_MESSAGES\<close>,
  in order and under their index in the whole conversation; computing the prompt offered for
  editing beside an error never fails, and that prompt is the nearest user message before it.
\<close>

theorem chat_renders_newest:
  "let rs = PlaygroundChat ms editingKey ks mode; n = length ms - MAX_RENDERED_HISTORY_MESSAGES in
   map rendered rs = drop n ms
   \<and> length rs \<le> MAX_RENDERED_HISTORY_MESSAGES
   \<and> map rendered_index rs = [n..<length ms]
   \<and> list_all (\<lambda>r. \<exists>p. rendered_prompt r = Inr p
        \<and> (case p of None \<Rightarrow> True
            | Some q \<Rightarrow> isErrorMessage (rendered r)
                \<and> (\<exists>j < rendered_index r. q = ms ! j \<and> msg_from q = User
                     \<and> list_all (\<lambda>l. msg_from (ms ! l) \<noteq> User) [Suc j..<rendered_index r]))) rs"
proof -
  let ?n = "length ms - MAX_RENDERED_HISTORY_MESSAGES"
  have shape: "PlaygroundChat ms editingKey ks mode =
      map (\<lambda>i. \<lparr>rendered = ms ! (?n + i), rendered_index = ?n + i,
              rendered_state = getChatMessageRenderState ms (ms ! (?n + i)) (?n + i) editingKey,
              rendered_alignment = getMessageAlignment (ms ! (?n + i)) mode,
              rendered_source = (msg_key (ms ! (?n + i)) \<in> ks),
              rendered_prompt = (if isErrorMessage (ms ! (?n + i)) then getPreviousUserMessage ms (?n + i)
                                 else Inr None)\<rparr>) [0..<length ms - ?n]"
    by (rule nth_equalityI) (auto simp: PlaygroundChat_def visibleMessageOffset_def Let_def nth_enumerate_eq)
  have prompt: "\<exists>p. (if isErrorMessage (ms ! k) then getPreviousUserMessage ms k else Inr None) = Inr p
      \<and> (case p of None \<Rightarrow> True
          | Some q \<Rightarrow> isErrorMessage (ms ! k) \<and> (\<exists>j < k. q = ms ! j \<and> msg_from q = User
              \<and> list_all (\<lambda>l. msg_from (ms ! l) \<noteq> User) [Suc j..<k]))" if "k < length ms" for k
    using getPreviousUserMessage_nearest [of k ms] that
    by (fastforce simp: list_all_iff split: option.splits)
  have "map rendered_index (PlaygroundChat ms editingKey ks mode) = [?n..<length ms]"
    unfolding shape by (rule nth_equalityI) auto
  moreover have "map rendered (PlaygroundChat ms editingKey ks mode) = drop ?n ms"
    unfolding shape by (rule nth_equalityI) auto
  moreover have "length (PlaygroundChat ms editingKey ks mode) \<le> MAX_RENDERED_HISTORY_MESSAGES"
    unfolding shape by (simp add: MAX_RENDERED_HISTORY_MESSAGES_def)
  moreover have "list_all (\<lambda>r. \<exists>p. rendered_prompt r = Inr p
        \<and> (case p of None \<Rightarrow> True
            | Some q \<Rightarrow> isErrorMessage (rendered r)
                \<and> (\<exists>j < rendered_index r. q = ms ! j \<and> msg_from q = User
                     \<and> list_all (\<lambda>l. msg_from (ms ! l) \<noteq> User) [Suc j..<rendered_index r])))
      (PlaygroundChat ms editingKey ks mode)"
  proof (rule list_all_iff [THEN iffD2], rule ballI)
    fix r assume "r \<in> set (PlaygroundChat ms editingKey ks mode)"
    then obtain i where i: "i < length ms - ?n" and "rendered r = ms ! (?n + i)" "rendered_index r = ?n + i"
      "rendered_prompt r = (if isErrorMessage (ms ! (?n + i)) then getPreviousUserMessage ms (?n + i) else Inr None)"
      unfolding shape by (simp only: set_map image_iff set_upt) force
    moreover from i have "?n + i < length ms" by arith
    ultimately show "\<exists>p. rendered_prompt r = Inr p
        \<and> (case p of None \<Rightarrow> True
            | Some q \<Rightarrow> isErrorMessage (rendered r)
                \<and> (\<exists>j < rendered_index r. q = ms ! j \<and> msg_from q = User
                     \<and> list_all (\<lambda>l. msg_from (ms ! l) \<noteq> User) [Suc j..<rendered_index r]))"
      using prompt [of "?n + i"] by (simp only:)
  qed
  ultimately show ?thesis by (simp add: Let_def)
qed

lemma find_Some_mem: "List.find P xs = Some x \<Longrightarrow> x \<in> set xs \<and> P x"
  by (auto simp: find_Some_iff)

lemma list_ex_value: "list_ex (\<lambda>x. f x = c) xs \<longleftrightarrow> c \<in> f ` set xs"
  by (induction xs) auto

lemma model_effect_alt:
  "model_effect models cur =
     (if cur \<in> model_value ` set models then None
      else case models of
             [] \<Rightarrow> (if cur = [] then None else Some [])
           | m # _ \<Rightarrow> Some (model_value m))"
proof -
  have ex: "list_ex (\<lambda>m. model_value m = cur) models \<longleftrightarrow> cur \<in> model_value ` set models"
    by (simp add: list_ex_value)
  show ?thesis
  proof (cases "cur \<in> model_value ` set models")
    case True
    then show ?thesis by (simp add: model_effect_def getModelFallback_def shouldClearModelForGroup_def ex)
  next
    case False
    then have no: "list_ex (\<lambda>m. model_value m = cur) models = False" by (simp only: ex)
    show ?thesis
    proof (cases models)
      case Nil
      then show ?thesis by (simp add: model_effect_def getModelFallback_def shouldClearModelForGroup_def)
    next
      case (Cons m ms)
      then have "model_value m \<noteq> cur" using False by auto
      with False Cons show ?thesis
        unfolding model_effect_def getModelFallback_def shouldClearModelForGroup_def no
        by (cases "model_value m = []") simp_all
    qed
  qed
qed

lemma getGroupFallback_mem:
  assumes "getGroupFallback groups cur = Some f"
  shows "f \<in> group_value ` set groups"
proof (cases groups)
  case Nil
  with assms show ?thesis by (simp add: getGroupFallback_def)
next
  case (Cons g gs)
  show ?thesis
  proof (cases "List.find (\<lambda>g. group_value g = js ''default'') groups")
    case None
    with assms Cons show ?thesis by (simp add: getGroupFallback_def split: if_splits)
  next
    case (Some d)
    with assms Cons have "f = group_value d" by (simp add: getGroupFallback_def split: if_splits)
    with find_Some_mem [OF Some] show ?thesis by blast
  qed
qed

lemma getGroupFallback_None:
  "getGroupFallback groups cur = None \<longleftrightarrow> groups = [] \<or> cur \<in> group_value ` set groups"
proof -
  have ex: "list_ex (\<lambda>g. group_value g = cur) groups \<longleftrightarrow> cur \<in> group_value ` set groups"
    by (simp add: list_ex_value)
  show ?thesis
    unfolding getGroupFallback_def ex by (cases groups) (simp_all split: option.split)
qed

lemma group_effect_alt:
  "group_effect groups cur =
     (if cur \<in> group_value ` set groups then None
      else case getGroupFallback groups cur of None \<Rightarrow> None | Some f \<Rightarrow> if f = [] then None else Some f)"
  using getGroupFallback_None [of groups cur]
  by (cases "getGroupFallback groups cur") (simp_all add: group_effect_def)

text \<open>
  C39: once the lists of models and groups are loaded, the effects that correct the selection
  settle after one write: the selection they leave is one of the options, or empty when no usable
  option exists, and they do not write again.
\<close>

theorem option_effects_settle:
  "(let m = (case model_effect models cur of Some x \<Rightarrow> x | None \<Rightarrow> cur) in
      model_effect models m = None \<and> (m = [] \<or> m \<in> model_value ` set models))
   \<and> (let g = (case group_effect groups curg of Some x \<Rightarrow> x | None \<Rightarrow> curg) in
      group_effect groups g = None
      \<and> (groups = [] \<or> g \<in> group_value ` set groups \<or> [] \<in> group_value ` set groups))"
proof
  show "let m = (case model_effect models cur of Some x \<Rightarrow> x | None \<Rightarrow> cur) in
      model_effect models m = None \<and> (m = [] \<or> m \<in> model_value ` set models)"
  proof (cases "cur \<in> model_value ` set models")
    case True
    then show ?thesis by (simp only: model_effect_alt Let_def if_True option.case simp_thms)
  next
    case False
    then show ?thesis by (cases models; cases "cur = []") (simp_all add: model_effect_alt)
  qed
  show "let g = (case group_effect groups curg of Some x \<Rightarrow> x | None \<Rightarrow> curg) in
      group_effect groups g = None
      \<and> (groups = [] \<or> g \<in> group_value ` set groups \<or> [] \<in> group_value ` set groups)"
    using getGroupFallback_mem [of groups curg] getGroupFallback_None [of groups curg]
    by (cases "getGroupFallback groups curg"; cases "the (getGroupFallback groups curg) = []";
        cases "curg \<in> group_value ` set groups") (simp_all add: group_effect_alt)
qed



end
