(* ===== verification/StreamProtocol.thy ===== *)
theory StreamProtocol
  imports Json MessageView
begin

text \<open>
  The wire side of a chat request: the request payload (\<open>lib/streaming/payload-builder.ts\<close>), the
  events of the response stream (\<open>lib/streaming/stream-utils.ts\<close>) and the errors of a request
  (\<open>lib/streaming/request-error-utils.ts\<close>), with the configuration types and defaults of
  \<open>types.ts\<close> and \<open>constants.ts\<close>. The functions that read server data work on arbitrary JSON
  values: the casts of the source check nothing.
\<close>

section \<open>Configuration and payload\<close>

record PlaygroundConfig =
  model :: jsstr
  group :: jsstr
  temperature :: rat
  top_p :: rat
  max_tokens :: rat
  frequency_penalty :: rat
  presence_penalty :: rat
  seed :: "rat option"
  stream :: bool

record ParameterEnabled =
  en_temperature :: bool
  en_top_p :: bool
  en_max_tokens :: bool
  en_frequency_penalty :: bool
  en_presence_penalty :: bool
  en_seed :: bool

record ChatCompletionRequest =
  req_model :: jsstr
  req_group :: "jsstr option"
  req_messages :: "ChatCompletionMessage list"
  req_stream :: bool
  req_temperature :: "rat option"
  req_top_p :: "rat option"
  req_max_tokens :: "rat option"
  req_frequency_penalty :: "rat option"
  req_presence_penalty :: "rat option"
  req_seed :: "rat option"

definition DEFAULT_CONFIG :: PlaygroundConfig where
  "DEFAULT_CONFIG =
     \<lparr>model = js ''gpt-5.5'', group = js ''default'', temperature = 7 / 10, top_p = 1, max_tokens = 4096,
      frequency_penalty = 0, presence_penalty = 0, seed = None, stream = True\<rparr>"

definition DEFAULT_PARAMETER_ENABLED :: ParameterEnabled where
  "DEFAULT_PARAMETER_ENABLED =
     \<lparr>en_temperature = True, en_top_p = True, en_max_tokens = False, en_frequency_penalty = True,
      en_presence_penalty = True, en_seed = False\<rparr>"

definition buildChatCompletionPayload ::
    "Message list \<Rightarrow> PlaygroundConfig \<Rightarrow> ParameterEnabled \<Rightarrow> ChatCompletionRequest" where
  "buildChatCompletionPayload messages config parameterEnabled =
     \<lparr>req_model = model config, req_group = Some (group config),
      req_messages = map formatMessageForAPI (filter isValidMessage messages),
      req_stream = stream config,
      req_temperature = (if en_temperature parameterEnabled then Some (temperature config) else None),
      req_top_p = (if en_top_p parameterEnabled then Some (top_p config) else None),
      req_max_tokens = (if en_max_tokens parameterEnabled then Some (max_tokens config) else None),
      req_frequency_penalty =
        (if en_frequency_penalty parameterEnabled then Some (frequency_penalty config) else None),
      req_presence_penalty =
        (if en_presence_penalty parameterEnabled then Some (presence_penalty config) else None),
      req_seed = (if en_seed parameterEnabled \<and> seed config \<noteq> None then seed config else None)\<rparr>"

text \<open>The request as the JSON object that is sent: absent fields are no properties.\<close>

fun role_text :: "MessageRole \<Rightarrow> jsstr" where
  "role_text User = js ''user''"
| "role_text Assistant = js ''assistant''"
| "role_text System = js ''system''"

fun part_json :: "ContentPart \<Rightarrow> jsval" where
  "part_json (TextPart t) =
     JObj ((js ''type'', JStr (js ''text'')) # (case t of Some s \<Rightarrow> [(js ''text'', JStr s)] | None \<Rightarrow> []))"
| "part_json (ImageUrlPart u) =
     JObj [(js ''type'', JStr (js ''image_url'')), (js ''image_url'', JObj [(js ''url'', JStr u)])]"

fun content_json :: "MessageContent \<Rightarrow> jsval" where
  "content_json (ContentText t) = JStr t"
| "content_json (ContentParts ps) = JArr (map part_json ps)"

definition api_message_json :: "ChatCompletionMessage \<Rightarrow> jsval" where
  "api_message_json m =
     JObj [(js ''role'', JStr (role_text (role m))), (js ''content'', content_json (api_content m))]"

definition opt_num :: "char list \<Rightarrow> rat option \<Rightarrow> (jsstr \<times> jsval) list" where
  "opt_num k v = (case v of Some n \<Rightarrow> [(js k, JNum n)] | None \<Rightarrow> [])"

definition request_json :: "ChatCompletionRequest \<Rightarrow> jsval" where
  "request_json r =
     JObj ([(js ''model'', JStr (req_model r))]
       @ (case req_group r of Some g \<Rightarrow> [(js ''group'', JStr g)] | None \<Rightarrow> [])
       @ [(js ''messages'', JArr (map api_message_json (req_messages r))),
          (js ''stream'', JBool (req_stream r))]
       @ opt_num ''temperature'' (req_temperature r) @ opt_num ''top_p'' (req_top_p r)
       @ opt_num ''max_tokens'' (req_max_tokens r)
       @ opt_num ''frequency_penalty'' (req_frequency_penalty r)
       @ opt_num ''presence_penalty'' (req_presence_penalty r) @ opt_num ''seed'' (req_seed r))"

section \<open>Stream events\<close>

abbreviation PARSE_ERROR :: jsstr where "PARSE_ERROR \<equiv> js ''Error parsing response data''"
abbreviation STREAM_START_ERROR :: jsstr where "STREAM_START_ERROR \<equiv> js ''Error establishing connection''"
abbreviation CONNECTION_CLOSED :: jsstr where "CONNECTION_CLOSED \<equiv> js ''Connection closed''"
abbreviation NETWORK_ERROR :: jsstr where
  "NETWORK_ERROR \<equiv> js ''Network connection failed or server not responding''"
abbreviation STREAM_DONE_MESSAGE :: jsstr where "STREAM_DONE_MESSAGE \<equiv> js ''[DONE]''"
abbreviation STREAM_CLOSED_READY_STATE :: int where "STREAM_CLOSED_READY_STATE \<equiv> 2"

text \<open>
  A chunk is any truthy JSON value (the type says string). \<^const>\<open>JUndef\<close> stands for a missing
  error code.
\<close>

record StreamMessageUpdate =
  update_type :: StreamChunkType
  update_chunk :: jsval

record ErrorDetails =
  details_code :: jsval
  details_message :: jsval

definition or_val :: "jsval \<Rightarrow> jsval \<Rightarrow> jsval" where
  "or_val a b = (if truthy a then a else b)"

definition parseStreamErrorDetails :: "jsstr option \<Rightarrow> ErrorDetails" where
  "parseStreamErrorDetails data =
     (let fallback = \<lparr>details_code = JUndef,
                      details_message = JStr (case data of Some d \<Rightarrow> or_str d API_REQUEST_ERROR
                                              | None \<Rightarrow> API_REQUEST_ERROR)\<rparr>
      in case data of
           None \<Rightarrow> fallback
         | Some d \<Rightarrow>
             (if d = [] then fallback
              else case json_parse d of
                     None \<Rightarrow> fallback
                   | Some parsed \<Rightarrow>
                       (let err = opt_prop parsed (js ''error'') in
                        if \<not> truthy err then fallback
                        else \<lparr>details_code = or_val (opt_prop err (js ''code'')) JUndef,
                              details_message =
                                or_val (opt_prop err (js ''message'')) (details_message fallback)\<rparr>)))"

text \<open>\<open>v?.[0]\<close>: the first element of an array or character of a string, or the property \<open>0\<close>.\<close>

definition first_elem :: "jsval \<Rightarrow> jsval" where
  "first_elem v =
     (case v of
        JArr (x # _) \<Rightarrow> x
      | JStr (c # _) \<Rightarrow> JStr [c]
      | JObj kvs \<Rightarrow> opt_prop v (js ''0'')
      | _ \<Rightarrow> JUndef)"

datatype parse_failure = JsonSyntaxError | ReadsNull

definition parseStreamMessageUpdates :: "jsstr \<Rightarrow> parse_failure + StreamMessageUpdate list" where
  "parseStreamMessageUpdates data =
     (case json_parse data of
        None \<Rightarrow> Inl JsonSyntaxError
      | Some chunk \<Rightarrow>
          (case get_prop chunk (js ''choices'') of
             None \<Rightarrow> Inl ReadsNull
           | Some cs \<Rightarrow>
               (let delta = opt_prop (first_elem cs) (js ''delta'') in
                if \<not> truthy delta then Inr []
                else
                  (let r = opt_prop delta (js ''reasoning_content'');
                       c = opt_prop delta (js ''content'')
                   in Inr ((if truthy r then [\<lparr>update_type = ReasoningChunk, update_chunk = r\<rparr>] else [])
                           @ (if truthy c then [\<lparr>update_type = ContentChunk, update_chunk = c\<rparr>] else []))))))"

definition isStreamDoneMessage :: "jsstr \<Rightarrow> bool" where
  "isStreamDoneMessage data \<longleftrightarrow> data = STREAM_DONE_MESSAGE"

definition isStreamClosedReadyState :: "int option \<Rightarrow> bool" where
  "isStreamClosedReadyState readyState \<longleftrightarrow> readyState = Some STREAM_CLOSED_READY_STATE"

definition getStreamReadyStateError :: "int option \<Rightarrow> int option \<Rightarrow> jsstr option" where
  "getStreamReadyStateError eventReadyState source_status =
     (case (eventReadyState, source_status) of
        (Some rs, Some st) \<Rightarrow>
          (if rs \<ge> STREAM_CLOSED_READY_STATE \<and> st \<noteq> 200
           then Some (js ''HTTP '' @ int_text st @ js '': '' @ CONNECTION_CLOSED) else None)
      | _ \<Rightarrow> None)"

definition parseRequestErrorDetails :: "jsval \<Rightarrow> ErrorDetails" where
  "parseRequestErrorDetails err =
     (let data = opt_prop (opt_prop err (js ''response'')) (js ''data'') in
      \<lparr>details_code = or_val (opt_prop (opt_prop data (js ''error'')) (js ''code'')) JUndef,
       details_message =
         or_val (opt_prop data (js ''message''))
           (or_val (opt_prop err (js ''message'')) (JStr API_REQUEST_ERROR))\<rparr>)"

section \<open>Properties of the request\<close>

text \<open>Objects written with literal field names keep the order of their fields.\<close>

definition field_name :: "string \<Rightarrow> bool" where
  "field_name s \<longleftrightarrow> s = [] \<or> \<not> is_digit (of_char (hd s))"

lemma js_not_index: "field_name s \<Longrightarrow> \<not> is_index_key (js s)"
  by (cases s) (auto simp: field_name_def js_def intro!: not_index_key)

lemma field_name_Cons [simp]: "field_name (c # cs) \<longleftrightarrow> \<not> is_digit (of_char c)"
  by (simp add: field_name_def)

lemma obj_of_fields:
  "list_all (\<lambda>k. \<not> is_index_key k) (map fst kvs) \<Longrightarrow> distinct (map fst kvs) \<Longrightarrow> obj_of kvs = kvs"
  using obj_of_id [of kvs] by (simp add: list_all_iff case_prod_beta)

lemmas obj_literal = obj_of_fields js_not_index is_digit_def

lemma json_wf_opt_num [simp]:
  "(case v of Some n \<Rightarrow> decimal n | None \<Rightarrow> True) \<Longrightarrow> kv \<in> set (opt_num k v) \<Longrightarrow> json_wf (snd kv)"
  by (auto simp: opt_num_def split: option.splits)

lemma opt_num_keys: "map fst (opt_num k v) = (case v of Some n \<Rightarrow> [js k] | None \<Rightarrow> [])"
  by (simp add: opt_num_def split: option.splits)

lemma json_wf_api_message: "json_wf (api_message_json (formatMessageForAPI m))"
  by (simp add: api_message_json_def formatMessageForAPI_def obj_literal)

lemma opt_num_mem: "kv \<in> set (opt_num k v) \<longleftrightarrow> (\<exists>n. v = Some n \<and> kv = (js k, JNum n))"
  by (auto simp: opt_num_def split: option.splits)

lemma map_of_opt_num:
  "map_of (opt_num k v) x = (if x = js k then map_option JNum v else None)"
  by (simp add: opt_num_def split: option.splits)

lemma json_wf_request:
  assumes "list_all (\<lambda>v. case v of Some n \<Rightarrow> decimal n | None \<Rightarrow> True)
      [req_temperature r, req_top_p r, req_max_tokens r, req_frequency_penalty r, req_presence_penalty r, req_seed r]"
    and "req_messages r = map formatMessageForAPI ms"
  shows "json_wf (request_json r)"
proof -
  let ?kvs = "[(js ''model'', JStr (req_model r))]
       @ (case req_group r of Some g \<Rightarrow> [(js ''group'', JStr g)] | None \<Rightarrow> [])
       @ [(js ''messages'', JArr (map api_message_json (req_messages r))),
          (js ''stream'', JBool (req_stream r))]
       @ opt_num ''temperature'' (req_temperature r) @ opt_num ''top_p'' (req_top_p r)
       @ opt_num ''max_tokens'' (req_max_tokens r)
       @ opt_num ''frequency_penalty'' (req_frequency_penalty r)
       @ opt_num ''presence_penalty'' (req_presence_penalty r) @ opt_num ''seed'' (req_seed r)"
  have "distinct (map fst ?kvs)"
    by (auto simp: opt_num_keys split: option.splits)
  moreover have "list_all (\<lambda>k. \<not> is_index_key k) (map fst ?kvs)"
    by (auto simp: opt_num_keys js_not_index is_digit_def split: option.splits)
  ultimately have "obj_of ?kvs = ?kvs" by (rule obj_of_fields [rotated])
  moreover have "\<forall>kv \<in> set ?kvs. json_wf (snd kv)"
    using assms by (auto simp: opt_num_mem json_wf_api_message split: option.splits)
  ultimately show ?thesis unfolding request_json_def json_wf.simps by blast
qed

lemma request_json_props:
  "opt_prop (request_json r) (js ''model'') = JStr (req_model r)"
  "opt_prop (request_json r) (js ''stream'') = JBool (req_stream r)"
  "opt_prop (request_json r) (js ''messages'') = JArr (map api_message_json (req_messages r))"
  "opt_prop (request_json r) (js ''temperature'') = (case req_temperature r of Some n \<Rightarrow> JNum n | None \<Rightarrow> JUndef)"
  "opt_prop (request_json r) (js ''top_p'') = (case req_top_p r of Some n \<Rightarrow> JNum n | None \<Rightarrow> JUndef)"
  "opt_prop (request_json r) (js ''max_tokens'') = (case req_max_tokens r of Some n \<Rightarrow> JNum n | None \<Rightarrow> JUndef)"
  "opt_prop (request_json r) (js ''frequency_penalty'') = (case req_frequency_penalty r of Some n \<Rightarrow> JNum n | None \<Rightarrow> JUndef)"
  "opt_prop (request_json r) (js ''presence_penalty'') = (case req_presence_penalty r of Some n \<Rightarrow> JNum n | None \<Rightarrow> JUndef)"
  "opt_prop (request_json r) (js ''seed'') = (case req_seed r of Some n \<Rightarrow> JNum n | None \<Rightarrow> JUndef)"
  by (cases "req_group r"; simp add: request_json_def map_add_def map_of_opt_num split: option.splits)+

definition config_decimal :: "PlaygroundConfig \<Rightarrow> bool" where
  "config_decimal c \<longleftrightarrow> list_all decimal
     [temperature c, top_p c, max_tokens c, frequency_penalty c, presence_penalty c]
     \<and> (case seed c of Some n \<Rightarrow> decimal n | None \<Rightarrow> True)"

text \<open>
  C38: the body of a chat request, read back as JSON, holds the configured model and stream flag,
  the conversation without empty replies (so without the pending reply the request is for) in
  order, and each sampling parameter exactly when it is enabled, a seed only when one is set.
\<close>

theorem request_body_fields:
  assumes "config_decimal cfg"
  shows "\<exists>v. json_parse (stringify (request_json
        (buildChatCompletionPayload (ms @ [createLoadingAssistantMessage n1 n2 now]) cfg en))) = Some v
    \<and> opt_prop v (js ''model'') = JStr (model cfg)
    \<and> opt_prop v (js ''stream'') = JBool (stream cfg)
    \<and> opt_prop v (js ''messages'') =
        JArr (map (\<lambda>m. JObj [(js ''role'', JStr (role_text (msg_from m))), (js ''content'', JStr (getMessageContent m))])
               (filter (\<lambda>m. versions m \<noteq> [] \<and> (if msg_from m = Assistant then hasMessageContent m else True)) ms))
    \<and> opt_prop v (js ''temperature'') = (if en_temperature en then JNum (temperature cfg) else JUndef)
    \<and> opt_prop v (js ''top_p'') = (if en_top_p en then JNum (top_p cfg) else JUndef)
    \<and> opt_prop v (js ''max_tokens'') = (if en_max_tokens en then JNum (max_tokens cfg) else JUndef)
    \<and> opt_prop v (js ''frequency_penalty'') = (if en_frequency_penalty en then JNum (frequency_penalty cfg) else JUndef)
    \<and> opt_prop v (js ''presence_penalty'') = (if en_presence_penalty en then JNum (presence_penalty cfg) else JUndef)
    \<and> opt_prop v (js ''seed'') =
        (case (en_seed en, seed cfg) of (True, Some n) \<Rightarrow> JNum n | _ \<Rightarrow> JUndef)"
proof -
  let ?l = "createLoadingAssistantMessage n1 n2 now"
  let ?r = "buildChatCompletionPayload (ms @ [?l]) cfg en"
  have l: "\<not> isValidMessage ?l" by (simp add: isValidMessage_def hasMessageContent_def)
  have v: "isValidMessage = (\<lambda>m. versions m \<noteq> [] \<and> (if msg_from m = Assistant then hasMessageContent m else True))"
    by (rule ext) (simp add: isValidMessage_def)
  have "json_wf (request_json ?r)"
    using assms by (intro json_wf_request [where ms = "filter isValidMessage (ms @ [?l])"])
      (auto simp: buildChatCompletionPayload_def config_decimal_def split: option.splits)
  then have "json_parse (stringify (request_json ?r)) = Some (request_json ?r)" by (rule json.dec_enc)
  moreover have "map api_message_json (req_messages ?r) =
      map (\<lambda>m. JObj [(js ''role'', JStr (role_text (msg_from m))), (js ''content'', JStr (getMessageContent m))])
        (filter isValidMessage ms)"
    using l by (simp add: buildChatCompletionPayload_def api_message_json_def formatMessageForAPI_def getMessageContent_def)
  ultimately show ?thesis
    unfolding v
    by (simp add: request_json_props) (simp add: buildChatCompletionPayload_def split: option.splits bool.splits)
qed

lemma config_decimal_default: "config_decimal DEFAULT_CONFIG"
  by (simp add: config_decimal_def DEFAULT_CONFIG_def) code_simp

theorem request_body_fields_witness:
  "\<exists>v. json_parse (stringify (request_json
        (buildChatCompletionPayload
           (appendUserMessagePair [] (js ''hi'') (js ''a'') (js ''b'') (js ''c'') (js ''d'') 5)
           DEFAULT_CONFIG DEFAULT_PARAMETER_ENABLED))) = Some v
    \<and> opt_prop v (js ''temperature'') = JNum (7 / 10) \<and> opt_prop v (js ''max_tokens'') = JUndef"
  using request_body_fields [OF config_decimal_default, of "[createUserMessage (js ''a'') (js ''b'') (js ''hi'') 5]"
      "js ''c''" "js ''d''" 5 DEFAULT_PARAMETER_ENABLED]
  by (auto simp: appendUserMessagePair_def DEFAULT_CONFIG_def DEFAULT_PARAMETER_ENABLED_def)

section \<open>Properties of the response\<close>

text \<open>
  A stream event whose data is a well-formed completion chunk yields its reasoning text and
  then its content text, each when present and not empty, and nothing else of the chunk matters.
\<close>

theorem chunk_updates:
  assumes "json_wf (JObj kvs)"
    and "map_of kvs (js ''choices'') = Some (JArr (JObj ch # rest))"
    and "map_of ch (js ''delta'') = Some (JObj d)"
  shows "parseStreamMessageUpdates (stringify (JObj kvs)) =
    Inr ((case map_of d (js ''reasoning_content'') of
            Some r \<Rightarrow> (if truthy r then [\<lparr>update_type = ReasoningChunk, update_chunk = r\<rparr>] else [])
          | None \<Rightarrow> [])
       @ (case map_of d (js ''content'') of
            Some c \<Rightarrow> (if truthy c then [\<lparr>update_type = ContentChunk, update_chunk = c\<rparr>] else [])
          | None \<Rightarrow> []))"
  using assms json.dec_enc [OF assms(1)]
  by (simp add: parseStreamMessageUpdates_def get_prop_def first_elem_def Let_def split: option.splits)

theorem chunk_updates_witness:
  "parseStreamMessageUpdates
     (stringify (JObj [(js ''choices'', JArr [JObj [(js ''delta'', JObj [(js ''content'', JStr (js ''hi''))])]])]))
   = Inr [\<lparr>update_type = ContentChunk, update_chunk = JStr (js ''hi'')\<rparr>]"
proof -
  let ?kvs = "[(js ''choices'', JArr [JObj [(js ''delta'', JObj [(js ''content'', JStr (js ''hi''))])]])]"
  have 1: "json_wf (JObj ?kvs)" by (simp add: obj_literal)
  have 2: "map_of ?kvs (js ''choices'') = Some (JArr (JObj [(js ''delta'', JObj [(js ''content'', JStr (js ''hi''))])] # []))"
    by simp
  have 3: "map_of [(js ''delta'', JObj [(js ''content'', JStr (js ''hi''))])] (js ''delta'')
      = Some (JObj [(js ''content'', JStr (js ''hi''))])" by simp
  from chunk_updates [OF 1 2 3] show ?thesis by simp
qed

text \<open>
  Whatever the server answers, the details of a stream error and of a failed request carry a
  message that is not empty, and an error code that is missing or not empty; without a structured
  error the message of a stream error is the raw data, or the generic text when there is none.
\<close>

theorem error_details_never_empty:
  "truthy (details_message (parseStreamErrorDetails data))
   \<and> truthy (details_message (parseRequestErrorDetails err))
   \<and> (details_code (parseStreamErrorDetails data) = JUndef \<or> truthy (details_code (parseStreamErrorDetails data)))
   \<and> (details_code (parseRequestErrorDetails err) = JUndef \<or> truthy (details_code (parseRequestErrorDetails err)))
   \<and> (case data of
        None \<Rightarrow> details_message (parseStreamErrorDetails data) = JStr API_REQUEST_ERROR
      | Some d \<Rightarrow>
          (case json_parse d of
             None \<Rightarrow> details_message (parseStreamErrorDetails data) = JStr (if d = [] then API_REQUEST_ERROR else d)
           | Some _ \<Rightarrow> True))"
  by (auto simp: parseStreamErrorDetails_def parseRequestErrorDetails_def Let_def or_val_def or_str_def
      split: option.splits)

end
