(* ===== verification/ChatSession.thy ===== *)
theory ChatSession
  imports StreamProtocol
begin

text \<open>
  The running playground (\<open>hooks/use-stream-request.ts\<close>, \<open>hooks/use-chat-handler.ts\<close>,
  \<open>hooks/use-playground-conversation.ts\<close>): the refs and React states of the three hooks as one
  record, one definition per callback, and the step relation of the events that drive them.

  A stream source (\<open>new SSE\<close>) and a request of the HTTP client are represented by numbers. Every
  event is handled to its end before the next one and sees the state the previous one left, as
  React's event handlers do. The clock readings and fresh identifiers an event needs come with
  it. The server data are arbitrary. A callback returns the exception that escapes from it, if
  any, with the state it leaves.
\<close>

section \<open>State\<close>

record Session =
  s_config :: PlaygroundConfig
  s_params :: ParameterEnabled
  s_messages :: "Message list"
  editingMessageKey :: "jsstr option"
  sseSource :: "nat option"
  nextSource :: nat
  closedSources :: "nat list"
  isStreamComplete :: bool
  isStreaming :: bool
  isRequesting :: bool
  requestId :: nat
  abortController :: "nat option"
  abortedRequests :: "nat list"
  inFlight :: "nat list"
  pendingContent :: jsstr
  pendingReasoning :: jsstr
  flushTimer :: bool
  sentRequests :: "ChatCompletionRequest list"

abbreviation isGenerating :: "Session \<Rightarrow> bool" where
  "isGenerating s \<equiv> isStreaming s \<or> isRequesting s"

text \<open>What an event brings along: clock readings, fresh identifiers, whether the connection starts.\<close>

record StepEnv =
  clk :: "nat \<Rightarrow> rat"
  ids :: "nat \<Rightarrow> jsstr"
  startFails :: bool

type_synonym outcome = "js_error option \<times> Session"

section \<open>Buffered stream updates\<close>

definition mergePendingStreamChunk :: "jsstr \<Rightarrow> jsval \<Rightarrow> js_error + jsstr" where
  "mergePendingStreamChunk currentChunk nextChunk =
     (if currentChunk = []
      then (case to_text nextChunk of Some t \<Rightarrow> Inr t | None \<Rightarrow> Inl TypeError)
      else case nextChunk of
             JStr t \<Rightarrow> Inr (if \<not> startsWith t currentChunk then currentChunk @ t else t)
           | _ \<Rightarrow> Inl TypeError)"

definition flush_updater :: "(nat \<Rightarrow> rat) \<Rightarrow> jsstr \<Rightarrow> jsstr \<Rightarrow> Message \<Rightarrow> Message" where
  "flush_updater c r t m =
     (let m1 = (if r \<noteq> [] then applyStreamingChunk (c 0) (c 1) m ReasoningChunk r else m)
      in if t \<noteq> [] then applyStreamingChunk (c 2) (c 3) m1 ContentChunk t else m1)"

definition flushStreamUpdates :: "(nat \<Rightarrow> rat) \<Rightarrow> Session \<Rightarrow> Session" where
  "flushStreamUpdates c s =
     (let s1 = s\<lparr>flushTimer := False\<rparr>;
          r = pendingReasoning s; t = pendingContent s
      in if r = [] \<and> t = [] then s1
         else s1\<lparr>pendingContent := [], pendingReasoning := [],
                 s_messages := updateLastAssistantMessage (s_messages s) (flush_updater c r t)\<rparr>)"

definition scheduleStreamFlush :: "Session \<Rightarrow> Session" where
  "scheduleStreamFlush s = (if flushTimer s then s else s\<lparr>flushTimer := True\<rparr>)"

definition handleStreamUpdate :: "StreamMessageUpdate \<Rightarrow> Session \<Rightarrow> outcome" where
  "handleStreamUpdate u s =
     (case update_type u of
        ReasoningChunk \<Rightarrow>
          (case mergePendingStreamChunk (pendingReasoning s) (update_chunk u) of
             Inl e \<Rightarrow> (Some e, s)
           | Inr t \<Rightarrow> (None, scheduleStreamFlush (s\<lparr>pendingReasoning := t\<rparr>)))
      | ContentChunk \<Rightarrow>
          (case mergePendingStreamChunk (pendingContent s) (update_chunk u) of
             Inl e \<Rightarrow> (Some e, s)
           | Inr t \<Rightarrow> (None, scheduleStreamFlush (s\<lparr>pendingContent := t\<rparr>))))"

fun handle_updates :: "StreamMessageUpdate list \<Rightarrow> Session \<Rightarrow> outcome" where
  "handle_updates [] s = (None, s)"
| "handle_updates (u # us) s =
     (case handleStreamUpdate u s of
        (Some e, s') \<Rightarrow> (Some e, s')
      | (None, s') \<Rightarrow> handle_updates us s')"

section \<open>End of a reply\<close>

definition KNOWN_ERROR_MESSAGES :: "jsstr list" where
  "KNOWN_ERROR_MESSAGES =
     [API_REQUEST_ERROR, NETWORK_ERROR, PARSE_ERROR, STREAM_START_ERROR, CONNECTION_CLOSED, INTERRUPTED]"

definition getDisplayError :: "(jsstr \<Rightarrow> jsstr) \<Rightarrow> jsval \<Rightarrow> js_error + jsstr" where
  "getDisplayError tr err =
     (case err of
        JStr e \<Rightarrow>
          Inr (if e \<in> set KNOWN_ERROR_MESSAGES then tr e
               else if endsWith e (js '': '' @ CONNECTION_CLOSED)
               then take (length e - length CONNECTION_CLOSED) e @ tr CONNECTION_CLOSED
               else e)
      | _ \<Rightarrow> Inl TypeError)"

definition complete_updater :: "(nat \<Rightarrow> rat) \<Rightarrow> Message \<Rightarrow> Message" where
  "complete_updater c m =
     (if isAssistantMessageFinal m then m else completeAssistantMessage (c 4) (c 5) (c 6) m)"

definition handleStreamComplete :: "(nat \<Rightarrow> rat) \<Rightarrow> Session \<Rightarrow> Session" where
  "handleStreamComplete c s =
     (let s1 = (flushStreamUpdates c s)\<lparr>isRequesting := False\<rparr> in
      s1\<lparr>s_messages := updateLastAssistantMessage (s_messages s1) (complete_updater c)\<rparr>)"

text \<open>
  A message stores its error code as a string; a code that is not a string has no
  representation there and counts as missing.
\<close>

definition code_text :: "jsval \<Rightarrow> jsstr option" where
  "code_text v = (case v of JStr s \<Rightarrow> Some s | _ \<Rightarrow> None)"

definition handleStreamError ::
    "(jsstr \<Rightarrow> jsstr) \<Rightarrow> (nat \<Rightarrow> rat) \<Rightarrow> jsval \<Rightarrow> jsval \<Rightarrow> Session \<Rightarrow> outcome" where
  "handleStreamError tr c err code s =
     (let s1 = (flushStreamUpdates c s)\<lparr>isRequesting := False\<rparr> in
      case getDisplayError tr err of
        Inl e \<Rightarrow> (Some e, s1)
      | Inr displayError \<Rightarrow>
          (None, s1\<lparr>s_messages := updateAssistantMessageWithError (c 4) (s_messages s1) displayError
                      (code_text code) (tr API_REQUEST_ERROR)\<rparr>))"

section \<open>Stream sources\<close>

definition close_source :: "nat option \<Rightarrow> Session \<Rightarrow> Session" where
  "close_source src s = (case src of None \<Rightarrow> s | Some i \<Rightarrow> s\<lparr>closedSources := i # closedSources s\<rparr>)"

definition closeActiveStream :: "nat option \<Rightarrow> Session \<Rightarrow> Session" where
  "closeActiveStream source s =
     (let s1 = close_source (case source of Some i \<Rightarrow> Some i | None \<Rightarrow> sseSource s) s in
      if source = None \<or> sseSource s1 = source
      then s1\<lparr>sseSource := None, isStreaming := False\<rparr> else s1)"

definition stopStream :: "Session \<Rightarrow> Session" where
  "stopStream s = closeActiveStream None s"

text \<open>The closure \<open>handleError\<close> of a source.\<close>

definition handleError ::
    "(jsstr \<Rightarrow> jsstr) \<Rightarrow> (nat \<Rightarrow> rat) \<Rightarrow> nat \<Rightarrow> jsval \<Rightarrow> jsval \<Rightarrow> Session \<Rightarrow> outcome" where
  "handleError tr c source err code s =
     (if isStreamComplete s then (None, s)
      else case handleStreamError tr c err code s of
             (Some e, s') \<Rightarrow> (Some e, s')
           | (None, s') \<Rightarrow> (None, closeActiveStream (Some source) s'))"

definition on_message :: "(jsstr \<Rightarrow> jsstr) \<Rightarrow> (nat \<Rightarrow> rat) \<Rightarrow> nat \<Rightarrow> jsstr \<Rightarrow> Session \<Rightarrow> outcome" where
  "on_message tr c source data s =
     (if isStreamDoneMessage data
      then (None, handleStreamComplete c (closeActiveStream (Some source) (s\<lparr>isStreamComplete := True\<rparr>)))
      else case parseStreamMessageUpdates data of
             Inl _ \<Rightarrow> handleError tr c source (JStr PARSE_ERROR) JUndef s
           | Inr updates \<Rightarrow>
               (case handle_updates updates s of
                  (None, s') \<Rightarrow> (None, s')
                | (Some _, s') \<Rightarrow> handleError tr c source (JStr PARSE_ERROR) JUndef s'))"

definition on_error ::
    "(jsstr \<Rightarrow> jsstr) \<Rightarrow> (nat \<Rightarrow> rat) \<Rightarrow> nat \<Rightarrow> jsstr option \<Rightarrow> int option \<Rightarrow> Session \<Rightarrow> outcome" where
  "on_error tr c source data readyState s =
     (if isStreamClosedReadyState readyState then (None, s)
      else (let d = parseStreamErrorDetails data
            in handleError tr c source (details_message d) (details_code d) s))"

definition on_readystatechange ::
    "(jsstr \<Rightarrow> jsstr) \<Rightarrow> (nat \<Rightarrow> rat) \<Rightarrow> nat \<Rightarrow> int option \<Rightarrow> int option \<Rightarrow> Session \<Rightarrow> outcome" where
  "on_readystatechange tr c source eventReadyState source_status s =
     (case getStreamReadyStateError eventReadyState source_status of
        None \<Rightarrow> (None, s)
      | Some msg \<Rightarrow> (if msg = [] then (None, s) else handleError tr c source (JStr msg) JUndef s))"

text \<open>Closing the old source and installing the new one, before \<open>source.stream()\<close>.\<close>

definition start_source :: "ChatCompletionRequest \<Rightarrow> Session \<Rightarrow> Session" where
  "start_source payload s =
     (close_source (sseSource s) s)
       \<lparr>sseSource := Some (nextSource s), nextSource := Suc (nextSource s), isStreamComplete := False,
        isStreaming := True, sentRequests := sentRequests s @ [payload]\<rparr>"

definition sendStreamRequest ::
    "(jsstr \<Rightarrow> jsstr) \<Rightarrow> StepEnv \<Rightarrow> ChatCompletionRequest \<Rightarrow> Session \<Rightarrow> outcome" where
  "sendStreamRequest tr env payload s =
     (if \<not> startFails env then (None, start_source payload s)
      else case handleStreamError tr (clk env) (JStr STREAM_START_ERROR) JUndef (start_source payload s) of
             (Some e, s2) \<Rightarrow> (Some e, s2)
           | (None, s2) \<Rightarrow> (None, closeActiveStream (Some (nextSource s)) s2))"

section \<open>Requests\<close>

definition sendStreamingChat :: "(jsstr \<Rightarrow> jsstr) \<Rightarrow> StepEnv \<Rightarrow> Message list \<Rightarrow> Session \<Rightarrow> outcome" where
  "sendStreamingChat tr env messages s =
     sendStreamRequest tr env (buildChatCompletionPayload messages (s_config s) (s_params s))
       (s\<lparr>isRequesting := True\<rparr>)"

text \<open>The part of \<open>sendNonStreamingChat\<close> before its \<open>await\<close>, and the rest in \<open>receive_response\<close>.\<close>

definition sendNonStreamingChat :: "Message list \<Rightarrow> Session \<Rightarrow> Session" where
  "sendNonStreamingChat messages s =
     (let payload = buildChatCompletionPayload messages (s_config s) (s_params s);
          rid = requestId s + 1
      in s\<lparr>requestId := rid, abortController := Some rid, isRequesting := True,
           inFlight := rid # inFlight s, sentRequests := sentRequests s @ [payload]\<rparr>)"

datatype reply = Replied ChatCompletionResponse | Failed jsval

definition finally_request :: "nat \<Rightarrow> Session \<Rightarrow> Session" where
  "finally_request rid s =
     (if requestId s = rid then s\<lparr>abortController := None, isRequesting := False\<rparr> else s)"

definition response_updater :: "(nat \<Rightarrow> rat) \<Rightarrow> ChatCompletionResponse \<Rightarrow> Message \<Rightarrow> Message" where
  "response_updater c response m =
     (case applyChatCompletionResponse (c 0) (c 1) (c 2) m response of Some m' \<Rightarrow> m' | None \<Rightarrow> m)"

definition settle_request :: "nat \<Rightarrow> Session \<Rightarrow> Session" where
  "settle_request rid s = s\<lparr>inFlight := filter (\<lambda>i. i \<noteq> rid) (inFlight s)\<rparr>"

definition receive_response ::
    "(jsstr \<Rightarrow> jsstr) \<Rightarrow> (nat \<Rightarrow> rat) \<Rightarrow> nat \<Rightarrow> reply \<Rightarrow> Session \<Rightarrow> outcome" where
  "receive_response tr c rid rep s =
     (let s1 = settle_request rid s;
          (e, s2) =
            (if rid \<in> set (abortedRequests s) then (None, s1)
             else case rep of
                    Replied response \<Rightarrow>
                      (if \<not> hasChatCompletionChoice response
                       then handleStreamError tr c (JStr API_REQUEST_ERROR) JUndef s1
                       else (None, s1\<lparr>s_messages := updateLastAssistantMessage (s_messages s1)
                              (response_updater c response)\<rparr>))
                  | Failed err \<Rightarrow>
                      (let d = parseRequestErrorDetails err
                       in handleStreamError tr c (details_message d) (details_code d) s1))
      in (e, finally_request rid s2))"

definition sendChat :: "(jsstr \<Rightarrow> jsstr) \<Rightarrow> StepEnv \<Rightarrow> Message list \<Rightarrow> Session \<Rightarrow> outcome" where
  "sendChat tr env messages s =
     (if stream (s_config s) then sendStreamingChat tr env messages s
      else (None, sendNonStreamingChat messages s))"

definition stop_updater :: "(nat \<Rightarrow> rat) \<Rightarrow> Message \<Rightarrow> Message" where
  "stop_updater c m =
     (if isAssistantMessagePending m then completeAssistantMessage (c 4) (c 5) (c 6) m else m)"

definition stopGeneration :: "(nat \<Rightarrow> rat) \<Rightarrow> Session \<Rightarrow> Session" where
  "stopGeneration c s =
     (let s1 = flushStreamUpdates c (stopStream s);
          s2 = (case abortController s1 of
                  None \<Rightarrow> s1
                | Some rid \<Rightarrow> s1\<lparr>abortedRequests := rid # abortedRequests s1\<rparr>)
                 \<lparr>abortController := None, isRequesting := False\<rparr>
      in s2\<lparr>s_messages := updateLastAssistantMessage (s_messages s2) (stop_updater c)\<rparr>)"

section \<open>Conversation handlers\<close>

definition handleSendMessage :: "(jsstr \<Rightarrow> jsstr) \<Rightarrow> StepEnv \<Rightarrow> jsstr \<Rightarrow> Session \<Rightarrow> outcome" where
  "handleSendMessage tr env txt s =
     (let nextMessages = appendUserMessagePair (s_messages s) txt
            (ids env 0) (ids env 1) (ids env 2) (ids env 3) (clk env 7)
      in sendChat tr env nextMessages (s\<lparr>s_messages := nextMessages\<rparr>))"

definition handleRegenerateMessage :: "(jsstr \<Rightarrow> jsstr) \<Rightarrow> StepEnv \<Rightarrow> jsstr \<Rightarrow> Session \<Rightarrow> outcome" where
  "handleRegenerateMessage tr env key s =
     (case createRegeneratedMessages (s_messages s) key (ids env 0) (ids env 1) (clk env 7) of
        None \<Rightarrow> (None, s)
      | Some nextMessages \<Rightarrow> sendChat tr env nextMessages (s\<lparr>s_messages := nextMessages\<rparr>))"

definition handleEditMessage :: "jsstr \<Rightarrow> Session \<Rightarrow> Session" where
  "handleEditMessage key s = s\<lparr>editingMessageKey := Some key\<rparr>"

definition handleEditOpenChange :: "bool \<Rightarrow> Session \<Rightarrow> Session" where
  "handleEditOpenChange is_open s = (if \<not> is_open then s\<lparr>editingMessageKey := None\<rparr> else s)"

definition applyEdit :: "(jsstr \<Rightarrow> jsstr) \<Rightarrow> StepEnv \<Rightarrow> jsstr \<Rightarrow> bool \<Rightarrow> Session \<Rightarrow> outcome" where
  "applyEdit tr env newContent shouldSubmit s =
     (case editingMessageKey s of
        None \<Rightarrow> (None, s)
      | Some key \<Rightarrow>
          (if key = [] then (None, s)
           else case applyMessageEdit (s_messages s) key newContent shouldSubmit
                       (ids env 0) (ids env 1) (clk env 7) of
                  None \<Rightarrow> (None, s)
                | Some res \<Rightarrow>
                    (let s1 = s\<lparr>editingMessageKey := None, s_messages := edit_messages res\<rparr>
                     in if shouldSend res then sendChat tr env (edit_messages res) s1 else (None, s1))))"

definition handleDeleteMessage :: "jsstr \<Rightarrow> Session \<Rightarrow> Session" where
  "handleDeleteMessage key s = s\<lparr>s_messages := removeMessageByKey (s_messages s) key\<rparr>"

definition handleClearMessages :: "Session \<Rightarrow> Session" where
  "handleClearMessages s = (handleEditOpenChange False s)\<lparr>s_messages := []\<rparr>"

section \<open>Events\<close>

datatype event =
    StreamData nat jsstr
  | StreamFailure nat "jsstr option" "int option"
  | ReadyState nat "int option" "int option"
  | FlushTimeout
  | Response nat reply
  | Submit jsstr
  | RegenerateKey jsstr
  | StartEdit jsstr
  | EditOpenChange bool
  | ApplyEdit jsstr bool
  | DeleteKey jsstr
  | ClearAll
  | Stop
  | Configure PlaygroundConfig ParameterEnabled

fun run :: "(jsstr \<Rightarrow> jsstr) \<Rightarrow> StepEnv \<Rightarrow> event \<Rightarrow> Session \<Rightarrow> outcome" where
  "run tr env (StreamData i d) s = on_message tr (clk env) i d s"
| "run tr env (StreamFailure i d r) s = on_error tr (clk env) i d r s"
| "run tr env (ReadyState i r st) s = on_readystatechange tr (clk env) i r st s"
| "run tr env FlushTimeout s = (None, flushStreamUpdates (clk env) s)"
| "run tr env (Response rid rep) s = receive_response tr (clk env) rid rep s"
| "run tr env (Submit txt) s = handleSendMessage tr env txt s"
| "run tr env (RegenerateKey k) s = handleRegenerateMessage tr env k s"
| "run tr env (StartEdit k) s = (None, handleEditMessage k s)"
| "run tr env (EditOpenChange b) s = (None, handleEditOpenChange b s)"
| "run tr env (ApplyEdit txt b) s = applyEdit tr env txt b s"
| "run tr env (DeleteKey k) s = (None, handleDeleteMessage k s)"
| "run tr env ClearAll s = (None, handleClearMessages s)"
| "run tr env Stop s = (None, stopGeneration (clk env) s)"
| "run tr env (Configure cfg par) s = (None, s\<lparr>s_config := cfg, s_params := par\<rparr>)"

definition fresh_ids :: "StepEnv \<Rightarrow> Session \<Rightarrow> bool" where
  "fresh_ids env s \<longleftrightarrow> ids env 0 \<noteq> ids env 2
     \<and> ids env 0 \<notin> msg_key ` set (s_messages s) \<and> ids env 2 \<notin> msg_key ` set (s_messages s)"

definition is_string :: "jsval \<Rightarrow> bool" where
  "is_string v = (case v of JStr _ \<Rightarrow> True | _ \<Rightarrow> False)"

text \<open>
  When an event can happen. A closed source delivers no more data (its error and ready-state
  events are not restricted), a request answers once, the message of an error is a string as its
  type says, identifiers are fresh; the buttons of the page that start a generation or change the
  conversation are disabled while one runs, except the message editor.
\<close>

fun enabled :: "StepEnv \<Rightarrow> event \<Rightarrow> Session \<Rightarrow> bool" where
  "enabled env (StreamData i d) s \<longleftrightarrow> i < nextSource s \<and> i \<notin> set (closedSources s)"
| "enabled env (StreamFailure i d r) s \<longleftrightarrow>
     i < nextSource s \<and> is_string (details_message (parseStreamErrorDetails d))"
| "enabled env (ReadyState i r st) s \<longleftrightarrow> i < nextSource s"
| "enabled env FlushTimeout s \<longleftrightarrow> flushTimer s"
| "enabled env (Response rid rep) s \<longleftrightarrow> rid \<in> set (inFlight s)
     \<and> (case rep of Replied _ \<Rightarrow> True | Failed err \<Rightarrow> is_string (details_message (parseRequestErrorDetails err)))"
| "enabled env (Submit txt) s \<longleftrightarrow> getSubmittableInputText (Some txt) (isGenerating s) \<noteq> None \<and> fresh_ids env s"
| "enabled env (RegenerateKey k) s \<longleftrightarrow> \<not> isGenerating s \<and> fresh_ids env s"
| "enabled env (StartEdit k) s \<longleftrightarrow> \<not> isGenerating s"
| "enabled env (EditOpenChange b) s \<longleftrightarrow> True"
| "enabled env (ApplyEdit txt b) s \<longleftrightarrow> fresh_ids env s"
| "enabled env (DeleteKey k) s \<longleftrightarrow> \<not> isGenerating s"
| "enabled env ClearAll s \<longleftrightarrow> \<not> isGenerating s"
| "enabled env Stop s \<longleftrightarrow> True"
| "enabled env (Configure cfg par) s \<longleftrightarrow> True"

definition initial_session :: "PlaygroundConfig \<Rightarrow> ParameterEnabled \<Rightarrow> Message list \<Rightarrow> Session" where
  "initial_session cfg par ms =
     \<lparr>s_config = cfg, s_params = par, s_messages = ms, editingMessageKey = None, sseSource = None,
      nextSource = 0, closedSources = [], isStreamComplete = False, isStreaming = False,
      isRequesting = False, requestId = 0, abortController = None, abortedRequests = [], inFlight = [],
      pendingContent = [], pendingReasoning = [], flushTimer = False, sentRequests = []\<rparr>"

definition last_pending :: "Message list \<Rightarrow> bool" where
  "last_pending ms \<longleftrightarrow> ms \<noteq> [] \<and> pending_reply (last ms)"

inductive reachable :: "(jsstr \<Rightarrow> jsstr) \<Rightarrow> Session \<Rightarrow> bool" for tr where
  start: "conv_wf ms \<Longrightarrow> \<not> last_pending ms \<Longrightarrow> reachable tr (initial_session cfg par ms)"
| step: "reachable tr s \<Longrightarrow> enabled env ev s \<Longrightarrow> reachable tr (snd (run tr env ev s))"

end
