(* ===== verification/SessionProperties.thy ===== *)
theory SessionProperties
  imports SessionInvariants
begin

text \<open>
  What the invariant of the running playground means for its user: no reply is left pending when
  nothing runs, a running generation can always end, stopping stops, a stream delivers its text
  for every schedule of the flush timer, a stream error ends the generation. Two statements show
  where text of an older generation reaches the newer reply.
\<close>

section \<open>Consequences of the invariant\<close>

text \<open>
  C1: in every reachable state of the playground in which nothing is being generated, no message
  is a pending reply, no text waits in the stream buffer, no stream is open, and the keys of the
  messages are distinct.
\<close>

theorem idle_playground_is_settled:
  assumes "reachable tr s" "\<not> isGenerating s"
  shows "list_all (\<lambda>m. \<not> pending_reply m) (s_messages s) \<and> list_all msg_wf (s_messages s)
    \<and> pendingContent s = [] \<and> pendingReasoning s = [] \<and> sseSource s = None
    \<and> distinct (map msg_key (s_messages s))"
proof -
  have inv: "session_inv s" by (rule reachable_inv [OF assms(1)])
  have "list_all (\<lambda>m. \<not> pending_reply m) (s_messages s)"
    using inv assms(2) by (intro conv_wf_no_pending) (auto simp: session_inv_def busy_inv_def last_pending_def)
  moreover have "sseSource s = None" using inv assms(2) by (simp add: session_inv_def source_inv_def)
  moreover from this have "pendingContent s = []" "pendingReasoning s = []"
    using inv by (auto simp: session_inv_def buffer_inv_def)
  ultimately show ?thesis using inv by (simp add: session_inv_def conv_wf_def)
qed

lemma initial_reachable: "reachable tr (initial_session cfg par [])"
  by (rule start) (simp_all add: conv_wf_def last_pending_def)

theorem idle_playground_is_settled_witness:
  "distinct (map msg_key (s_messages (initial_session DEFAULT_CONFIG DEFAULT_PARAMETER_ENABLED [])))"
proof -
  have "\<not> isGenerating (initial_session DEFAULT_CONFIG DEFAULT_PARAMETER_ENABLED [])"
    by (simp add: initial_session_def)
  from idle_playground_is_settled [OF initial_reachable [of "\<lambda>x. x"] this] show ?thesis by blast
qed

lemma stop_frame:
  "sseSource (stopGeneration c s) = None" "isStreaming (stopGeneration c s) = False"
  "isRequesting (stopGeneration c s) = False" "flushTimer (stopGeneration c s) = False"
  "pendingContent (stopGeneration c s) = []" "pendingReasoning (stopGeneration c s) = []"
  "abortedRequests (stopGeneration c s) =
     (case abortController s of None \<Rightarrow> [] | Some i \<Rightarrow> [i]) @ abortedRequests s"
  by (simp_all add: stopGeneration_def stopStream_def closeActiveStream_def close_source_def Let_def split: option.splits)

lemma stop_messages:
  "s_messages (stopGeneration c s) =
     updateLastAssistantMessage (s_messages (flushStreamUpdates c (stopStream s))) (stop_updater c)"
  by (simp add: stopGeneration_def Let_def split: option.splits)

lemma stopStream_frame [simp]:
  "s_messages (stopStream s) = s_messages s" "pendingContent (stopStream s) = pendingContent s"
  "pendingReasoning (stopStream s) = pendingReasoning s"
  by (simp_all add: stopStream_def closeActiveStream_def close_source_def Let_def split: option.splits)

lemma flush_butlast: "butlast (s_messages (flushStreamUpdates c s)) = butlast (s_messages s)"
  by (simp add: flush_messages flush.update_butlast)

lemma aborted_response_messages:
  "rid \<in> set (abortedRequests s) \<Longrightarrow> s_messages (snd (receive_response tr c rid rep s)) = s_messages s"
  by (simp add: receive_response_def settle_request_def finally_request_def Let_def)

text \<open>
  C3: stopping works in every reachable state: nothing is generating afterwards, the stream is
  closed, the flush timer and the buffers are empty, no reply is pending, all earlier messages are
  as before, and the answer to the stopped request, whenever it comes, changes no message.
\<close>

theorem stop_stops:
  assumes "reachable tr s"
  shows "let s' = stopGeneration c s in
    \<not> isGenerating s' \<and> sseSource s' = None \<and> \<not> flushTimer s'
    \<and> pendingContent s' = [] \<and> pendingReasoning s' = []
    \<and> list_all (\<lambda>m. \<not> pending_reply m) (s_messages s')
    \<and> butlast (s_messages s') = butlast (s_messages s)
    \<and> (case abortController s of
         None \<Rightarrow> True
       | Some rid \<Rightarrow> s_messages (snd (receive_response tr c' rid rep s')) = s_messages s')"
proof -
  let ?t = "stopGeneration c s"
  have inv: "session_inv ?t" by (rule stop_inv [OF reachable_inv [OF assms]])
  have "list_all (\<lambda>m. \<not> pending_reply m) (s_messages ?t)"
    using inv stop_frame by (intro conv_wf_no_pending) (auto simp: session_inv_def busy_inv_def last_pending_def)
  moreover have "butlast (s_messages ?t) = butlast (s_messages s)"
    by (simp add: stop_messages stop.update_butlast flush_butlast)
  moreover have "case abortController s of None \<Rightarrow> True
      | Some rid \<Rightarrow> s_messages (snd (receive_response tr c' rid rep ?t)) = s_messages ?t"
    by (auto simp: stop_frame intro!: aborted_response_messages split: option.splits)
  ultimately show ?thesis by (simp add: stop_frame Let_def)
qed

theorem stop_stops_witness:
  "\<not> isGenerating (stopGeneration (\<lambda>_. 1) (initial_session DEFAULT_CONFIG DEFAULT_PARAMETER_ENABLED []))"
  using stop_stops [OF initial_reachable [of "\<lambda>x. x" DEFAULT_CONFIG DEFAULT_PARAMETER_ENABLED], of "\<lambda>_. 1"]
  by (simp add: Let_def)

lemma complete_idle:
  "sseSource s = Some i \<Longrightarrow> \<not> isGenerating (snd (on_message tr c i STREAM_DONE_MESSAGE s))"
  by (simp add: on_message_def isStreamDoneMessage_def handleStreamComplete_def close_source_fields)

lemma answer_idle:
  "isStreaming s = False \<Longrightarrow> requestId s \<notin> set (abortedRequests s) \<Longrightarrow> hasChatCompletionChoice resp \<Longrightarrow>
     \<not> isGenerating (snd (receive_response tr c (requestId s) (Replied resp) s))"
  by (simp add: receive_response_def settle_request_def finally_request_def Let_def)

text \<open>
  C4: a running generation can always end: in every reachable state that is busy, the end of the
  open stream or the answer to the current request is a possible event and leaves the playground
  idle, for every answer with a choice.
\<close>

theorem busy_playground_can_finish:
  assumes "reachable tr s" "isGenerating s" "hasChatCompletionChoice resp"
  shows "case sseSource s of
      Some i \<Rightarrow> enabled env (StreamData i STREAM_DONE_MESSAGE) s
        \<and> \<not> isGenerating (snd (run tr env (StreamData i STREAM_DONE_MESSAGE) s))
    | None \<Rightarrow> enabled env (Response (requestId s) (Replied resp)) s
        \<and> \<not> isGenerating (snd (run tr env (Response (requestId s) (Replied resp)) s))"
proof -
  have inv: "session_inv s" by (rule reachable_inv [OF assms(1)])
  show ?thesis
  proof (cases "sseSource s")
    case (Some i)
    have "i < nextSource s" "i \<notin> set (closedSources s)"
      using inv Some unfolding session_inv_def source_inv_def by blast+
    then show ?thesis
      using complete_idle [OF Some, of tr "clk env"] by (simp only: Some option.case enabled.simps run.simps simp_thms)
  next
    case None
    have st: "isStreaming s = False" using inv None unfolding session_inv_def source_inv_def by blast
    with assms(2) have "isRequesting s" by blast
    then have r: "requestId s \<in> set (inFlight s)" "requestId s \<notin> set (abortedRequests s)"
      using inv None unfolding session_inv_def request_inv_def by blast+
    have "\<not> isGenerating (snd (receive_response tr (clk env) (requestId s) (Replied resp) s))"
      by (rule answer_idle [OF st r(2) assms(3)])
    with r(1) show ?thesis by (simp only: None option.case enabled.simps run.simps reply.case simp_thms)
  qed
qed

section \<open>Concrete sessions\<close>

text \<open>A session in which one message was sent, and the environment that sent it.\<close>

definition demo_env :: StepEnv where
  "demo_env = \<lparr>clk = (\<lambda>_. 5), ids = (\<lambda>n. [97 + n]), startFails = False\<rparr>"

definition demo_session :: "bool \<Rightarrow> Session" where
  "demo_session str = snd (run (\<lambda>x. x) demo_env (Submit (js ''hi''))
     (initial_session (DEFAULT_CONFIG\<lparr>stream := str\<rparr>) DEFAULT_PARAMETER_ENABLED []))"

lemma demo_reachable: "reachable (\<lambda>x. x) (demo_session str)"
proof -
  have "trim (js ''hi'') = js ''hi''"
    by (rule trim_id; simp add: js_eval is_space_def is_line_term_def)
  then have "enabled demo_env (Submit (js ''hi''))
      (initial_session (DEFAULT_CONFIG\<lparr>stream := str\<rparr>) DEFAULT_PARAMETER_ENABLED [])"
    by (simp add: getSubmittableInputText_def initial_session_def fresh_ids_def demo_env_def)
  then show ?thesis unfolding demo_session_def by (rule reachable.step [OF initial_reachable])
qed

lemma demo_fields:
  "sseSource (demo_session True) = Some 0" "nextSource (demo_session True) = 1"
  "closedSources (demo_session True) = []" "isStreamComplete (demo_session True) = False"
  "isRequesting (demo_session str) = True"
  "requestId (demo_session False) = 1" "inFlight (demo_session False) = [1]" "sseSource (demo_session False) = None"
  "abortedRequests (demo_session str) = []"
  "s_messages (demo_session str) =
     [createUserMessage [97] [98] (js ''hi'') 5, createLoadingAssistantMessage [99] [100] 5]"
  "pendingContent (demo_session str) = []" "pendingReasoning (demo_session str) = []"
  "editingMessageKey (demo_session str) = None" "stream (s_config (demo_session str)) = str"
  by (cases str; simp add: demo_session_def handleSendMessage_def sendChat_def sendStreamingChat_def sendStreamRequest_def
      start_source_def close_source_def sendNonStreamingChat_def initial_session_def demo_env_def
      appendUserMessagePair_def Let_def)+

theorem busy_playground_can_finish_witness:
  "\<not> isGenerating (snd (run (\<lambda>x. x) demo_env (StreamData 0 STREAM_DONE_MESSAGE) (demo_session True)))"
proof -
  let ?r = "\<lparr>choices = Some [\<lparr>choice_message = None\<rparr>]\<rparr>"
  have 1: "hasChatCompletionChoice ?r" by (simp add: hasChatCompletionChoice_def first_choice_def)
  have 2: "isGenerating (demo_session True)" by (simp add: demo_fields)
  from busy_playground_can_finish [OF demo_reachable 2 1, of demo_env] show ?thesis
    by (simp add: demo_fields)
qed

section \<open>Delivery of a streamed text\<close>



definition deltas :: "((nat \<Rightarrow> rat) \<times> jsstr option) list \<Rightarrow> jsstr list" where
  "deltas es = List.map_filter snd es"

lemma deltas_simps [simp]:
  "deltas [] = []" "deltas ((c, Some t) # es) = t # deltas es" "deltas ((c, None) # es) = deltas es"
  by (simp_all add: deltas_def map_filter_simps)




lemma schedule_frame [simp]:
  "s_messages (scheduleStreamFlush s) = s_messages s" "pendingContent (scheduleStreamFlush s) = pendingContent s"
  "pendingReasoning (scheduleStreamFlush s) = pendingReasoning s"
  by (simp_all add: scheduleStreamFlush_def)


definition open_reply :: "Session \<Rightarrow> bool" where
  "open_reply s \<longleftrightarrow> last_pending (s_messages s) \<and> pendingReasoning s = []"


lemma pending_reply_iff:
  "pending_reply m \<longleftrightarrow> msg_from m = Assistant \<and> (status m = Some Loading \<or> status m = Some Streaming)"
  by (auto simp: isPendingAssistantMessage_def isAssistantMessagePending_def)

lemma last_update:
  "ms \<noteq> [] \<Longrightarrow> msg_from (last ms) = Assistant \<Longrightarrow> last (updateLastAssistantMessage ms u) = u (last ms)"
  by (simp add: updateLastAssistantMessage_def last_list_update)

lemma flush_open_reply:
  assumes "open_reply s"
  shows "open_reply (flushStreamUpdates c s)"
    and "getMessageContent (last (s_messages (flushStreamUpdates c s))) =
      (if pendingContent s = [] then getMessageContent (last (s_messages s))
       else append_chunk (getMessageContent (last (s_messages s))) (pendingContent s))"
proof -
  have m: "s_messages s \<noteq> []" "msg_from (last (s_messages s)) = Assistant" "status (last (s_messages s)) \<noteq> Some Error"
    using assms by (auto simp: open_reply_def last_pending_def pending_reply_iff)
  have l: "last (updateLastAssistantMessage (s_messages s) u) = u (last (s_messages s))" for u
    using m by (intro last_update)
  have ne: "updateLastAssistantMessage (s_messages s) u \<noteq> []" for u
    using m by (simp add: updateLastAssistantMessage_def)
  have st: "pendingContent s \<noteq> [] \<Longrightarrow> status (flush_updater c [] (pendingContent s) (last (s_messages s))) = Some Streaming"
    using m by (simp add: flush_updater_def applyStreamingChunk_status)
  have fr: "msg_from (flush_updater c [] (pendingContent s) (last (s_messages s))) = Assistant"
    using m by (simp add: flush.upd_from)
  show "open_reply (flushStreamUpdates c s)"
    using assms l ne st fr by (auto simp: open_reply_def flush_messages last_pending_def pending_reply_iff)
  show "getMessageContent (last (s_messages (flushStreamUpdates c s))) =
      (if pendingContent s = [] then getMessageContent (last (s_messages s))
       else append_chunk (getMessageContent (last (s_messages s))) (pendingContent s))"
    using assms l m by (simp add: open_reply_def flush_messages flush_updater_def Let_def applyStreamingChunk_content)
qed












section \<open>Errors\<close>

lemma handleStreamError_result:
  assumes "getDisplayError tr err = Inr d"
  shows "handleStreamError tr c err code s =
     (None, (flushStreamUpdates c s)\<lparr>isRequesting := False,
        s_messages := updateLastAssistantMessage (s_messages (flushStreamUpdates c s))
          (error_updater (c 4) d (code_text code) (tr API_REQUEST_ERROR))\<rparr>)"
  using assms by (simp add: handleStreamError_def updateAssistantMessageWithError_def Let_def)

lemma error_updater_fields:
  "status (error_updater t e c ti m) = Some Error"
  "getMessageContent (error_updater t e c ti m) = ti @ js '': '' @ e"
  by (simp_all add: error_updater_def)

lemma flush_roles: "map msg_from (s_messages (flushStreamUpdates c s)) = map msg_from (s_messages s)"
  by (simp add: flush_messages flush.update_roles)

lemma flush_last_from:
  "s_messages s \<noteq> [] \<Longrightarrow> s_messages (flushStreamUpdates c s) \<noteq> []
     \<and> msg_from (last (s_messages (flushStreamUpdates c s))) = msg_from (last (s_messages s))"
  using flush_roles [of c s] by (metis last_map list.map_disc_iff)

text \<open>
  C10: an error of the open stream ends the generation: the reply shows the error text under the
  translated title, its status is an error, the earlier messages stay, the source is closed and
  nothing is generating any more.
\<close>

theorem stream_error_ends_generation:
  assumes "reachable tr s" "sseSource s = Some i" "last_pending (s_messages s)"
    and "\<not> isStreamClosedReadyState rs" "details_message (parseStreamErrorDetails data) = JStr e"
  shows "let s' = snd (on_error tr c i data rs s) in
    (\<exists>d. getDisplayError tr (JStr e) = Inr d
       \<and> getMessageContent (last (s_messages s')) = tr API_REQUEST_ERROR @ js '': '' @ d)
    \<and> status (last (s_messages s')) = Some Error \<and> butlast (s_messages s') = butlast (s_messages s)
    \<and> i \<in> set (closedSources s') \<and> \<not> isGenerating s'"
proof -
  have nc: "\<not> isStreamComplete s"
    using reachable_inv [OF assms(1)] assms(2) unfolding session_inv_def source_inv_def by blast
  obtain d where d: "getDisplayError tr (JStr e) = Inr d" by (simp add: getDisplayError_def)
  let ?f = "s_messages (flushStreamUpdates c s)"
  let ?upd = "error_updater (c 4) d (code_text (details_code (parseStreamErrorDetails data))) (tr API_REQUEST_ERROR)"
  let ?h = "(flushStreamUpdates c s)\<lparr>isRequesting := False, s_messages := updateLastAssistantMessage ?f ?upd\<rparr>"
  have r: "snd (on_error tr c i data rs s) = closeActiveStream (Some i) ?h"
    using assms(4,5) nc by (simp add: on_error_def handleError_def handleStreamError_result [OF d])
  have l: "last (updateLastAssistantMessage ?f ?upd) = ?upd (last ?f)"
    using assms(3) flush_last_from [of s c] by (intro last_update) (auto simp: last_pending_def pending_reply_iff)
  have b: "butlast (updateLastAssistantMessage ?f ?upd) = butlast (s_messages s)"
    by (simp add: failure.update_butlast flush_butlast)
  show ?thesis
    unfolding r Let_def using d assms(2) by (simp add: l b error_updater_fields close_source_fields)
qed

theorem stream_error_ends_generation_witness:
  "status (last (s_messages (snd (on_error (\<lambda>x. x) (\<lambda>_. 8) 0 None None (demo_session True))))) = Some Error"
proof -
  have 1: "sseSource (demo_session True) = Some 0" by (simp add: demo_fields)
  have 2: "last_pending (s_messages (demo_session True))" by (simp add: last_pending_def demo_fields)
  have 3: "\<not> isStreamClosedReadyState None" by (simp add: isStreamClosedReadyState_def)
  have 4: "details_message (parseStreamErrorDetails None) = JStr API_REQUEST_ERROR"
    by (simp add: parseStreamErrorDetails_def Let_def)
  from stream_error_ends_generation [OF demo_reachable 1 2 3 4, of "\<lambda>_. 8"] show ?thesis by (simp add: Let_def)
qed

section \<open>Overlapping generations\<close>

lemma edit_send_last:
  assumes "applyMessageEdit ms k x b n1 n2 now = Some res" "shouldSend res"
  shows "\<exists>xs. edit_messages res = xs @ [createLoadingAssistantMessage n1 n2 now]"
  using assms by (auto simp: applyMessageEdit_def Let_def split: option.splits if_splits)

lemma applyEdit_send:
  assumes "editingMessageKey s = Some k" "k \<noteq> []" "shouldSend res"
    and "applyMessageEdit (s_messages s) k x b (ids env 0) (ids env 1) (clk env 7) = Some res"
  shows "applyEdit tr env x b s =
    sendChat tr env (edit_messages res) (s\<lparr>editingMessageKey := None, s_messages := edit_messages res\<rparr>)"
  using assms by (simp add: applyEdit_def Let_def)

text \<open>
  C11: text of an old stream that still waits in the buffer when the user saves and submits an
  edited message is flushed into the reply of the new request: starting a stream clears neither
  the buffer nor its timer.
\<close>

theorem stale_chunk_reaches_new_reply:
  assumes "editingMessageKey s = Some k" "k \<noteq> []" "shouldSend res"
    and "applyMessageEdit (s_messages s) k x b (ids env 0) (ids env 1) (clk env 7) = Some res"
    and "stream (s_config s)" "\<not> startFails env" "pendingContent s \<noteq> []" "pendingReasoning s = []"
  shows "let new = last (s_messages (flushStreamUpdates c (snd (applyEdit tr env x b s)))) in
    msg_key new = ids env 0 \<and> getMessageContent new = pendingContent s"
proof -
  obtain xs where xs: "edit_messages res = xs @ [createLoadingAssistantMessage (ids env 0) (ids env 1) (clk env 7)]"
    using edit_send_last [OF assms(4,3)] by blast
  let ?l = "createLoadingAssistantMessage (ids env 0) (ids env 1) (clk env 7)"
  let ?s1 = "snd (applyEdit tr env x b s)"
  have s1: "s_messages ?s1 = xs @ [?l]" "pendingContent ?s1 = pendingContent s" "pendingReasoning ?s1 = []"
    using assms(5-) xs
    by (simp_all add: applyEdit_send [OF assms(1-4)] sendChat_def sendStreamingChat_def sendStreamRequest_def)
  have "open_reply ?s1" using s1 by (simp add: open_reply_def last_pending_def)
  then have "getMessageContent (last (s_messages (flushStreamUpdates c ?s1))) = append_chunk [] (pendingContent s)"
    using flush_open_reply(2) [of ?s1 c] s1 assms(7) by simp
  moreover have "msg_key (last (s_messages (flushStreamUpdates c ?s1))) = ids env 0"
    using s1 assms(7) by (simp add: flush_messages last_update flush.upd_key)
  ultimately show ?thesis by (simp add: Let_def append_chunk_fresh)
qed

theorem stale_chunk_reaches_new_reply_witness:
  "let s = (demo_session True)\<lparr>editingMessageKey := Some [97], pendingContent := js ''old'', flushTimer := True\<rparr>
   in getMessageContent (last (s_messages (flushStreamUpdates (\<lambda>_. 9)
        (snd (applyEdit (\<lambda>x. x) (demo_env\<lparr>ids := \<lambda>n. [120 + n]\<rparr>) (js ''new'') True s))))) = js ''old''"
proof -
  let ?s = "(demo_session True)\<lparr>editingMessageKey := Some [97], pendingContent := js ''old'', flushTimer := True\<rparr>"
  let ?env = "demo_env\<lparr>ids := \<lambda>n. [120 + n]\<rparr>"
  define res where "res = the (applyMessageEdit (s_messages ?s) [97] (js ''new'') True (ids ?env 0) (ids ?env 1) (clk ?env 7))"
  have 4: "applyMessageEdit (s_messages ?s) [97] (js ''new'') True (ids ?env 0) (ids ?env 1) (clk ?env 7) = Some res"
    by (simp add: res_def demo_fields applyMessageEdit_def Let_def updateCurrentVersionContent_def)
  have 3: "shouldSend res"
    by (simp add: res_def demo_fields applyMessageEdit_def Let_def updateCurrentVersionContent_def)
  have 1: "editingMessageKey ?s = Some [97]" by simp
  have 2: "[97] \<noteq> ([] :: jsstr)" by simp
  have 5: "stream (s_config ?s)" "\<not> startFails ?env" "pendingContent ?s \<noteq> []" "pendingReasoning ?s = []"
    by (simp_all add: demo_fields demo_env_def)
  from stale_chunk_reaches_new_reply [OF 1 2 3 4 5, of "\<lambda>_. 9" "\<lambda>x. x"] show ?thesis by (simp add: Let_def)
qed

text \<open>
  C12: a request that is still running when the user saves and submits an edited message is not
  aborted: its answer fills and completes the reply of the new request, while that request is
  still running.
\<close>

theorem older_answer_fills_new_reply:
  assumes "editingMessageKey s = Some k" "k \<noteq> []" "shouldSend res"
    and "applyMessageEdit (s_messages s) k x b (ids env 0) (ids env 1) (clk env 7) = Some res"
    and "\<not> stream (s_config s)" "rid \<notin> set (abortedRequests s)" "rid \<le> requestId s"
    and "first_choice resp = Some ch" "choice_message ch = Some msg" "cm_content msg = Some answer"
  shows "let s' = snd (receive_response tr c rid (Replied resp) (snd (applyEdit tr env x b s)));
      new = last (s_messages s') in
    msg_key new = ids env 0 \<and> getMessageContent new = final_content answer \<and> status new = Some Complete
    \<and> isRequesting s' \<and> Suc (requestId s) \<in> set (inFlight s')"
proof -
  obtain xs where xs: "edit_messages res = xs @ [createLoadingAssistantMessage (ids env 0) (ids env 1) (clk env 7)]"
    using edit_send_last [OF assms(4,3)] by blast
  let ?l = "createLoadingAssistantMessage (ids env 0) (ids env 1) (clk env 7)"
  let ?s1 = "snd (applyEdit tr env x b s)"
  have s1: "s_messages ?s1 = xs @ [?l]" "abortedRequests ?s1 = abortedRequests s" "requestId ?s1 = Suc (requestId s)"
    "isRequesting ?s1" "inFlight ?s1 = Suc (requestId s) # inFlight s"
    using assms(5) xs by (simp_all add: applyEdit_send [OF assms(1-4)] sendChat_def sendNonStreamingChat_def Let_def)
  let ?new = "applyChatCompletionChoice (c 0) (c 1) (c 2) ?l ch"
  have u: "updateLastAssistantMessage (xs @ [?l]) (response_updater c resp) = xs @ [?new]"
    using assms(8) by (simp add: updateLastAssistantMessage_def response_updater_def applyChatCompletionResponse_def)
  have r: "snd (receive_response tr c rid (Replied resp) ?s1) =
      (settle_request rid ?s1)\<lparr>s_messages := xs @ [?new]\<rparr>"
    using assms(6-8) s1(2,3)
    by (simp add: receive_response_def hasChatCompletionChoice_def finally_request_def settle_request_def s1(1) u del: One_nat_def)
  have new: "msg_key ?new = ids env 0" "getMessageContent ?new = final_content answer" "status ?new = Some Complete"
    using assms(9,10) by (simp_all add: choice.upd_key) (simp_all add: applyChatCompletionChoice_def)
  show ?thesis unfolding r Let_def using new s1 assms(7) by (simp add: settle_request_def)
qed

theorem older_answer_fills_new_reply_witness:
  "let s = (demo_session False)\<lparr>editingMessageKey := Some [97]\<rparr>;
       resp = \<lparr>choices = Some [\<lparr>choice_message = Some \<lparr>cm_content = Some (js ''old''), cm_reasoning_content = None\<rparr>\<rparr>]\<rparr>
   in isRequesting (snd (receive_response (\<lambda>x. x) (\<lambda>_. 9) 1 (Replied resp)
        (snd (applyEdit (\<lambda>x. x) (demo_env\<lparr>ids := \<lambda>n. [120 + n]\<rparr>) (js ''new'') True s))))"
proof -
  let ?s = "(demo_session False)\<lparr>editingMessageKey := Some [97]\<rparr>"
  let ?env = "demo_env\<lparr>ids := \<lambda>n. [120 + n]\<rparr>"
  let ?msg = "\<lparr>cm_content = Some (js ''old''), cm_reasoning_content = None\<rparr>"
  define res where "res = the (applyMessageEdit (s_messages ?s) [97] (js ''new'') True (ids ?env 0) (ids ?env 1) (clk ?env 7))"
  have 4: "applyMessageEdit (s_messages ?s) [97] (js ''new'') True (ids ?env 0) (ids ?env 1) (clk ?env 7) = Some res"
    by (simp add: res_def demo_fields applyMessageEdit_def Let_def updateCurrentVersionContent_def)
  have 3: "shouldSend res"
    by (simp add: res_def demo_fields applyMessageEdit_def Let_def updateCurrentVersionContent_def)
  have 1: "editingMessageKey ?s = Some [97]" by simp
  have 2: "[97] \<noteq> ([] :: jsstr)" by simp
  have 5: "\<not> stream (s_config ?s)" "1 \<notin> set (abortedRequests ?s)" "1 \<le> requestId ?s" by (simp_all add: demo_fields)
  have 6: "first_choice \<lparr>choices = Some [\<lparr>choice_message = Some ?msg\<rparr>]\<rparr> = Some \<lparr>choice_message = Some ?msg\<rparr>"
    by (simp add: first_choice_def)
  have 7: "choice_message \<lparr>choice_message = Some ?msg\<rparr> = Some ?msg" "cm_content ?msg = Some (js ''old'')" by simp_all
  from older_answer_fills_new_reply [OF 1 2 3 4 5 6 7, of "\<lambda>x. x" "\<lambda>_. 9"] show ?thesis by (simp add: Let_def)
qed

end
