(* ===== verification/Schema.thy ===== *)
theory Schema
  imports StreamProtocol "HOL-Library.Monad_Syntax"
begin

text \<open>
  The schemas of \<open>lib/storage/storage-schema.ts\<close> as data, and the JSON form of the records that
  are stored. Parsing is done by the library zod, which is a parameter of the model: the locale
  \<open>zod_parser\<close> states what its documentation says of \<open>parse\<close> for the constructors used. A
  reference parser shows that the laws can be met.
\<close>

section \<open>Schemas\<close>

datatype zschema =
    ZString
  | ZNumber
  | ZBoolean
  | ZEnum "jsstr list"
  | ZArray nat zschema
  | ZObject "(jsstr \<times> zschema) list"
  | ZOptional zschema
  | ZNullable zschema

text \<open>The fields of an object: unknown keys are dropped, an absent optional key stays absent.\<close>

fun zod_fields :: "(zschema \<Rightarrow> jsval \<Rightarrow> jsval option) \<Rightarrow> (jsstr \<times> zschema) list \<Rightarrow> (jsstr \<times> jsval) list
    \<Rightarrow> (jsstr \<times> jsval) list option" where
  "zod_fields p [] kvs = Some []"
| "zod_fields p ((k, s) # fs) kvs =
     do { v \<leftarrow> p s (opt_prop (JObj kvs) k);
          rest \<leftarrow> zod_fields p fs kvs;
          Some (if v = JUndef \<and> k \<notin> fst ` set kvs then rest else (k, v) # rest) }"

fun traverse :: "('a \<Rightarrow> 'b option) \<Rightarrow> 'a list \<Rightarrow> 'b list option" where
  "traverse f [] = Some []"
| "traverse f (x # xs) = do { y \<leftarrow> f x; ys \<leftarrow> traverse f xs; Some (y # ys) }"

locale zod_parser =
  fixes zparse :: "zschema \<Rightarrow> jsval \<Rightarrow> jsval option"
  assumes z_string: "zparse ZString v = (case v of JStr _ \<Rightarrow> Some v | _ \<Rightarrow> None)"
    and z_number: "zparse ZNumber v = (case v of JNum _ \<Rightarrow> Some v | _ \<Rightarrow> None)"
    and z_boolean: "zparse ZBoolean v = (case v of JBool _ \<Rightarrow> Some v | _ \<Rightarrow> None)"
    and z_enum: "zparse (ZEnum opts) v = (case v of JStr s \<Rightarrow> if s \<in> set opts then Some v else None | _ \<Rightarrow> None)"
    and z_array: "zparse (ZArray least s) v =
      (case v of JArr xs \<Rightarrow> if length xs < least then None else map_option JArr (traverse (zparse s) xs) | _ \<Rightarrow> None)"
    and z_object: "zparse (ZObject fs) v =
      (case v of JObj kvs \<Rightarrow> map_option JObj (zod_fields zparse fs kvs) | _ \<Rightarrow> None)"
    and z_optional: "zparse (ZOptional s) v = (if v = JUndef then Some JUndef else zparse s v)"
    and z_nullable: "zparse (ZNullable s) v = (if v = JNull then Some JNull else zparse s v)"

text \<open>The schemas of the source.\<close>

definition playgroundConfigSchema :: zschema where
  "playgroundConfigSchema = ZObject
     [(js ''model'', ZOptional ZString), (js ''group'', ZOptional ZString),
      (js ''temperature'', ZOptional ZNumber), (js ''top_p'', ZOptional ZNumber),
      (js ''max_tokens'', ZOptional ZNumber), (js ''frequency_penalty'', ZOptional ZNumber),
      (js ''presence_penalty'', ZOptional ZNumber), (js ''seed'', ZOptional (ZNullable ZNumber)),
      (js ''stream'', ZOptional ZBoolean)]"

definition parameterEnabledSchema :: zschema where
  "parameterEnabledSchema = ZObject
     [(js ''temperature'', ZOptional ZBoolean), (js ''top_p'', ZOptional ZBoolean),
      (js ''max_tokens'', ZOptional ZBoolean), (js ''frequency_penalty'', ZOptional ZBoolean),
      (js ''presence_penalty'', ZOptional ZBoolean), (js ''seed'', ZOptional ZBoolean)]"

definition messageRoleSchema :: zschema where
  "messageRoleSchema = ZEnum [js ''user'', js ''assistant'', js ''system'']"

definition messageStatusSchema :: zschema where
  "messageStatusSchema = ZEnum [js ''loading'', js ''streaming'', js ''complete'', js ''error'']"

definition messageVersionSchema :: zschema where
  "messageVersionSchema = ZObject [(js ''id'', ZString), (js ''content'', ZString)]"

definition sourceSchema :: zschema where
  "sourceSchema = ZObject [(js ''href'', ZString), (js ''title'', ZString)]"

definition reasoningSchema :: zschema where
  "reasoningSchema = ZObject
     [(js ''content'', ZString), (js ''duration'', ZNumber), (js ''startedAt'', ZOptional ZNumber),
      (js ''completedAt'', ZOptional ZNumber), (js ''durationMs'', ZOptional ZNumber)]"

definition messageSchema :: zschema where
  "messageSchema = ZObject
     [(js ''key'', ZString), (js ''from'', messageRoleSchema),
      (js ''versions'', ZArray 1 messageVersionSchema),
      (js ''createdAt'', ZOptional ZNumber), (js ''startedAt'', ZOptional ZNumber),
      (js ''completedAt'', ZOptional ZNumber), (js ''durationMs'', ZOptional ZNumber),
      (js ''sources'', ZOptional (ZArray 0 sourceSchema)),
      (js ''reasoning'', ZOptional reasoningSchema),
      (js ''isReasoningStreaming'', ZOptional ZBoolean), (js ''isReasoningComplete'', ZOptional ZBoolean),
      (js ''isContentComplete'', ZOptional ZBoolean), (js ''status'', ZOptional messageStatusSchema),
      (js ''errorCode'', ZOptional (ZNullable ZString))]"

definition messagesSchema :: zschema where
  "messagesSchema = ZArray 0 messageSchema"

lemmas schema_defs = messageRoleSchema_def messageStatusSchema_def messageVersionSchema_def sourceSchema_def
  reasoningSchema_def messageSchema_def

section \<open>The reference parser\<close>

fun zref :: "zschema \<Rightarrow> jsval \<Rightarrow> jsval option" and
    zref_fields :: "(jsstr \<times> zschema) list \<Rightarrow> (jsstr \<times> jsval) list \<Rightarrow> (jsstr \<times> jsval) list option" and
    zref_elems :: "zschema \<Rightarrow> jsval list \<Rightarrow> jsval list option" where
  "zref ZString v = (case v of JStr _ \<Rightarrow> Some v | _ \<Rightarrow> None)"
| "zref ZNumber v = (case v of JNum _ \<Rightarrow> Some v | _ \<Rightarrow> None)"
| "zref ZBoolean v = (case v of JBool _ \<Rightarrow> Some v | _ \<Rightarrow> None)"
| "zref (ZEnum opts) v = (case v of JStr s \<Rightarrow> if s \<in> set opts then Some v else None | _ \<Rightarrow> None)"
| "zref (ZArray least s) v =
     (case v of JArr xs \<Rightarrow> if length xs < least then None else map_option JArr (zref_elems s xs) | _ \<Rightarrow> None)"
| "zref (ZObject fs) v = (case v of JObj kvs \<Rightarrow> map_option JObj (zref_fields fs kvs) | _ \<Rightarrow> None)"
| "zref (ZOptional s) v = (if v = JUndef then Some JUndef else zref s v)"
| "zref (ZNullable s) v = (if v = JNull then Some JNull else zref s v)"
| "zref_fields [] kvs = Some []"
| "zref_fields ((k, s) # fs) kvs =
     do { v \<leftarrow> zref s (opt_prop (JObj kvs) k);
          rest \<leftarrow> zref_fields fs kvs;
          Some (if v = JUndef \<and> k \<notin> fst ` set kvs then rest else (k, v) # rest) }"
| "zref_elems s [] = Some []"
| "zref_elems s (x # xs) = do { y \<leftarrow> zref s x; ys \<leftarrow> zref_elems s xs; Some (y # ys) }"

lemma zref_fields_zod: "zref_fields fs kvs = zod_fields zref fs kvs"
  by (induction fs) auto

lemma zref_elems_traverse: "zref_elems s xs = traverse (zref s) xs"
  by (induction xs) auto

interpretation zod: zod_parser zref
  by unfold_locales (simp_all add: zref_fields_zod zref_elems_traverse split: jsval.split)

section \<open>Stored forms\<close>

text \<open>A property whose value is \<open>undefined\<close> has no stored form.\<close>

definition drop_undef :: "(jsstr \<times> jsval) list \<Rightarrow> (jsstr \<times> jsval) list" where
  "drop_undef kvs = filter (\<lambda>kv. snd kv \<noteq> JUndef) kvs"

definition enc_opt :: "('a \<Rightarrow> jsval) \<Rightarrow> 'a option \<Rightarrow> jsval" where
  "enc_opt e x = (case x of None \<Rightarrow> JUndef | Some y \<Rightarrow> e y)"

definition enc_nullable :: "('a \<Rightarrow> jsval) \<Rightarrow> 'a option \<Rightarrow> jsval" where
  "enc_nullable e x = (case x of None \<Rightarrow> JNull | Some y \<Rightarrow> e y)"

fun status_text :: "MessageStatus \<Rightarrow> jsstr" where
  "status_text Loading = js ''loading''"
| "status_text Streaming = js ''streaming''"
| "status_text Complete = js ''complete''"
| "status_text Error = js ''error''"

definition version_fields :: "MessageVersion \<Rightarrow> (jsstr \<times> jsval) list" where
  "version_fields v = [(js ''id'', JStr (version_id v)), (js ''content'', JStr (version_content v))]"

definition source_fields :: "Source \<Rightarrow> (jsstr \<times> jsval) list" where
  "source_fields s = [(js ''href'', JStr (href s)), (js ''title'', JStr (source_title s))]"

definition reasoning_fields :: "Reasoning \<Rightarrow> (jsstr \<times> jsval) list" where
  "reasoning_fields r =
     [(js ''content'', JStr (r_content r)), (js ''duration'', JNum (r_duration r)),
      (js ''startedAt'', enc_opt JNum (r_startedAt r)), (js ''completedAt'', enc_opt JNum (r_completedAt r)),
      (js ''durationMs'', enc_opt JNum (r_durationMs r))]"

definition obj_json :: "(jsstr \<times> jsval) list \<Rightarrow> jsval" where
  "obj_json fs = JObj (drop_undef fs)"

definition message_fields :: "Message \<Rightarrow> (jsstr \<times> jsval) list" where
  "message_fields m =
     [(js ''key'', JStr (msg_key m)), (js ''from'', JStr (role_text (msg_from m))),
      (js ''versions'', JArr (map (\<lambda>v. obj_json (version_fields v)) (versions m))),
      (js ''createdAt'', enc_opt JNum (createdAt m)), (js ''startedAt'', enc_opt JNum (startedAt m)),
      (js ''completedAt'', enc_opt JNum (completedAt m)), (js ''durationMs'', enc_opt JNum (durationMs m)),
      (js ''sources'', enc_opt (\<lambda>ss. JArr (map (\<lambda>s. obj_json (source_fields s)) ss)) (sources m)),
      (js ''reasoning'', enc_opt (\<lambda>r. obj_json (reasoning_fields r)) (reasoning m)),
      (js ''isReasoningStreaming'', enc_opt JBool (isReasoningStreaming m)),
      (js ''isReasoningComplete'', enc_opt JBool (isReasoningComplete m)),
      (js ''isContentComplete'', enc_opt JBool (isContentComplete m)),
      (js ''status'', enc_opt (\<lambda>s. JStr (status_text s)) (status m)),
      (js ''errorCode'', enc_opt (enc_nullable JStr) (errorCode m))]"

definition messages_json :: "Message list \<Rightarrow> jsval" where
  "messages_json ms = JArr (map (\<lambda>m. obj_json (message_fields m)) ms)"

text \<open>Reading the stored form back, for values that passed the schema.\<close>

definition dec_str :: "jsval \<Rightarrow> jsstr option" where
  "dec_str v = (case v of JStr s \<Rightarrow> Some s | _ \<Rightarrow> None)"

definition dec_num :: "jsval \<Rightarrow> rat option" where
  "dec_num v = (case v of JNum n \<Rightarrow> Some n | _ \<Rightarrow> None)"

definition dec_bool :: "jsval \<Rightarrow> bool option" where
  "dec_bool v = (case v of JBool b \<Rightarrow> Some b | _ \<Rightarrow> None)"

definition dec_opt :: "(jsval \<Rightarrow> 'a option) \<Rightarrow> jsval \<Rightarrow> 'a option option" where
  "dec_opt d v = (if v = JUndef then Some None else map_option Some (d v))"

definition dec_nullable :: "(jsval \<Rightarrow> 'a option) \<Rightarrow> jsval \<Rightarrow> 'a option option" where
  "dec_nullable d v = (if v = JNull then Some None else map_option Some (d v))"

definition dec_list :: "(jsval \<Rightarrow> 'a option) \<Rightarrow> jsval \<Rightarrow> 'a list option" where
  "dec_list d v = (case v of JArr xs \<Rightarrow> traverse d xs | _ \<Rightarrow> None)"

definition dec_table :: "('a \<Rightarrow> jsstr) \<Rightarrow> 'a list \<Rightarrow> jsval \<Rightarrow> 'a option" where
  "dec_table txt xs v = (case v of JStr s \<Rightarrow> List.find (\<lambda>x. txt x = s) xs | _ \<Rightarrow> None)"

definition dec_role :: "jsval \<Rightarrow> MessageRole option" where
  "dec_role = dec_table role_text [User, Assistant, System]"

definition dec_status :: "jsval \<Rightarrow> MessageStatus option" where
  "dec_status = dec_table status_text [Loading, Streaming, Complete, Error]"

definition dec_version :: "jsval \<Rightarrow> MessageVersion option" where
  "dec_version v =
     do { i \<leftarrow> dec_str (opt_prop v (js ''id'')); c \<leftarrow> dec_str (opt_prop v (js ''content''));
          Some \<lparr>version_id = i, version_content = c\<rparr> }"

definition dec_source :: "jsval \<Rightarrow> Source option" where
  "dec_source v =
     do { h \<leftarrow> dec_str (opt_prop v (js ''href'')); t \<leftarrow> dec_str (opt_prop v (js ''title''));
          Some \<lparr>href = h, source_title = t\<rparr> }"

definition dec_reasoning :: "jsval \<Rightarrow> Reasoning option" where
  "dec_reasoning v =
     do { c \<leftarrow> dec_str (opt_prop v (js ''content'')); d \<leftarrow> dec_num (opt_prop v (js ''duration''));
          a \<leftarrow> dec_opt dec_num (opt_prop v (js ''startedAt''));
          b \<leftarrow> dec_opt dec_num (opt_prop v (js ''completedAt''));
          e \<leftarrow> dec_opt dec_num (opt_prop v (js ''durationMs''));
          Some \<lparr>r_content = c, r_duration = d, r_startedAt = a, r_completedAt = b, r_durationMs = e\<rparr> }"

definition dec_message :: "jsval \<Rightarrow> Message option" where
  "dec_message v =
     do { k \<leftarrow> dec_str (opt_prop v (js ''key'')); f \<leftarrow> dec_role (opt_prop v (js ''from''));
          vs \<leftarrow> dec_list dec_version (opt_prop v (js ''versions''));
          ca \<leftarrow> dec_opt dec_num (opt_prop v (js ''createdAt''));
          sa \<leftarrow> dec_opt dec_num (opt_prop v (js ''startedAt''));
          da \<leftarrow> dec_opt dec_num (opt_prop v (js ''completedAt''));
          du \<leftarrow> dec_opt dec_num (opt_prop v (js ''durationMs''));
          ss \<leftarrow> dec_opt (dec_list dec_source) (opt_prop v (js ''sources''));
          r \<leftarrow> dec_opt dec_reasoning (opt_prop v (js ''reasoning''));
          b1 \<leftarrow> dec_opt dec_bool (opt_prop v (js ''isReasoningStreaming''));
          b2 \<leftarrow> dec_opt dec_bool (opt_prop v (js ''isReasoningComplete''));
          b3 \<leftarrow> dec_opt dec_bool (opt_prop v (js ''isContentComplete''));
          st \<leftarrow> dec_opt dec_status (opt_prop v (js ''status''));
          ec \<leftarrow> dec_opt (dec_nullable dec_str) (opt_prop v (js ''errorCode''));
          Some \<lparr>msg_key = k, msg_from = f, versions = vs, createdAt = ca, startedAt = sa, completedAt = da,
                durationMs = du, sources = ss, reasoning = r, isReasoningStreaming = b1,
                isReasoningComplete = b2, isContentComplete = b3, status = st, errorCode = ec\<rparr> }"

definition dec_messages :: "jsval \<Rightarrow> Message list option" where
  "dec_messages = dec_list dec_message"

section \<open>Codec lemmas\<close>

lemma map_of_drop_undef:
  "distinct (map fst fs) \<Longrightarrow> opt_prop (obj_json fs) k = (case map_of fs k of Some v \<Rightarrow> v | None \<Rightarrow> JUndef)"
proof (induction fs)
  case (Cons kv fs)
  obtain a b where kv: "kv = (a, b)" by fastforce
  have "a \<notin> fst ` set (drop_undef fs)" using Cons.prems kv by (force simp: drop_undef_def)
  then have "map_of (drop_undef fs) a = None" by (simp add: map_of_eq_None_iff)
  with Cons kv show ?case by (auto simp: obj_json_def drop_undef_def)
qed (simp add: obj_json_def drop_undef_def)

lemma traverse_map: "(\<And>x. x \<in> set xs \<Longrightarrow> f (g x) = Some (h x)) \<Longrightarrow> traverse f (map g xs) = Some (map h xs)"
  by (induction xs) auto

lemma traverse_Some: "traverse f xs = Some ys \<Longrightarrow> list_all2 (\<lambda>x y. f x = Some y) xs ys"
  by (induction xs arbitrary: ys) (auto split: bind_splits)

lemma traverse_total: "(\<And>x. x \<in> set xs \<Longrightarrow> f x \<noteq> None) \<Longrightarrow> traverse f xs \<noteq> None"
  by (induction xs) (auto split: bind_splits)

lemma traverse_length: "traverse f xs = Some ys \<Longrightarrow> length ys = length xs"
  by (drule traverse_Some) (simp add: list_all2_lengthD)

lemma dec_simps [simp]:
  "dec_str (JStr s) = Some s" "dec_num (JNum n) = Some n" "dec_bool (JBool b) = Some b"
  by (simp_all add: dec_str_def dec_num_def dec_bool_def)

lemma dec_role_text [simp]: "dec_role (JStr (role_text r)) = Some r"
  by (cases r) (simp_all add: dec_role_def dec_table_def)

lemma dec_status_text [simp]: "dec_status (JStr (status_text st)) = Some st"
  by (cases st) (simp_all add: dec_status_def dec_table_def)

lemma dec_enc_opt: "(\<And>x. d (e x) = Some x) \<Longrightarrow> (\<And>x. e x \<noteq> JUndef) \<Longrightarrow> dec_opt d (enc_opt e x) = Some x"
  by (simp add: dec_opt_def enc_opt_def split: option.split)

lemma dec_enc_nullable: "(\<And>x. d (e x) = Some x) \<Longrightarrow> (\<And>x. e x \<noteq> JNull) \<Longrightarrow> dec_nullable d (enc_nullable e x) = Some x"
  by (simp add: dec_nullable_def enc_nullable_def split: option.split)

lemma dec_list_map: "(\<And>x. d (e x) = Some x) \<Longrightarrow> dec_list d (JArr (map e xs)) = Some xs"
  using traverse_map [of xs d e "\<lambda>x. x"] by (simp add: dec_list_def)

lemma obj_json_not [simp]: "obj_json fs \<noteq> JUndef" "obj_json fs \<noteq> JNull"
  by (simp_all add: obj_json_def)

lemma dec_version_fields [simp]: "dec_version (obj_json (version_fields v)) = Some v"
  by (simp add: dec_version_def version_fields_def map_of_drop_undef)

lemma dec_source_fields [simp]: "dec_source (obj_json (source_fields v)) = Some v"
  by (simp add: dec_source_def source_fields_def map_of_drop_undef)

lemma dec_reasoning_fields [simp]: "dec_reasoning (obj_json (reasoning_fields v)) = Some v"
  by (simp add: dec_reasoning_def reasoning_fields_def map_of_drop_undef dec_enc_opt)

lemma enc_nullable_not: "(\<And>x. e x \<noteq> JUndef) \<Longrightarrow> enc_nullable e y \<noteq> JUndef"
  by (simp add: enc_nullable_def split: option.split)

lemma dec_message_fields: "dec_message (obj_json (message_fields m)) = Some m"
  by (simp add: dec_message_def message_fields_def map_of_drop_undef dec_enc_opt dec_list_map dec_enc_nullable
      enc_nullable_not)

lemma dec_messages_json: "dec_messages (messages_json ms) = Some ms"
  by (simp add: dec_messages_def messages_json_def dec_list_map dec_message_fields)

section \<open>What the schemas accept\<close>

lemma zod_fields_exact:
  assumes "list_all2 (\<lambda>(k, s) (k', v). k = k' \<and> p s v = Some v) fs full" "distinct (map fst full)"
  shows "zod_fields p fs (drop_undef full) = Some (drop_undef full)"
proof -
  have "list_all2 (\<lambda>(k, s) (k', v). k = k' \<and> p s v = Some v) fs part \<Longrightarrow> set part \<subseteq> set full \<Longrightarrow>
      zod_fields p fs (drop_undef full) = Some (drop_undef part)" for part
  proof (induction fs part rule: list_all2_induct)
    case (Cons f fs kv part)
    obtain k s v where f: "f = (k, s)" and kv: "kv = (k, v)" and pv: "p s v = Some v"
      using Cons.hyps by (cases f; cases kv) auto
    have mem: "(k, v) \<in> set full" using Cons.prems kv by simp
    then have "map_of full k = Some v" using assms(2) by simp
    then have o: "opt_prop (JObj (drop_undef full)) k = v"
      using map_of_drop_undef [OF assms(2), of k] by (simp add: obj_json_def)
    have "k \<notin> fst ` set (drop_undef full) \<longleftrightarrow> v = JUndef"
    proof
      assume "k \<notin> fst ` set (drop_undef full)"
      with mem show "v = JUndef" by (force simp: drop_undef_def)
    next
      assume "v = JUndef"
      with mem assms(2) show "k \<notin> fst ` set (drop_undef full)"
        by (auto simp: drop_undef_def dest: eq_key_imp_eq_value)
    qed
    with o pv f kv Cons show ?case by (auto simp: drop_undef_def)
  qed (simp add: drop_undef_def)
  from this [OF assms(1)] show ?thesis by simp
qed

lemma zod_fields_ConsE:
  assumes "zod_fields p ((a, t) # fs) kvs = Some out"
  obtains v rest where "p t (opt_prop (JObj kvs) a) = Some v" "zod_fields p fs kvs = Some rest"
    "out = (if v = JUndef \<and> a \<notin> fst ` set kvs then rest else (a, v) # rest)"
  using assms by (auto simp del: opt_prop_simps split: bind_splits)

lemma zod_fields_keys: "zod_fields p fs kvs = Some out \<Longrightarrow> fst ` set out \<subseteq> fst ` set fs"
proof (induction fs arbitrary: out)
  case (Cons f fs)
  obtain a t where f: "f = (a, t)" by fastforce
  from Cons.prems obtain v rest where "zod_fields p fs kvs = Some rest"
    "out = (if v = JUndef \<and> a \<notin> fst ` set kvs then rest else (a, v) # rest)"
    unfolding f by (rule zod_fields_ConsE)
  with Cons.IH [OF this(1)] f show ?case by auto
qed simp

lemma zod_fields_get:
  "zod_fields p fs kvs = Some out \<Longrightarrow> distinct (map fst fs) \<Longrightarrow> (k, s) \<in> set fs \<Longrightarrow>
     p s (opt_prop (JObj kvs) k) = Some (opt_prop (JObj out) k)"
proof (induction fs arbitrary: out)
  case (Cons f fs)
  obtain a t where f: "f = (a, t)" by fastforce
  from Cons.prems(1) obtain v rest where v: "p t (opt_prop (JObj kvs) a) = Some v"
    and rest: "zod_fields p fs kvs = Some rest"
    and out: "out = (if v = JUndef \<and> a \<notin> fst ` set kvs then rest else (a, v) # rest)"
    unfolding f by (rule zod_fields_ConsE)
  have "a \<notin> fst ` set fs" "distinct (map fst fs)" using Cons.prems(2) f by auto
  moreover from this(1) have a: "map_of rest a = None" using zod_fields_keys [OF rest] by (auto simp: map_of_eq_None_iff)
  ultimately consider "k = a" "s = t" | "k \<noteq> a" "(k, s) \<in> set fs"
    using Cons.prems(3) f by (force simp: image_iff)
  then show ?case
  proof cases
    case 1
    with v out a show ?thesis by (simp split: if_splits)
  next
    case 2
    from Cons.IH [OF rest \<open>distinct (map fst fs)\<close> 2(2)] out 2(1) show ?thesis by simp
  qed
qed simp

context zod_parser
begin

definition exact :: "zschema \<Rightarrow> jsval \<Rightarrow> bool" where
  "exact s v \<longleftrightarrow> zparse s v = Some v"

lemma exact_basic:
  "exact ZString (JStr a)" "exact ZNumber (JNum n)" "exact ZBoolean (JBool b)"
  "a \<in> set opts \<Longrightarrow> exact (ZEnum opts) (JStr a)"
  by (simp_all add: exact_def z_string z_number z_boolean z_enum)

lemma exact_opt: "(\<And>y. x = Some y \<Longrightarrow> exact s (e y)) \<Longrightarrow> exact (ZOptional s) (enc_opt e x)"
  by (simp add: exact_def z_optional enc_opt_def split: option.split)

lemma exact_nullable: "(\<And>y. x = Some y \<Longrightarrow> exact s (e y)) \<Longrightarrow> exact (ZNullable s) (enc_nullable e x)"
  by (simp add: exact_def z_nullable enc_nullable_def split: option.split)

lemma exact_array:
  "least \<le> length xs \<Longrightarrow> (\<And>x. x \<in> set xs \<Longrightarrow> exact s (e x)) \<Longrightarrow> exact (ZArray least s) (JArr (map e xs))"
  using traverse_map [of xs "zparse s" e e] by (simp add: exact_def z_array)

lemma exact_object:
  "list_all2 (\<lambda>(k, s) (k', v). k = k' \<and> exact s v) fs full \<Longrightarrow> distinct (map fst full) \<Longrightarrow>
     exact (ZObject fs) (obj_json full)"
  using zod_fields_exact [of zparse fs full] by (simp add: exact_def z_object obj_json_def)

lemmas exact_rules = exact_basic exact_opt exact_nullable exact_array

lemma exact_version: "exact messageVersionSchema (obj_json (version_fields v))"
  unfolding messageVersionSchema_def version_fields_def
  by (intro exact_object) (simp_all add: exact_basic)

lemma exact_source: "exact sourceSchema (obj_json (source_fields v))"
  unfolding sourceSchema_def source_fields_def
  by (intro exact_object) (simp_all add: exact_basic)

lemma exact_reasoning: "exact reasoningSchema (obj_json (reasoning_fields v))"
  unfolding reasoningSchema_def reasoning_fields_def
  by (intro exact_object) (simp_all add: exact_basic exact_opt)

lemma exact_role: "exact messageRoleSchema (JStr (role_text r))"
  unfolding messageRoleSchema_def by (cases r) (simp_all add: exact_basic)

lemma exact_status: "exact messageStatusSchema (JStr (status_text r))"
  unfolding messageStatusSchema_def by (cases r) (simp_all add: exact_basic)

lemma exact_message: "versions m \<noteq> [] \<Longrightarrow> exact messageSchema (obj_json (message_fields m))"
  unfolding messageSchema_def message_fields_def
  by (intro exact_object)
    (simp_all add: exact_rules exact_role exact_status exact_version exact_source exact_reasoning Suc_le_eq)

lemma exact_messages: "list_all (\<lambda>m. versions m \<noteq> []) ms \<Longrightarrow> exact messagesSchema (messages_json ms)"
  unfolding messagesSchema_def messages_json_def
  by (intro exact_array) (auto simp: list_all_iff exact_message)

text \<open>Every value that passed a schema can be read.\<close>

definition readable :: "zschema \<Rightarrow> (jsval \<Rightarrow> 'a option) \<Rightarrow> bool" where
  "readable s d \<longleftrightarrow> (\<forall>u v. zparse s u = Some v \<longrightarrow> d v \<noteq> None)"

lemma readable_basic: "readable ZString dec_str" "readable ZNumber dec_num" "readable ZBoolean dec_bool"
  by (auto simp: readable_def z_string z_number z_boolean split: jsval.splits)

lemma readable_opt: "readable s d \<Longrightarrow> readable (ZOptional s) (dec_opt d)"
  by (auto simp: readable_def z_optional dec_opt_def split: if_splits)

lemma readable_nullable: "readable s d \<Longrightarrow> readable (ZNullable s) (dec_nullable d)"
  by (auto simp: readable_def z_nullable dec_nullable_def split: if_splits)

lemma readable_array:
  assumes "readable s d"
  shows "readable (ZArray least s) (dec_list d)"
  unfolding readable_def
proof (intro allI impI)
  fix u v assume "zparse (ZArray least s) u = Some v"
  then obtain xs ys where "v = JArr ys" "traverse (zparse s) xs = Some ys"
    by (auto simp: z_array split: jsval.splits if_splits)
  moreover from traverse_Some [OF this(2)] assms have "\<And>y. y \<in> set ys \<Longrightarrow> d y \<noteq> None"
    by (auto simp: readable_def list_all2_conv_all_nth in_set_conv_nth)
  ultimately show "dec_list d v \<noteq> None" using traverse_total [of ys d] by (simp add: dec_list_def)
qed

lemma readable_table:
  assumes "txt ` set xs = set opts"
  shows "readable (ZEnum opts) (dec_table txt xs)"
  unfolding readable_def
proof (intro allI impI)
  fix u v assume "zparse (ZEnum opts) u = Some v"
  then obtain a where "v = JStr a" "a \<in> txt ` set xs"
    using assms by (auto simp: z_enum split: jsval.splits if_splits)
  then show "dec_table txt xs v \<noteq> None" by (auto simp: dec_table_def find_None_iff simp del: not_None_eq)
qed

lemma readable_role: "readable messageRoleSchema dec_role"
  unfolding messageRoleSchema_def dec_role_def by (rule readable_table) simp

lemma readable_status: "readable messageStatusSchema dec_status"
  unfolding messageStatusSchema_def dec_status_def by (rule readable_table) simp

lemma object_get:
  assumes "zparse (ZObject fs) u = Some v" "distinct (map fst fs)" "(k, s) \<in> set fs"
  shows "\<exists>w. zparse s w = Some (opt_prop v k)"
proof -
  obtain kvs out where u: "u = JObj kvs" "v = JObj out" "zod_fields zparse fs kvs = Some out"
    using assms(1) by (auto simp: z_object split: jsval.splits)
  from zod_fields_get [OF u(3) assms(2,3)] u(2) show ?thesis by blast
qed

lemma readable_get:
  assumes "zparse (ZObject fs) u = Some v" "distinct (map fst fs)" "(k, s) \<in> set fs" "readable s d"
  shows "\<exists>x. d (opt_prop v k) = Some x"
  using object_get [OF assms(1-3)] assms(4) by (auto simp: readable_def)

lemma readable_ne:
  "zparse (ZObject fs) u = Some v \<Longrightarrow> distinct (map fst fs) \<Longrightarrow> (k, s) \<in> set fs \<Longrightarrow> readable s d \<Longrightarrow>
     d (opt_prop v k) \<noteq> None"
  using readable_get by fastforce

lemma bind_ne: "m \<noteq> None \<Longrightarrow> (\<And>x. f x \<noteq> None) \<Longrightarrow> Option.bind m f \<noteq> None"
  by (cases m) auto

lemma readable_version: "readable messageVersionSchema dec_version"
  unfolding readable_def messageVersionSchema_def
proof (intro allI impI)
  fix u v assume z: "zparse (ZObject [(js ''id'', ZString), (js ''content'', ZString)]) u = Some v"
  show "dec_version v \<noteq> None"
    unfolding dec_version_def
    by (intro bind_ne readable_ne [OF z _ _ readable_basic(1)] option.distinct(2)) simp_all
qed

lemma readable_source: "readable sourceSchema dec_source"
  unfolding readable_def sourceSchema_def
proof (intro allI impI)
  fix u v assume z: "zparse (ZObject [(js ''href'', ZString), (js ''title'', ZString)]) u = Some v"
  show "dec_source v \<noteq> None"
    unfolding dec_source_def
    by (intro bind_ne readable_ne [OF z _ _ readable_basic(1)] option.distinct(2)) simp_all
qed

lemma readable_reasoning: "readable reasoningSchema dec_reasoning"
  unfolding readable_def reasoningSchema_def
proof (intro allI impI)
  fix u v
  assume z: "zparse (ZObject [(js ''content'', ZString), (js ''duration'', ZNumber), (js ''startedAt'', ZOptional ZNumber),
      (js ''completedAt'', ZOptional ZNumber), (js ''durationMs'', ZOptional ZNumber)]) u = Some v"
  note n = readable_ne [OF z _ _ readable_basic(2)] readable_ne [OF z _ _ readable_opt [OF readable_basic(2)]]
    readable_ne [OF z _ _ readable_basic(1)]
  show "dec_reasoning v \<noteq> None"
    unfolding dec_reasoning_def by (intro bind_ne n option.distinct(2)) simp_all
qed

lemma readable_message: "readable messageSchema dec_message"
  unfolding readable_def
proof (intro allI impI)
  fix u v assume z: "zparse messageSchema u = Some v"
  note z = z [unfolded messageSchema_def]
  note n = readable_ne [OF z _ _ readable_basic(1)] readable_ne [OF z _ _ readable_role]
    readable_ne [OF z _ _ readable_array [OF readable_version]]
    readable_ne [OF z _ _ readable_opt [OF readable_basic(2)]]
    readable_ne [OF z _ _ readable_opt [OF readable_array [OF readable_source]]]
    readable_ne [OF z _ _ readable_opt [OF readable_reasoning]]
    readable_ne [OF z _ _ readable_opt [OF readable_basic(3)]]
    readable_ne [OF z _ _ readable_opt [OF readable_status]]
    readable_ne [OF z _ _ readable_opt [OF readable_nullable [OF readable_basic(1)]]]
  show "dec_message v \<noteq> None"
    unfolding dec_message_def by (intro bind_ne n option.distinct(2)) simp_all
qed

lemma array_get:
  "zparse (ZArray n s) w = Some v \<Longrightarrow> \<exists>xs ys. v = JArr ys \<and> n \<le> length xs \<and> traverse (zparse s) xs = Some ys"
proof (cases w)
  case (JArr xs)
  assume "zparse (ZArray n s) w = Some v"
  with JArr show ?thesis by (auto simp: z_array not_less split: if_splits intro: exI [of _ xs])
qed (simp_all add: z_array)

lemma message_versions:
  assumes "zparse messageSchema u = Some v" "dec_message v = Some m"
  shows "versions m \<noteq> []"
proof -
  have "\<exists>w. zparse (ZArray 1 messageVersionSchema) w = Some (opt_prop v (js ''versions''))"
    by (rule object_get [OF assms(1) [unfolded messageSchema_def]]) simp_all
  then obtain xs ys where "opt_prop v (js ''versions'') = JArr ys" "1 \<le> length xs"
    "traverse (zparse messageVersionSchema) xs = Some ys"
    using array_get by blast
  moreover have "dec_list dec_version (opt_prop v (js ''versions'')) = Some (versions m)"
    using assms(2) by (auto simp: dec_message_def simp del: opt_prop_simps split: bind_splits)
  ultimately have "length (versions m) = length xs" "1 \<le> length xs"
    using traverse_length by (auto simp: dec_list_def dest!: traverse_length)
  then show ?thesis by auto
qed

text \<open>A stored list that passed the schema is a list of messages with a current version each.\<close>

lemma messages_readable:
  assumes "zparse messagesSchema u = Some v"
  shows "\<exists>ms. dec_messages v = Some ms \<and> list_all (\<lambda>m. versions m \<noteq> []) ms"
proof -
  from assms obtain xs ys where v: "v = JArr ys" and t: "traverse (zparse messageSchema) xs = Some ys"
    by (auto simp: messagesSchema_def z_array split: jsval.splits if_splits)
  have ne: "\<And>y. y \<in> set ys \<Longrightarrow> dec_message y \<noteq> None \<and> (\<forall>m. dec_message y = Some m \<longrightarrow> versions m \<noteq> [])"
    using traverse_Some [OF t] readable_message message_versions
    by (auto simp: readable_def list_all2_conv_all_nth in_set_conv_nth)
  then obtain ms where ms: "traverse dec_message ys = Some ms"
    using traverse_total [of ys dec_message] by blast
  have "list_all (\<lambda>m. versions m \<noteq> []) ms"
    using traverse_Some [OF ms] ne unfolding list_all_length list_all2_conv_all_nth by (metis nth_mem)
  with v ms show ?thesis by (simp add: dec_messages_def dec_list_def)
qed

end

end
