(* ===== verification/Storage.thy ===== *)
theory Storage
  imports Schema
begin

text \<open>
  Persistence of the playground (\<open>lib/storage/storage.ts\<close>): reading, checking and writing the
  configuration, the parameter switches and the conversation in the browser's \<open>localStorage\<close>,
  and the repairs and limits applied to a stored conversation when it is loaded.

  The storage is a map from keys to texts. \<open>setItem\<close> throws when the browser refuses the write
  (quota): \<open>accepts\<close> tells whether it takes a text under a key. zod's \<open>parse\<close> is the parameter
  \<open>zparse\<close>.
\<close>

section \<open>Limits\<close>

type_synonym store = "jsstr \<Rightarrow> jsstr option"
type_synonym quota = "store \<Rightarrow> jsstr \<Rightarrow> jsstr \<Rightarrow> bool"
type_synonym zod = "zschema \<Rightarrow> jsval \<Rightarrow> jsval option"

definition STORAGE_VERSION :: rat where "STORAGE_VERSION = 1"
definition MAX_STORED_MESSAGES :: nat where "MAX_STORED_MESSAGES = 100"
definition MAX_STORED_MESSAGES_BYTES :: nat where "MAX_STORED_MESSAGES_BYTES = 1024 * 1024"
definition MAX_LOADED_MESSAGES_CHARS :: nat where "MAX_LOADED_MESSAGES_CHARS = 120000"
definition MAX_LOADED_MESSAGE_CHARS :: nat where "MAX_LOADED_MESSAGE_CHARS = 40000"
definition MIN_PREFIX_COLLAPSE_LENGTH :: nat where "MIN_PREFIX_COLLAPSE_LENGTH = 2000"
definition MIN_REPEATED_SECTION_COUNT :: nat where "MIN_REPEATED_SECTION_COUNT = 3"

abbreviation KEY_CONFIG :: jsstr where "KEY_CONFIG \<equiv> js ''playground_config''"
abbreviation KEY_MESSAGES :: jsstr where "KEY_MESSAGES \<equiv> js ''playground_messages''"
abbreviation KEY_PARAMETER_ENABLED :: jsstr where "KEY_PARAMETER_ENABLED \<equiv> js ''playground_parameter_enabled''"

definition TRUNCATED_CONTENT_SUFFIX :: jsstr where
  "TRUNCATED_CONTENT_SUFFIX = [10, 10] @ js ''[...]''"

text \<open>\<open>/^#{2,6}\s+\d+\.\s+.+$/gm\<close>\<close>

definition SECTION_HEADING_LINE_PATTERN :: "re_item list" where
  "SECTION_HEADING_LINE_PATTERN =
     [Bol, Rep (\<lambda>c. c = 35) 2 (Some 6), Rep is_space 1 None, Rep is_digit 1 None,
      Rep (\<lambda>c. c = 46) 1 (Some 1), Rep is_space 1 None, Rep (\<lambda>c. \<not> is_line_term c) 1 None, Eol]"

section \<open>Reading and writing values\<close>

text \<open>\<^term>\<open>None\<close> is the SyntaxError of \<open>JSON.parse\<close>; a missing or empty text reads as \<open>null\<close>.\<close>

definition readStoredValue :: "store \<Rightarrow> jsstr \<Rightarrow> jsval option" where
  "readStoredValue st key =
     (case st key of
        None \<Rightarrow> Some JNull
      | Some saved \<Rightarrow> (if saved = [] then Some JNull else json_parse saved))"

definition readStoredMessagesValue :: "store \<Rightarrow> jsval option \<times> store" where
  "readStoredMessagesValue st =
     (case st KEY_MESSAGES of
        None \<Rightarrow> (Some JNull, st)
      | Some saved \<Rightarrow>
          (if saved = [] then (Some JNull, st)
           else if length saved > MAX_STORED_MESSAGES_BYTES then (Some JNull, st(KEY_MESSAGES := None))
           else (json_parse saved, st)))"

definition unwrapStoredValue :: "jsval \<Rightarrow> jsval" where
  "unwrapStoredValue v =
     (case v of
        JObj kvs \<Rightarrow>
          (if js ''version'' \<in> fst ` set kvs \<and> js ''data'' \<in> fst ` set kvs
           then opt_prop v (js ''data'') else v)
      | _ \<Rightarrow> v)"

definition envelope :: "jsval \<Rightarrow> jsval" where
  "envelope data = obj_json [(js ''version'', JNum STORAGE_VERSION), (js ''data'', data)]"

definition writeStoredValue :: "quota \<Rightarrow> jsstr \<Rightarrow> jsval \<Rightarrow> store \<Rightarrow> store option" where
  "writeStoredValue accepts key data st =
     (let payload = stringify (envelope data)
      in if accepts st key payload then Some (st(key \<mapsto> payload)) else None)"

section \<open>Limiting a conversation\<close>

definition trimMessages :: "Message list \<Rightarrow> Message list" where
  "trimMessages messages =
     (if length messages \<le> MAX_STORED_MESSAGES then messages
      else drop (length messages - MAX_STORED_MESSAGES) messages)"

definition getMessageSize :: "Message \<Rightarrow> nat" where
  "getMessageSize message =
     (let versionsSize = foldl (\<lambda>total v. total + length (version_content v)) 0 (versions message);
          reasoningSize = (case reasoning message of Some r \<Rightarrow> length (r_content r) | None \<Rightarrow> 0)
      in versionsSize + reasoningSize)"

definition truncateText :: "jsstr \<Rightarrow> nat \<Rightarrow> jsstr" where
  "truncateText s maxLength =
     (if length s \<le> maxLength then s
      else if maxLength \<le> length TRUNCATED_CONTENT_SUFFIX then take maxLength s
      else take (maxLength - length TRUNCATED_CONTENT_SUFFIX) s @ TRUNCATED_CONTENT_SUFFIX)"

record SectionOccurrence =
  heading :: jsstr
  occ_index :: nat

definition getSectionOccurrences :: "jsstr \<Rightarrow> SectionOccurrence list" where
  "getSectionOccurrences s =
     map (\<lambda>(h, i). \<lparr>heading = h, occ_index = i\<rparr>) (match_all SECTION_HEADING_LINE_PATTERN True 0 s)"

definition getHeadingCounts :: "SectionOccurrence list \<Rightarrow> jsstr \<Rightarrow> nat option" where
  "getHeadingCounts occurrences =
     foldl (\<lambda>counts c. counts(heading c \<mapsto> (case counts (heading c) of Some n \<Rightarrow> n | None \<Rightarrow> 0) + 1))
       Map.empty occurrences"

text \<open>The descending loop over the occurrences, on the reversed list.\<close>

fun repeated_indexes :: "(jsstr \<Rightarrow> nat option) \<Rightarrow> SectionOccurrence list \<Rightarrow> jsstr list \<Rightarrow> nat list" where
  "repeated_indexes counts [] seen = []"
| "repeated_indexes counts (c # cs) seen =
     (if (case counts (heading c) of Some n \<Rightarrow> n | None \<Rightarrow> 0) < MIN_REPEATED_SECTION_COUNT
         \<or> heading c \<in> set seen
      then repeated_indexes counts cs seen
      else occ_index c # repeated_indexes counts cs (heading c # seen))"

text \<open>\<^term>\<open>None\<close> for \<open>-1\<close>.\<close>

definition findLastRepeatedSectionRunStart :: "jsstr \<Rightarrow> nat option" where
  "findLastRepeatedSectionRunStart s =
     (let occurrences = getSectionOccurrences s;
          headingCounts = getHeadingCounts occurrences;
          lastRepeatedIndexes = repeated_indexes headingCounts (rev occurrences) []
      in case lastRepeatedIndexes of
           [] \<Rightarrow> None
         | i # is \<Rightarrow> Some (foldl min i is))"

definition collapseRepeatedSectionSnapshots :: "jsstr \<Rightarrow> jsstr" where
  "collapseRepeatedSectionSnapshots s =
     (if length s < MIN_PREFIX_COLLAPSE_LENGTH then s
      else case findLastRepeatedSectionRunStart s of None \<Rightarrow> s | Some i \<Rightarrow> drop i s)"

definition normalize_version :: "MessageVersion \<Rightarrow> MessageVersion" where
  "normalize_version version =
     (let collapsedContent = collapseRepeatedSectionSnapshots (version_content version);
          content = truncateText collapsedContent MAX_LOADED_MESSAGE_CHARS
      in if content = version_content version \<and> collapsedContent = version_content version then version
         else version\<lparr>version_content := content\<rparr>)"

definition version_changes :: "MessageVersion \<Rightarrow> bool" where
  "version_changes version \<longleftrightarrow>
     \<not> (truncateText (collapseRepeatedSectionSnapshots (version_content version)) MAX_LOADED_MESSAGE_CHARS
          = version_content version
        \<and> collapseRepeatedSectionSnapshots (version_content version) = version_content version)"

definition normalizeStoredMessageForLoad :: "rat \<Rightarrow> rat \<Rightarrow> rat \<Rightarrow> Message \<Rightarrow> Message" where
  "normalizeStoredMessageForLoad t1 t2 now message =
     (let versions' = map normalize_version (versions message);
          reasoning' = map_option (\<lambda>r. r\<lparr>r_content := truncateText (r_content r) MAX_LOADED_MESSAGE_CHARS\<rparr>)
                         (reasoning message);
          changed = (list_ex version_changes (versions message)
            \<or> map_option r_content reasoning' \<noteq> map_option r_content (reasoning message));
          normalized = (if changed then message\<lparr>versions := versions', reasoning := reasoning'\<rparr> else message)
      in if \<not> isAssistantMessagePending normalized then normalized
         else
           (let hasContent = hasMessageContent normalized;
                hasReasoning = (case reasoning normalized of Some r \<Rightarrow> trim (r_content r) \<noteq> [] | None \<Rightarrow> False)
            in if \<not> hasContent \<and> \<not> hasReasoning then normalized
               else
                 (let completed = (case orelse (completedAt normalized)
                          (orelse (Option.bind (reasoning normalized) r_completedAt)
                            (orelse (startedAt normalized) (createdAt normalized))) of
                          Some t \<Rightarrow> t | None \<Rightarrow> now)
                  in completeAssistantTiming
                       ((finalizeMessage t1 t2 normalized None)
                          \<lparr>status := Some Complete, isReasoningStreaming := Some False\<rparr>)
                       completed)))"

text \<open>The descending loop, on the reversed list; \<open>result\<close> is reversed at the end.\<close>

fun size_loop :: "Message list \<Rightarrow> nat \<Rightarrow> Message list \<Rightarrow> Message list" where
  "size_loop [] totalSize result = result"
| "size_loop (message # ms) totalSize result =
     (let messageSize = getMessageSize message in
      if length result > 0 \<and> totalSize + messageSize > MAX_LOADED_MESSAGES_CHARS then result
      else size_loop ms (totalSize + messageSize) (result @ [message]))"

definition trimMessagesByContentSize :: "Message list \<Rightarrow> Message list" where
  "trimMessagesByContentSize messages = rev (size_loop (rev messages) 0 [])"

section \<open>Configuration and switches\<close>

definition config_fields :: "PlaygroundConfig \<Rightarrow> (jsstr \<times> jsval) list" where
  "config_fields c =
     [(js ''model'', JStr (model c)), (js ''group'', JStr (group c)),
      (js ''temperature'', JNum (temperature c)), (js ''top_p'', JNum (top_p c)),
      (js ''max_tokens'', JNum (max_tokens c)), (js ''frequency_penalty'', JNum (frequency_penalty c)),
      (js ''presence_penalty'', JNum (presence_penalty c)), (js ''seed'', enc_nullable JNum (seed c)),
      (js ''stream'', JBool (stream c))]"

definition params_fields :: "ParameterEnabled \<Rightarrow> (jsstr \<times> jsval) list" where
  "params_fields p =
     [(js ''temperature'', JBool (en_temperature p)), (js ''top_p'', JBool (en_top_p p)),
      (js ''max_tokens'', JBool (en_max_tokens p)), (js ''frequency_penalty'', JBool (en_frequency_penalty p)),
      (js ''presence_penalty'', JBool (en_presence_penalty p)), (js ''seed'', JBool (en_seed p))]"

definition load_partial :: "zod \<Rightarrow> zschema \<Rightarrow> jsstr \<Rightarrow> store \<Rightarrow> jsval" where
  "load_partial zparse schema key st =
     (case readStoredValue st key of
        None \<Rightarrow> JObj []
      | Some saved \<Rightarrow>
          (if \<not> truthy saved then JObj []
           else case zparse schema (unwrapStoredValue saved) of Some v \<Rightarrow> v | None \<Rightarrow> JObj []))"

definition save_checked :: "zod \<Rightarrow> quota \<Rightarrow> zschema \<Rightarrow> jsstr \<Rightarrow> jsval \<Rightarrow> store \<Rightarrow> store" where
  "save_checked zparse accepts schema key v st =
     (case zparse schema v of
        None \<Rightarrow> st
      | Some parsed \<Rightarrow> (case writeStoredValue accepts key parsed st of Some st' \<Rightarrow> st' | None \<Rightarrow> st))"

definition loadConfig :: "zod \<Rightarrow> store \<Rightarrow> jsval" where
  "loadConfig zparse st = load_partial zparse playgroundConfigSchema KEY_CONFIG st"

definition saveConfig :: "zod \<Rightarrow> quota \<Rightarrow> PlaygroundConfig \<Rightarrow> store \<Rightarrow> store" where
  "saveConfig zparse accepts config st =
     save_checked zparse accepts playgroundConfigSchema KEY_CONFIG (obj_json (config_fields config)) st"

definition loadParameterEnabled :: "zod \<Rightarrow> store \<Rightarrow> jsval" where
  "loadParameterEnabled zparse st = load_partial zparse parameterEnabledSchema KEY_PARAMETER_ENABLED st"

definition saveParameterEnabled :: "zod \<Rightarrow> quota \<Rightarrow> ParameterEnabled \<Rightarrow> store \<Rightarrow> store" where
  "saveParameterEnabled zparse accepts p st =
     save_checked zparse accepts parameterEnabledSchema KEY_PARAMETER_ENABLED (obj_json (params_fields p)) st"

text \<open>\<open>{ ...defaults, ...loaded }\<close>: a field of the loaded object wins where it is present.\<close>

definition spread :: "(jsval \<Rightarrow> 'a option) \<Rightarrow> jsval \<Rightarrow> char list \<Rightarrow> 'a \<Rightarrow> 'a" where
  "spread d v k old = (case d (opt_prop v (js k)) of Some x \<Rightarrow> x | None \<Rightarrow> old)"

definition getInitialPlaygroundConfig :: "zod \<Rightarrow> store \<Rightarrow> PlaygroundConfig" where
  "getInitialPlaygroundConfig zparse st =
     (let v = loadConfig zparse st; d = DEFAULT_CONFIG in
      \<lparr>model = spread dec_str v ''model'' (model d), group = spread dec_str v ''group'' (group d),
       temperature = spread dec_num v ''temperature'' (temperature d),
       top_p = spread dec_num v ''top_p'' (top_p d), max_tokens = spread dec_num v ''max_tokens'' (max_tokens d),
       frequency_penalty = spread dec_num v ''frequency_penalty'' (frequency_penalty d),
       presence_penalty = spread dec_num v ''presence_penalty'' (presence_penalty d),
       seed = spread (dec_nullable dec_num) v ''seed'' (seed d),
       stream = spread dec_bool v ''stream'' (stream d)\<rparr>)"

definition getInitialParameterEnabled :: "zod \<Rightarrow> store \<Rightarrow> ParameterEnabled" where
  "getInitialParameterEnabled zparse st =
     (let v = loadParameterEnabled zparse st; d = DEFAULT_PARAMETER_ENABLED in
      \<lparr>en_temperature = spread dec_bool v ''temperature'' (en_temperature d),
       en_top_p = spread dec_bool v ''top_p'' (en_top_p d),
       en_max_tokens = spread dec_bool v ''max_tokens'' (en_max_tokens d),
       en_frequency_penalty = spread dec_bool v ''frequency_penalty'' (en_frequency_penalty d),
       en_presence_penalty = spread dec_bool v ''presence_penalty'' (en_presence_penalty d),
       en_seed = spread dec_bool v ''seed'' (en_seed d)\<rparr>)"

section \<open>The conversation\<close>

definition saveMessages :: "zod \<Rightarrow> quota \<Rightarrow> Message list \<Rightarrow> store \<Rightarrow> store" where
  "saveMessages zparse accepts messages st =
     save_checked zparse accepts messagesSchema KEY_MESSAGES (messages_json (trimMessages messages)) st"

text \<open>
  \<open>normalize c i\<close> gives each message its own clock readings. The loaded conversation is always
  written back: \<open>trimMessagesByContentSize\<close> returns a new array, so \<open>sizeTrimmed !== trimmed\<close>
  holds whether or not something was dropped.
\<close>

definition loadMessages ::
    "zod \<Rightarrow> quota \<Rightarrow> (jsstr \<Rightarrow> jsstr) \<Rightarrow> (nat \<Rightarrow> nat \<Rightarrow> rat) \<Rightarrow> store \<Rightarrow> Message list option \<times> store" where
  "loadMessages zparse accepts tr c st =
     (case readStoredMessagesValue st of
        (None, st1) \<Rightarrow> (None, st1)
      | (Some saved, st1) \<Rightarrow>
          (if \<not> truthy saved then (None, st1)
           else case Option.bind (zparse messagesSchema (unwrapStoredValue saved)) dec_messages of
                  None \<Rightarrow> (None, st1)
                | Some parsed \<Rightarrow>
                    (let normalized = map (\<lambda>(i, m). normalizeStoredMessageForLoad (c (Suc i) 0) (c (Suc i) 1) (c (Suc i) 2) m)
                           (List.enumerate 0 parsed);
                         trimmed = trimMessages normalized;
                         sizeTrimmed = trimMessagesByContentSize trimmed;
                         sanitized = sanitizeMessagesOnLoad tr (c 0 0) (c 0 1) (c 0 2) sizeTrimmed
                     in (Some sanitized, saveMessages zparse accepts sanitized st1))))"

definition getInitialMessages ::
    "zod \<Rightarrow> quota \<Rightarrow> (jsstr \<Rightarrow> jsstr) \<Rightarrow> (nat \<Rightarrow> nat \<Rightarrow> rat) \<Rightarrow> store \<Rightarrow> Message list \<times> store" where
  "getInitialMessages zparse accepts tr c st =
     (case loadMessages zparse accepts tr c st of
        (Some ms, st') \<Rightarrow> (ms, st')
      | (None, st') \<Rightarrow> ([], st'))"

definition clearPlaygroundData :: "store \<Rightarrow> store" where
  "clearPlaygroundData st = st(KEY_CONFIG := None, KEY_PARAMETER_ENABLED := None, KEY_MESSAGES := None)"

section \<open>Stored forms are read back\<close>

definition decimal_opt :: "rat option \<Rightarrow> bool" where
  "decimal_opt x = (case x of None \<Rightarrow> True | Some q \<Rightarrow> decimal q)"

lemma decimal_opt_simps [simp]: "decimal_opt None" "decimal_opt (Some q) = decimal q"
  by (simp_all add: decimal_opt_def)

definition reasoning_decimal :: "Reasoning \<Rightarrow> bool" where
  "reasoning_decimal r \<longleftrightarrow> decimal (r_duration r) \<and> list_all decimal_opt [r_startedAt r, r_completedAt r, r_durationMs r]"

definition message_decimal :: "Message \<Rightarrow> bool" where
  "message_decimal m \<longleftrightarrow> list_all decimal_opt [createdAt m, startedAt m, completedAt m, durationMs m]
     \<and> (case reasoning m of None \<Rightarrow> True | Some r \<Rightarrow> reasoning_decimal r)"

lemma json_wf_obj_json:
  assumes "distinct (map fst fs)" "list_all (\<lambda>(k, v). \<not> is_index_key k) fs"
    "\<And>k v. (k, v) \<in> set fs \<Longrightarrow> v \<noteq> JUndef \<Longrightarrow> json_wf v"
  shows "json_wf (obj_json fs)"
proof -
  have "obj_of (drop_undef fs) = drop_undef fs"
    using assms(1,2) by (intro obj_of_id) (auto simp: drop_undef_def list_all_iff distinct_map_filter)
  then show ?thesis using assms(3) by (auto simp: obj_json_def drop_undef_def)
qed

lemma enc_opt_wf:
  "enc_opt e x \<noteq> JUndef \<Longrightarrow> (\<And>y. x = Some y \<Longrightarrow> json_wf (e y)) \<Longrightarrow> json_wf (enc_opt e x)"
  by (simp add: enc_opt_def split: option.splits)

lemma enc_num_wf: "enc_opt JNum x \<noteq> JUndef \<Longrightarrow> decimal_opt x \<Longrightarrow> json_wf (enc_opt JNum x)"
  by (simp add: enc_opt_def decimal_opt_def split: option.splits)

lemma enc_nullable_wf: "(\<And>y. x = Some y \<Longrightarrow> json_wf (e y)) \<Longrightarrow> json_wf (enc_nullable e x)"
  by (simp add: enc_nullable_def split: option.splits)

lemma json_wf_version: "json_wf (obj_json (version_fields v))"
  by (rule json_wf_obj_json) (auto simp: version_fields_def obj_literal)

lemma json_wf_source: "json_wf (obj_json (source_fields v))"
  by (rule json_wf_obj_json) (auto simp: source_fields_def obj_literal)

lemma json_wf_reasoning: "reasoning_decimal r \<Longrightarrow> json_wf (obj_json (reasoning_fields r))"
  by (rule json_wf_obj_json) (auto simp: reasoning_fields_def reasoning_decimal_def obj_literal intro: enc_num_wf)

lemma json_wf_params: "json_wf (obj_json (params_fields p))"
  by (rule json_wf_obj_json) (auto simp: params_fields_def obj_literal)

lemma json_wf_config: "config_decimal c \<Longrightarrow> json_wf (obj_json (config_fields c))"
  by (rule json_wf_obj_json)
    (auto simp: config_fields_def config_decimal_def decimal_opt_def obj_literal intro!: enc_nullable_wf)

lemma json_wf_message:
  assumes "message_decimal m"
  shows "json_wf (obj_json (message_fields m))"
proof (rule json_wf_obj_json)
  show "distinct (map fst (message_fields m))" "list_all (\<lambda>(k, v). \<not> is_index_key k) (message_fields m)"
    by (simp_all add: message_fields_def obj_literal)
  fix k v assume "(k, v) \<in> set (message_fields m)" "v \<noteq> JUndef"
  with assms show "json_wf v"
    by (auto simp: message_fields_def message_decimal_def json_wf_version json_wf_source json_wf_reasoning
        intro!: enc_opt_wf enc_nullable_wf intro: enc_num_wf)
qed

lemma json_wf_messages: "list_all message_decimal ms \<Longrightarrow> json_wf (messages_json ms)"
  by (auto simp: messages_json_def list_all_iff json_wf_message)

lemma json_wf_envelope: "json_wf v \<Longrightarrow> json_wf (envelope v)"
  unfolding envelope_def using decimal_of_int [of 1]
  by (intro json_wf_obj_json) (auto simp: obj_literal STORAGE_VERSION_def)

lemma unwrap_envelope: "v \<noteq> JUndef \<Longrightarrow> unwrapStoredValue (envelope v) = v"
  by (simp add: unwrapStoredValue_def envelope_def obj_json_def drop_undef_def)

lemma truthy_envelope [simp]: "truthy (envelope v)"
  by (simp add: envelope_def obj_json_def)

text \<open>
  The contract of a stored value: what is saved has a JSON form that the schema accepts
  unchanged. The locale gives what saving writes and what loading then returns.
\<close>

locale stored_codec =
  fixes zparse :: zod and schema :: zschema and enc :: "'a \<Rightarrow> jsval" and storable :: "'a \<Rightarrow> bool"
  assumes codec_exact: "storable x \<Longrightarrow> zparse schema (enc x) = Some (enc x)"
    and codec_wf: "storable x \<Longrightarrow> json_wf (enc x)"
begin

definition stored_text :: "'a \<Rightarrow> jsstr" where
  "stored_text x = stringify (envelope (enc x))"

lemma save_writes:
  "storable x \<Longrightarrow> accepts st key (stored_text x) \<Longrightarrow>
     save_checked zparse accepts schema key (enc x) st = st(key \<mapsto> stored_text x)"
  by (simp add: save_checked_def codec_exact writeStoredValue_def stored_text_def)

lemma save_refused:
  "storable x \<Longrightarrow> \<not> accepts st key (stored_text x) \<Longrightarrow> save_checked zparse accepts schema key (enc x) st = st"
  by (simp add: save_checked_def codec_exact writeStoredValue_def stored_text_def)

lemma parse_stored: "storable x \<Longrightarrow> json_parse (stored_text x) = Some (envelope (enc x))"
  by (simp add: stored_text_def json.dec_enc json_wf_envelope codec_wf)

lemma stored_not_Nil: "storable x \<Longrightarrow> stored_text x \<noteq> []"
  by (simp add: stored_text_def json.enc_not_empty json_wf_envelope codec_wf)

lemma unwrap_stored: "storable x \<Longrightarrow> unwrapStoredValue (envelope (enc x)) = enc x"
  using codec_wf by (intro unwrap_envelope) (auto dest: json_wf_not_undef)

lemma load_stored: "storable x \<Longrightarrow> st key = Some (stored_text x) \<Longrightarrow> load_partial zparse schema key st = enc x"
  by (simp add: load_partial_def readStoredValue_def stored_not_Nil parse_stored unwrap_stored codec_exact)

end


definition conversation_storable :: "Message list \<Rightarrow> bool" where
  "conversation_storable ms \<longleftrightarrow> list_all (\<lambda>m. versions m \<noteq> [] \<and> message_decimal m) ms"

sublocale zod_parser \<subseteq> config_codec:
  stored_codec zparse playgroundConfigSchema "\<lambda>c. obj_json (config_fields c)" config_decimal
proof (unfold_locales, goal_cases)
  case (1 c)
  have "exact playgroundConfigSchema (obj_json (config_fields c))"
    unfolding playgroundConfigSchema_def config_fields_def
    using exact_opt [of "Some (seed c)" "ZNullable ZNumber" "enc_nullable JNum"]
      exact_opt [of "Some (JStr a)" ZString id for a] exact_opt [of "Some (JNum n)" ZNumber id for n]
      exact_opt [of "Some (JBool b)" ZBoolean id for b]
    by (intro exact_object) (simp_all add: exact_basic exact_nullable enc_opt_def)
  then show ?case by (simp add: exact_def)
qed (rule json_wf_config)

sublocale zod_parser \<subseteq> params_codec:
  stored_codec zparse parameterEnabledSchema "\<lambda>p. obj_json (params_fields p)" "\<lambda>_. True"
proof (unfold_locales, goal_cases)
  case (1 p)
  have "exact parameterEnabledSchema (obj_json (params_fields p))"
    unfolding parameterEnabledSchema_def params_fields_def
    using exact_opt [of "Some (JBool b)" ZBoolean id for b]
    by (intro exact_object) (simp_all add: exact_basic enc_opt_def)
  then show ?case by (simp add: exact_def)
qed (rule json_wf_params)

sublocale zod_parser \<subseteq> messages_codec: stored_codec zparse messagesSchema messages_json conversation_storable
proof (unfold_locales, goal_cases)
  case (1 ms)
  with exact_messages [of ms] show ?case by (auto simp: exact_def conversation_storable_def list_all_iff)
next
  case (2 ms)
  with json_wf_messages [of ms] show ?case by (auto simp: conversation_storable_def list_all_iff)
qed

end
