(* ===== verification/StorageProperties.thy ===== *)
theory StorageProperties
  imports Storage
begin

text \<open>
  What persistence guarantees: saved values are read back, whatever is found in the storage loads
  as defaults or as a conversation within the limits of the source.
\<close>

section \<open>Limits\<close>

lemma length_truncateText: "length (truncateText s n) \<le> n"
  by (auto simp: truncateText_def)

lemma truncateText_id: "length s \<le> n \<Longrightarrow> truncateText s n = s"
  by (simp add: truncateText_def)

lemma getMessageSize_sum:
  "getMessageSize m = sum_list (map (\<lambda>v. length (version_content v)) (versions m)) + length (reasoning_text m)"
proof -
  have fold: "foldl (\<lambda>total v. total + length (version_content v)) n vs
      = n + sum_list (map (\<lambda>v. length (version_content v)) vs)" for n vs
    by (induction vs arbitrary: n) simp_all
  show ?thesis unfolding getMessageSize_def Let_def fold by (simp split: option.splits)
qed

lemma getMessageSize_current: "versions m \<noteq> [] \<Longrightarrow> length (getMessageContent m) + length (reasoning_text m) \<le> getMessageSize m"
  by (cases "versions m") (auto simp: getMessageSize_sum getMessageContent_def)

lemma length_join_snoc: "length (join sep (ss @ [s])) \<le> length (join sep ss) + length sep + length s"
proof (induction ss)
  case (Cons t ss)
  then show ?case by (cases ss) auto
qed simp

text \<open>The think-tag parser distributes the text: the tags it removes pay for the separators.\<close>

lemma think_loop_length:
  "think_loop content pos vis reas = (v, r, u) \<Longrightarrow> pos \<le> length content \<Longrightarrow>
     length (join [] v) + length (join [10, 10] r)
       \<le> length (join [] vis) + length (join [10, 10] reas) + (length content - pos)"
proof (induction content pos vis reas rule: think_loop.induct)
  case (1 content pos vis reas)
  show ?case
  proof (cases "indexOf content open_tag pos")
    case None
    with "1.prems" show ?thesis
      by (subst (asm) think_loop.simps) (auto simp: join_Nil_concat split: if_splits)
  next
    case (Some openPos)
    let ?vis = "if openPos > pos then vis @ [slice content pos openPos] else vis"
    from indexOf_progress [OF Some] have o: "pos \<le> openPos" "openPos + 7 \<le> length content" by simp_all
    then have lv: "length (join [] ?vis) \<le> length (join [] vis) + (openPos - pos)"
      by (auto simp: join_Nil_concat slice_def)
    show ?thesis
    proof (cases "indexOf content close_tag (openPos + 7)")
      case None
      have "think_loop content pos vis reas = (?vis, reas @ [drop (openPos + 7) content], True)"
        by (subst think_loop.simps) (simp add: Some None Let_def)
      with "1.prems"(1) have "v = ?vis" "r = reas @ [drop (openPos + 7) content]" by simp_all
      then show ?thesis
        using lv o length_join_snoc [of "[10, 10]" reas "drop (openPos + 7) content"] by simp
    next
      case c: (Some closePos)
      from indexOf_progress [OF c] have p: "openPos + 7 \<le> closePos" "closePos + 8 \<le> length content" by simp_all
      let ?reas = "reas @ [slice content (openPos + 7) closePos]"
      have "think_loop content (closePos + 8) ?vis ?reas = (v, r, u)"
        using "1.prems"(1) Some c by (subst (asm) think_loop.simps) (simp add: Let_def)
      from "1.IH" [OF Some refl c this p(2)] lv o p
        length_join_snoc [of "[10, 10]" reas "slice content (openPos + 7) closePos"]
      show ?thesis by (simp add: slice_def)
    qed
  qed
qed

lemma parseThinkTags_length:
  "length (visibleContent (parseThinkTags c)) + length (think_reasoning (parseThinkTags c)) \<le> length c"
proof (cases "includesStr c open_tag")
  case True
  obtain v r u where t: "think_loop c 0 [] [] = (v, r, u)" by (cases "think_loop c 0 [] []") auto
  from think_loop_length [OF t] True t length_trim [of "join [] v"] length_trim [of "join [10, 10] r"]
  show ?thesis by (simp add: parseThinkTags_def)
qed (simp add: parseThinkTags_def)

lemma finalizeMessage_size:
  assumes "versions m \<noteq> []"
  shows "getMessageSize (finalizeMessage t1 t2 m None) \<le> length (getMessageContent m) + length (reasoning_text m)"
proof -
  obtain x where x: "versions (finalizeMessage t1 t2 m None) = [x]"
    by (simp add: finalizeMessage_def Let_def updateCurrentVersionContent_def)
  then have "version_content x = final_content (getMessageContent m)"
    using getMessageContent_finalize [of t1 t2 m None] by (simp add: getMessageContent_def del: getMessageContent_finalize)
  with x parseThinkTags_length [of "getMessageContent m"] show ?thesis
    by (auto simp: getMessageSize_sum final_content_def final_reasoning_def or_str_def)
qed


abbreviation total_size :: "Message list \<Rightarrow> nat" where
  "total_size ms \<equiv> sum_list (map getMessageSize ms)"

definition fits :: "nat \<Rightarrow> nat \<Rightarrow> Message list \<Rightarrow> nat \<Rightarrow> bool" where
  "fits n tot ms k \<longleftrightarrow>
     (n + k \<le> 1 \<or> tot + total_size (take k ms) \<le> MAX_LOADED_MESSAGES_CHARS)
     \<and> (k < length ms \<longrightarrow> 0 < n + k \<and> MAX_LOADED_MESSAGES_CHARS < tot + total_size (take (Suc k) ms))"

lemma fits_0: "n \<le> 1 \<or> tot \<le> MAX_LOADED_MESSAGES_CHARS \<Longrightarrow> 0 < n \<Longrightarrow>
    MAX_LOADED_MESSAGES_CHARS < tot + getMessageSize m \<Longrightarrow> fits n tot (m # ms) 0"
  by (simp add: fits_def)

lemma fits_Suc: "fits (Suc n) (tot + getMessageSize m) ms k \<Longrightarrow> fits n tot (m # ms) (Suc k)"
  by (simp add: fits_def add.assoc)

lemma size_loop_take:
  assumes "length res \<le> 1 \<or> tot \<le> MAX_LOADED_MESSAGES_CHARS"
  shows "\<exists>k \<le> length ms. size_loop ms tot res = res @ take k ms \<and> fits (length res) tot ms k"
  using assms
proof (induction ms arbitrary: tot res)
  case Nil
  then show ?case by (simp add: fits_def)
next
  case (Cons m ms)
  show ?case
  proof (cases "length res > 0 \<and> tot + getMessageSize m > MAX_LOADED_MESSAGES_CHARS")
    case True
    with Cons.prems fits_0 [of "length res" tot m ms] show ?thesis by (intro exI [of _ 0]) simp
  next
    case False
    then have "length (res @ [m]) \<le> 1 \<or> tot + getMessageSize m \<le> MAX_LOADED_MESSAGES_CHARS" by auto
    from Cons.IH [OF this] obtain k where "k \<le> length ms"
      "size_loop ms (tot + getMessageSize m) (res @ [m]) = (res @ [m]) @ take k ms"
      "fits (Suc (length res)) (tot + getMessageSize m) ms k" by auto
    with False show ?thesis
      by (intro exI [of _ "Suc k"]) (auto simp: fits_Suc Let_def)
  qed
qed

lemma rev_take_rev: "rev (take j (rev ms)) = drop (length ms - j) ms"
  by (simp add: take_rev)

lemma total_size_take_rev: "total_size (take j (rev ms)) = total_size (drop (length ms - j) ms)"
  by (simp add: take_rev sum_list_rev flip: rev_map)

lemma trim_by_size_drop:
  "\<exists>k \<le> length ms. trimMessagesByContentSize ms = drop k ms
    \<and> (length ms \<le> k + 1 \<or> total_size (drop k ms) \<le> MAX_LOADED_MESSAGES_CHARS)
    \<and> (0 < k \<longrightarrow> k < length ms \<and> MAX_LOADED_MESSAGES_CHARS < total_size (drop (k - 1) ms))"
proof -
  obtain j where j: "j \<le> length ms" "size_loop (rev ms) 0 [] = take j (rev ms)" "fits 0 0 (rev ms) j"
    using size_loop_take [of "[]" 0 "rev ms"] by auto
  let ?k = "length ms - j"
  have "trimMessagesByContentSize ms = drop ?k ms"
    by (simp add: trimMessagesByContentSize_def j rev_take_rev)
  moreover have "length ms \<le> ?k + 1 \<or> total_size (drop ?k ms) \<le> MAX_LOADED_MESSAGES_CHARS"
    using j(3) by (auto simp: fits_def total_size_take_rev)
  moreover have "?k - 1 = length ms - Suc j" by simp
  then have "0 < ?k \<longrightarrow> ?k < length ms \<and> MAX_LOADED_MESSAGES_CHARS < total_size (drop (?k - 1) ms)"
    using j(3) by (auto simp: fits_def total_size_take_rev)
  ultimately show ?thesis by (intro exI [of _ ?k]) simp
qed

text \<open>
  C20: limiting a conversation by size keeps the longest run of newest messages that fits the
  limit, and at least the newest message: one message more would exceed the limit.
\<close>

theorem size_trim_keeps_longest_suffix:
  "\<exists>k \<le> length ms. trimMessagesByContentSize ms = drop k ms
    \<and> (length (drop k ms) \<le> 1 \<or> total_size (drop k ms) \<le> MAX_LOADED_MESSAGES_CHARS)
    \<and> (0 < k \<longrightarrow> drop k ms \<noteq> [] \<and> MAX_LOADED_MESSAGES_CHARS < total_size (drop (k - 1) ms))"
proof -
  obtain k where k: "k \<le> length ms" "trimMessagesByContentSize ms = drop k ms"
    "length ms \<le> k + 1 \<or> total_size (drop k ms) \<le> MAX_LOADED_MESSAGES_CHARS"
    "0 < k \<longrightarrow> k < length ms \<and> MAX_LOADED_MESSAGES_CHARS < total_size (drop (k - 1) ms)"
    using trim_by_size_drop [of ms] by blast
  then have "length (drop k ms) \<le> 1 \<or> total_size (drop k ms) \<le> MAX_LOADED_MESSAGES_CHARS"
    "0 < k \<longrightarrow> drop k ms \<noteq> []" by auto
  with k show ?thesis by blast
qed

theorem size_trim_keeps_longest_suffix_witness:
  "let m = createUserMessage (js ''k'') (js ''v'') (js ''hello'') 0
   in trimMessagesByContentSize [m, m] = [m, m] \<and> total_size [m, m] = 10"
proof -
  define m where "m = createUserMessage (js ''k'') (js ''v'') (js ''hello'') 0"
  have s: "getMessageSize m = 5"
    by (simp add: m_def getMessageSize_def createUserMessage_def createMessageVersion_def)
  obtain k where k: "k \<le> length [m, m]" "trimMessagesByContentSize [m, m] = drop k [m, m]"
    "0 < k \<longrightarrow> MAX_LOADED_MESSAGES_CHARS < total_size (drop (k - 1) [m, m])"
    using size_trim_keeps_longest_suffix [of "[m, m]"] by blast
  have "k = 0"
  proof (rule ccontr)
    assume "k \<noteq> 0"
    with k(1) have "k = 1 \<or> k = 2" by auto
    with k(3) s show False by (auto simp: MAX_LOADED_MESSAGES_CHARS_def)
  qed
  with k s show ?thesis unfolding m_def [symmetric] Let_def by simp
qed

section \<open>A loaded conversation\<close>

lemma normalize_version_content:
  "version_content (normalize_version v) =
     truncateText (collapseRepeatedSectionSnapshots (version_content v)) MAX_LOADED_MESSAGE_CHARS"
  by (auto simp: normalize_version_def Let_def)

definition normalized_message :: "Message \<Rightarrow> Message" where
  "normalized_message m = m\<lparr>versions := map normalize_version (versions m),
     reasoning := map_option (\<lambda>r. r\<lparr>r_content := truncateText (r_content r) MAX_LOADED_MESSAGE_CHARS\<rparr>) (reasoning m)\<rparr>"

lemma normalized_message_id:
  assumes "\<not> list_ex version_changes (versions m)"
    "map_option r_content (map_option (\<lambda>r. r\<lparr>r_content := truncateText (r_content r) MAX_LOADED_MESSAGE_CHARS\<rparr>) (reasoning m))
       = map_option r_content (reasoning m)"
  shows "normalized_message m = m"
proof -
  have "map normalize_version (versions m) = versions m"
    using assms(1) by (auto simp: list_ex_iff version_changes_def normalize_version_def Let_def intro!: map_idI)
  moreover have "map_option (\<lambda>r. r\<lparr>r_content := truncateText (r_content r) MAX_LOADED_MESSAGE_CHARS\<rparr>) (reasoning m) = reasoning m"
    using assms(2) by (cases "reasoning m") auto
  ultimately show ?thesis by (simp add: normalized_message_def)
qed

definition settles_on_load :: "Message \<Rightarrow> bool" where
  "settles_on_load m \<longleftrightarrow> isAssistantMessagePending m
     \<and> (hasMessageContent m \<or> trim (reasoning_text m) \<noteq> [])"

lemma normalize_cases:
  "normalizeStoredMessageForLoad t1 t2 now m = normalized_message m
   \<or> settles_on_load (normalized_message m) \<and>
     (\<exists>t. normalizeStoredMessageForLoad t1 t2 now m =
       completeAssistantTiming ((finalizeMessage t1 t2 (normalized_message m) None)
         \<lparr>status := Some Complete, isReasoningStreaming := Some False\<rparr>) t)"
proof -
  have n: "(if list_ex version_changes (versions m)
      \<or> map_option r_content (map_option (\<lambda>r. r\<lparr>r_content := truncateText (r_content r) MAX_LOADED_MESSAGE_CHARS\<rparr>) (reasoning m))
          \<noteq> map_option r_content (reasoning m)
      then normalized_message m else m) = normalized_message m"
    using normalized_message_id [of m] by auto
  have h: "(case reasoning x of Some r \<Rightarrow> trim (r_content r) \<noteq> [] | None \<Rightarrow> False) \<longleftrightarrow> trim (reasoning_text x) \<noteq> []" for x
    by (simp split: option.split)
  show ?thesis
    unfolding normalizeStoredMessageForLoad_def Let_def normalized_message_def [symmetric] n h settles_on_load_def
    by (auto simp del: trim_empty_iff)
qed


text \<open>Texts within the limit for one message.\<close>

definition bounded :: "nat \<Rightarrow> Message \<Rightarrow> bool" where
  "bounded n m \<longleftrightarrow> versions m \<noteq> [] \<and> list_all (\<lambda>v. length (version_content v) \<le> n) (versions m)
     \<and> length (reasoning_text m) \<le> n"

lemma bounded_content: "bounded n m \<Longrightarrow> length (getMessageContent m) \<le> n"
  by (cases "versions m") (auto simp: bounded_def getMessageContent_def)

lemma bounded_mono: "bounded n m \<Longrightarrow> n \<le> n' \<Longrightarrow> bounded n' m"
  by (auto simp: bounded_def list_all_iff)

lemma bounded_frames [simp]:
  "bounded n (completeAssistantTiming m t) = bounded n m"
  "bounded n (m\<lparr>status := a\<rparr>) = bounded n m"
  "bounded n (m\<lparr>isReasoningStreaming := b\<rparr>) = bounded n m"
  by (simp_all add: bounded_def)

lemma getMessageSize_frames [simp]:
  "getMessageSize (completeAssistantTiming m t) = getMessageSize m"
  "getMessageSize (m\<lparr>status := a\<rparr>) = getMessageSize m"
  "getMessageSize (m\<lparr>isReasoningStreaming := b\<rparr>) = getMessageSize m"
  by (simp_all add: getMessageSize_sum)

lemma bounded_normalized: "versions m \<noteq> [] \<Longrightarrow> bounded MAX_LOADED_MESSAGE_CHARS (normalized_message m)"
  by (auto simp: bounded_def normalized_message_def list_all_iff normalize_version_content length_truncateText
      split: option.split)

lemma finalize_versions: "\<exists>x. versions (finalizeMessage t1 t2 m a) = [x]"
  by (simp add: finalizeMessage_def Let_def updateCurrentVersionContent_def)

lemma bounded_single:
  assumes "versions m = [x]"
  shows "bounded n m \<longleftrightarrow> length (getMessageContent m) \<le> n \<and> length (reasoning_text m) \<le> n"
  using assms by (simp add: bounded_def getMessageContent_def)

lemma bounded_finalize:
  assumes "bounded n m"
  shows "bounded n (finalizeMessage t1 t2 m None)"
proof -
  obtain x where x: "versions (finalizeMessage t1 t2 m None) = [x]" using finalize_versions by blast
  have "length (reasoning_text m) \<le> n" using assms by (simp add: bounded_def)
  with x bounded_content [OF assms] parseThinkTags_length [of "getMessageContent m"] show ?thesis
    by (auto simp: bounded_single [OF x] final_content_def final_reasoning_def or_str_def)
qed

lemma bounded_normalize:
  "versions m \<noteq> [] \<Longrightarrow> bounded MAX_LOADED_MESSAGE_CHARS (normalizeStoredMessageForLoad t1 t2 now m)"
  using normalize_cases [of t1 t2 now m] bounded_normalized [of m] by (auto simp: bounded_finalize)

abbreviation interrupted_text :: "(jsstr \<Rightarrow> jsstr) \<Rightarrow> jsstr" where
  "interrupted_text tr \<equiv> tr API_REQUEST_ERROR @ js '': '' @ tr INTERRUPTED"

lemma sanitize_message_bounds:
  assumes "bounded n m" "length (interrupted_text tr) \<le> n"
  shows "bounded n (sanitize_message tr t1 t2 t3 m)"
    "getMessageSize (sanitize_message tr t1 t2 t3 m) \<le> getMessageSize m + length (interrupted_text tr)"
proof -
  let ?f = "finalizeMessage t1 t2 m None"
  have f: "bounded n ?f" using assms(1) by (rule bounded_finalize)
  have v: "versions m \<noteq> []" using assms(1) by (simp add: bounded_def)
  have s: "getMessageSize ?f \<le> getMessageSize m"
    using finalizeMessage_size [OF v] getMessageSize_current [OF v] by (rule order_trans)
  let ?e = "updateCurrentVersionContent ?f (interrupted_text tr)"
  have e: "bounded n ?e"
    using f assms(2) by (simp add: bounded_def updateCurrentVersionContent_def)
  have "length (reasoning_text ?f) \<le> getMessageSize ?f" by (simp add: getMessageSize_sum)
  then have es: "getMessageSize ?e \<le> getMessageSize m + length (interrupted_text tr)"
    using s by (simp add: getMessageSize_sum updateCurrentVersionContent_def)
  show "bounded n (sanitize_message tr t1 t2 t3 m)"
    using f e by (simp add: sanitize_message_def Let_def)
  show "getMessageSize (sanitize_message tr t1 t2 t3 m) \<le> getMessageSize m + length (interrupted_text tr)"
    using s es by (simp add: sanitize_message_def Let_def)
qed

lemma total_size_update:
  "i < length ms \<Longrightarrow> getMessageSize x \<le> getMessageSize (ms ! i) + d \<Longrightarrow> total_size (ms[i := x]) \<le> total_size ms + d"
proof (induction ms arbitrary: i)
  case (Cons m ms)
  then show ?case by (cases i) (fastforce simp: add.assoc)+
qed simp

lemma sanitize_bounds:
  assumes "list_all (bounded n) ms" "length (interrupted_text tr) \<le> n"
  shows "list_all (bounded n) (sanitizeMessagesOnLoad tr t1 t2 t3 ms)"
    "length (sanitizeMessagesOnLoad tr t1 t2 t3 ms) = length ms"
    "total_size (sanitizeMessagesOnLoad tr t1 t2 t3 ms) \<le> total_size ms + length (interrupted_text tr)"
proof -
  have *: "\<exists>i. i < length ms \<and> sanitizeMessagesOnLoad tr t1 t2 t3 ms = ms[i := sanitize_message tr t1 t2 t3 (ms ! i)]
      \<or> sanitizeMessagesOnLoad tr t1 t2 t3 ms = ms"
  proof (cases "last_pending_from ms (length ms)")
    case None
    then show ?thesis by (simp add: sanitizeMessagesOnLoad_def)
  next
    case (Some i)
    have "last_pending_from ms n = Some i \<Longrightarrow> i < n" for n
      by (induction n) (auto split: if_splits)
    with Some show ?thesis by (auto simp: sanitizeMessagesOnLoad_def)
  qed
  show "list_all (bounded n) (sanitizeMessagesOnLoad tr t1 t2 t3 ms)"
    using * assms sanitize_message_bounds(1) [of n _ tr t1 t2 t3] by (auto simp: list_all_length nth_list_update)
  show "length (sanitizeMessagesOnLoad tr t1 t2 t3 ms) = length ms" using * by auto
  from * show "total_size (sanitizeMessagesOnLoad tr t1 t2 t3 ms) \<le> total_size ms + length (interrupted_text tr)"
  proof (elim exE disjE conjE)
    fix i assume i: "i < length ms" and eq: "sanitizeMessagesOnLoad tr t1 t2 t3 ms = ms[i := sanitize_message tr t1 t2 t3 (ms ! i)]"
    have "bounded n (ms ! i)" using assms(1) i by (simp add: list_all_length)
    from total_size_update [OF i sanitize_message_bounds(2) [OF this assms(2)]] eq show ?thesis by simp
  qed simp
qed


lemma length_trimMessages: "length (trimMessages ms) \<le> MAX_STORED_MESSAGES"
  by (simp add: trimMessages_def)

lemma list_all_trimMessages: "list_all P ms \<Longrightarrow> list_all P (trimMessages ms)"
  by (auto simp: trimMessages_def list_all_iff dest: in_set_dropD)

definition normalized_all :: "(nat \<Rightarrow> nat \<Rightarrow> rat) \<Rightarrow> Message list \<Rightarrow> Message list" where
  "normalized_all c ms = map (\<lambda>(i, m). normalizeStoredMessageForLoad (c (Suc i) 0) (c (Suc i) 1) (c (Suc i) 2) m)
     (List.enumerate 0 ms)"

lemma normalized_all_bounded:
  "list_all (\<lambda>m. versions m \<noteq> []) ms \<Longrightarrow> list_all (bounded MAX_LOADED_MESSAGE_CHARS) (normalized_all c ms)"
  by (auto simp: normalized_all_def list_all_length nth_enumerate_eq bounded_normalize)

lemma loadMessages_Some:
  assumes "zod_parser zparse" "loadMessages zparse accepts tr c st = (Some ms, st')"
  shows "\<exists>parsed. list_all (\<lambda>m. versions m \<noteq> []) parsed \<and>
    ms = sanitizeMessagesOnLoad tr (c 0 0) (c 0 1) (c 0 2)
      (trimMessagesByContentSize (trimMessages (normalized_all c parsed)))
    \<and> st' = saveMessages zparse accepts ms st"
proof -
  obtain saved st1 where r: "readStoredMessagesValue st = (Some saved, st1)" "truthy saved"
    using assms(2) by (auto simp: loadMessages_def split: prod.splits option.splits if_splits)
  from r have st1: "st1 = st"
    by (auto simp: readStoredMessagesValue_def split: option.splits if_splits)
  from assms(2) r obtain v parsed where
    v: "zparse messagesSchema (unwrapStoredValue saved) = Some v" "dec_messages v = Some parsed"
    and m: "ms = sanitizeMessagesOnLoad tr (c 0 0) (c 0 1) (c 0 2)
      (trimMessagesByContentSize (trimMessages (normalized_all c parsed)))"
      "st' = saveMessages zparse accepts ms st1"
    by (auto simp: loadMessages_def normalized_all_def Let_def split: option.splits bind_splits)
  from zod_parser.messages_readable [OF assms(1) v(1)] v(2) have "list_all (\<lambda>m. versions m \<noteq> []) parsed" by simp
  with m st1 show ?thesis by blast
qed

text \<open>A conversation that loading leaves alone.\<close>

definition load_stable :: "Message \<Rightarrow> bool" where
  "load_stable m \<longleftrightarrow> \<not> isAssistantMessagePending m \<and> bounded MAX_LOADED_MESSAGE_CHARS m
     \<and> list_all (\<lambda>v. collapseRepeatedSectionSnapshots (version_content v) = version_content v) (versions m)"

lemma normalize_stable: "load_stable m \<Longrightarrow> normalizeStoredMessageForLoad t1 t2 now m = m"
proof -
  assume m: "load_stable m"
  have "normalized_message m = m"
  proof (rule normalized_message_id)
    show "\<not> list_ex version_changes (versions m)"
      using m by (auto simp: list_ex_iff list_all_iff version_changes_def load_stable_def bounded_def truncateText_id)
  next
    show "map_option r_content (map_option (\<lambda>r. r\<lparr>r_content := truncateText (r_content r) MAX_LOADED_MESSAGE_CHARS\<rparr>) (reasoning m))
       = map_option r_content (reasoning m)"
      using m by (cases "reasoning m") (auto simp: load_stable_def bounded_def truncateText_id)
  qed
  with normalize_cases [of t1 t2 now m] m show ?thesis by (auto simp: load_stable_def settles_on_load_def)
qed

lemma normalized_all_stable: "list_all load_stable ms \<Longrightarrow> normalized_all c ms = ms"
  by (rule nth_equalityI) (auto simp: normalized_all_def list_all_length nth_enumerate_eq normalize_stable)

lemma sanitize_stable: "list_all load_stable ms \<Longrightarrow> sanitizeMessagesOnLoad tr t1 t2 t3 ms = ms"
proof -
  assume "list_all load_stable ms"
  then have "n \<le> length ms \<Longrightarrow> last_pending_from ms n = None" for n
    by (induction n) (auto simp: isPendingAssistantMessage_def list_all_length load_stable_def)
  then show ?thesis by (simp add: sanitizeMessagesOnLoad_def)
qed

lemma trim_by_size_id: "total_size ms \<le> MAX_LOADED_MESSAGES_CHARS \<Longrightarrow> trimMessagesByContentSize ms = ms"
proof -
  assume a: "total_size ms \<le> MAX_LOADED_MESSAGES_CHARS"
  obtain k where k: "trimMessagesByContentSize ms = drop k ms"
    "0 < k \<longrightarrow> k < length ms \<and> MAX_LOADED_MESSAGES_CHARS < total_size (drop (k - 1) ms)"
    using trim_by_size_drop [of ms] by blast
  have "total_size (drop j ms) \<le> total_size ms" for j
    by (metis append_take_drop_id le_add2 map_append sum_list_append)
  with k a have "\<not> 0 < k" by (meson linorder_not_le order_trans)
  with k show ?thesis by simp
qed

lemma trimMessages_idem [simp]: "trimMessages (trimMessages ms) = trimMessages ms"
  using length_trimMessages [of ms] by (simp add: trimMessages_def [of "trimMessages ms"])

definition messages_text :: "Message list \<Rightarrow> jsstr" where
  "messages_text ms = stringify (envelope (messages_json (trimMessages ms)))"

text \<open>A conversation that is stored whole and loads unchanged.\<close>

definition load_exact :: "Message list \<Rightarrow> bool" where
  "load_exact ms \<longleftrightarrow> conversation_storable ms \<and> list_all load_stable ms
     \<and> total_size ms \<le> MAX_LOADED_MESSAGES_CHARS \<and> length (messages_text ms) \<le> MAX_STORED_MESSAGES_BYTES"

context zod_parser
begin

lemma saveMessages_writes:
  assumes "conversation_storable (trimMessages ms)" "accepts st KEY_MESSAGES (messages_text ms)"
  shows "saveMessages zparse accepts ms st = st(KEY_MESSAGES \<mapsto> messages_text ms)"
  using messages_codec.save_writes [OF assms(1), of accepts st] assms
  by (simp add: saveMessages_def messages_text_def messages_codec.stored_text_def)

lemma load_saved:
  assumes e: "load_exact (trimMessages ms)" and st: "st KEY_MESSAGES = Some (messages_text ms)"
  shows "loadMessages zparse accepts tr c st = (Some (trimMessages ms), st)"
proof -
  let ?ms = "trimMessages ms"
  have stb: "conversation_storable ?ms" "list_all load_stable ?ms" "total_size ?ms \<le> MAX_LOADED_MESSAGES_CHARS"
    and len: "length (messages_text ms) \<le> MAX_STORED_MESSAGES_BYTES"
    using e by (simp_all add: load_exact_def messages_text_def)
  have p: "json_parse (messages_text ms) = Some (envelope (messages_json ?ms))" "messages_text ms \<noteq> []"
    using messages_codec.parse_stored [OF stb(1)] messages_codec.stored_not_Nil [OF stb(1)]
    by (simp_all add: messages_text_def messages_codec.stored_text_def)
  note u = messages_codec.unwrap_stored [OF stb(1)] messages_codec.codec_exact [OF stb(1)]
  have "saveMessages zparse accepts ?ms st = st"
  proof (cases "accepts st KEY_MESSAGES (messages_text ms)")
    case True
    then have "saveMessages zparse accepts ?ms st = st(KEY_MESSAGES \<mapsto> messages_text ?ms)"
      using saveMessages_writes [of ?ms accepts st] stb(1) by (simp add: messages_text_def)
    with st show ?thesis by (simp add: messages_text_def fun_upd_idem)
  next
    case False
    with u show ?thesis
      by (simp add: saveMessages_def save_checked_def writeStoredValue_def messages_text_def)
  qed
  then show ?thesis
    using st len p u normalized_all_stable [OF stb(2), of c] sanitize_stable [OF stb(2)] trim_by_size_id [OF stb(3)]
    by (simp add: loadMessages_def readStoredMessagesValue_def dec_messages_json Let_def normalized_all_def)
qed

lemmas config_text = config_codec.stored_text_def

lemmas params_text = params_codec.stored_text_def

lemma load_saved_config:
  "config_decimal c \<Longrightarrow> accepts st KEY_CONFIG (config_codec.stored_text c) \<Longrightarrow>
     loadConfig zparse (saveConfig zparse accepts c st) = obj_json (config_fields c)"
  by (simp add: loadConfig_def saveConfig_def config_codec.save_writes config_codec.load_stored)

lemma load_saved_params:
  "accepts st KEY_PARAMETER_ENABLED (params_codec.stored_text p) \<Longrightarrow>
     loadParameterEnabled zparse (saveParameterEnabled zparse accepts p st) = obj_json (params_fields p)"
  by (simp add: loadParameterEnabled_def saveParameterEnabled_def params_codec.save_writes params_codec.load_stored)

end

lemma initial_config_fields:
  "loadConfig zparse st = obj_json (config_fields c) \<Longrightarrow> getInitialPlaygroundConfig zparse st = c"
  by (cases "seed c")
    (simp_all add: getInitialPlaygroundConfig_def Let_def spread_def obj_json_def drop_undef_def config_fields_def
      enc_nullable_def dec_nullable_def)

lemma initial_params_fields:
  "loadParameterEnabled zparse st = obj_json (params_fields p) \<Longrightarrow> getInitialParameterEnabled zparse st = p"
  by (simp add: getInitialParameterEnabled_def Let_def spread_def obj_json_def drop_undef_def params_fields_def)


section \<open>Properties\<close>

text \<open>A conversation for the concrete instances.\<close>

definition demo_message :: Message where
  "demo_message = createUserMessage (js ''k'') (js ''v'') (js ''hello'') 0"

lemma length_quote_chars: "length (quote_chars s) \<le> 6 * length s"
  by (induction s rule: quote_chars.induct) (auto simp: quote_char_def unicode_escape_def)

lemma num_text_small: "num_text 0 = [48]" "num_text 1 = [49]"
  by code_simp+

lemma demo_text_length: "length (messages_text [demo_message]) \<le> MAX_STORED_MESSAGES_BYTES"
  using length_quote_chars [of "js ''version''"] length_quote_chars [of "js ''data''"]
    length_quote_chars [of "js ''key''"] length_quote_chars [of "js ''k''"]
    length_quote_chars [of "js ''from''"] length_quote_chars [of "js ''user''"]
    length_quote_chars [of "js ''versions''"] length_quote_chars [of "js ''id''"]
    length_quote_chars [of "js ''v''"] length_quote_chars [of "js ''content''"]
    length_quote_chars [of "js ''hello''"] length_quote_chars [of "js ''createdAt''"]
  by (simp add: messages_text_def envelope_def trimMessages_def MAX_STORED_MESSAGES_def messages_json_def
      demo_message_def createUserMessage_def createMessageVersion_def message_fields_def version_fields_def
      obj_json_def enc_opt_def drop_undef_def quote_def STORAGE_VERSION_def MAX_STORED_MESSAGES_BYTES_def num_text_small)

lemma demo_load_exact: "load_exact [demo_message]"
  using demo_text_length decimal_of_int [of 0]
  by (simp add: load_exact_def conversation_storable_def message_decimal_def load_stable_def bounded_def
      isAssistantMessagePending_def collapseRepeatedSectionSnapshots_def MIN_PREFIX_COLLAPSE_LENGTH_def
      getMessageSize_def MAX_LOADED_MESSAGES_CHARS_def MAX_LOADED_MESSAGE_CHARS_def
      demo_message_def createUserMessage_def createMessageVersion_def)

lemma trimMessages_single [simp]: "trimMessages [m] = [m]"
  by (simp add: trimMessages_def MAX_STORED_MESSAGES_def)

text \<open>
  C18: saving a conversation and loading it gives its newest hundred messages back and leaves the
  storage as it is, for a conversation in which nothing is pending and whose texts are within the
  limits of the source, when the browser takes the write.
\<close>

theorem saved_conversation_loads_back:
  assumes "zod_parser zparse" "load_exact (trimMessages ms)" "accepts st KEY_MESSAGES (messages_text ms)"
  shows "loadMessages zparse accepts tr c (saveMessages zparse accepts ms st)
    = (Some (trimMessages ms), saveMessages zparse accepts ms st)"
proof -
  have "conversation_storable (trimMessages ms)" using assms(2) by (simp add: load_exact_def)
  then have s: "saveMessages zparse accepts ms st = st(KEY_MESSAGES \<mapsto> messages_text ms)"
    using zod_parser.saveMessages_writes [OF assms(1)] assms(3) by blast
  show ?thesis using zod_parser.load_saved [OF assms(1,2)] s by simp
qed

theorem saved_conversation_loads_back_witness:
  "let st' = saveMessages zref (\<lambda>_ _ _. True) [demo_message] Map.empty
   in loadMessages zref (\<lambda>_ _ _. True) id (\<lambda>_ _. 7) st' = (Some [demo_message], st')"
  using saved_conversation_loads_back [OF zod.zod_parser_axioms, of "[demo_message]" "\<lambda>_ _ _. True" Map.empty id "\<lambda>_ _. 7"]
    demo_load_exact by (simp add: Let_def)

text \<open>
  C19: whatever text the storage holds, a loaded conversation has at most a hundred messages, every
  message has a current version, every text is within the limit for one message, and together
  they are within the limit for a conversation, or the conversation is a single message. The only
  text that can add to these limits is the notice written into an interrupted reply.
\<close>

theorem loaded_conversation_is_bounded:
  assumes "zod_parser zparse" "loadMessages zparse accepts tr c st = (Some ms, st')"
  shows "length ms \<le> MAX_STORED_MESSAGES
    \<and> list_all (bounded (max MAX_LOADED_MESSAGE_CHARS (length (interrupted_text tr)))) ms
    \<and> (length ms \<le> 1 \<or> total_size ms \<le> MAX_LOADED_MESSAGES_CHARS + length (interrupted_text tr))
    \<and> st' = saveMessages zparse accepts ms st"
proof -
  from loadMessages_Some [OF assms] obtain parsed where v: "list_all (\<lambda>m. versions m \<noteq> []) parsed"
    and ms: "ms = sanitizeMessagesOnLoad tr (c 0 0) (c 0 1) (c 0 2)
      (trimMessagesByContentSize (trimMessages (normalized_all c parsed)))"
    and st': "st' = saveMessages zparse accepts ms st" by blast
  let ?n = "max MAX_LOADED_MESSAGE_CHARS (length (interrupted_text tr))"
  let ?t = "trimMessages (normalized_all c parsed)"
  have "list_all (bounded ?n) (normalized_all c parsed)"
    using normalized_all_bounded [OF v, of c] by (auto simp: list_all_iff intro: bounded_mono)
  then have t: "list_all (bounded ?n) ?t" by (rule list_all_trimMessages)
  obtain k where k: "trimMessagesByContentSize ?t = drop k ?t"
    "length ?t \<le> k + 1 \<or> total_size (drop k ?t) \<le> MAX_LOADED_MESSAGES_CHARS"
    using trim_by_size_drop [of ?t] by blast
  have d: "list_all (bounded ?n) (drop k ?t)" using t by (auto simp: list_all_iff dest: in_set_dropD)
  note b = sanitize_bounds [OF d max.cobounded2, of "c 0 0" "c 0 1" "c 0 2"]
  have ms: "ms = sanitizeMessagesOnLoad tr (c 0 0) (c 0 1) (c 0 2) (drop k ?t)" by (simp only: ms k(1))
  have l: "length ms = length ?t - k" by (simp only: ms b(2) length_drop)
  then have "length ms \<le> MAX_STORED_MESSAGES"
    using length_trimMessages [of "normalized_all c parsed"] by simp
  moreover have "list_all (bounded ?n) ms" using b(1) by (simp only: ms)
  moreover have "length ms \<le> 1 \<or> total_size ms \<le> MAX_LOADED_MESSAGES_CHARS + length (interrupted_text tr)"
    using k(2) b(3) [folded ms] l by auto
  ultimately show ?thesis using st' by blast
qed

theorem loaded_conversation_is_bounded_witness:
  "let st' = saveMessages zref (\<lambda>_ _ _. True) [demo_message] Map.empty
   in loadMessages zref (\<lambda>_ _ _. True) id (\<lambda>_ _. 7) st' = (Some [demo_message], st')
     \<and> list_all (bounded 40000) [demo_message]"
proof -
  let ?st = "saveMessages zref (\<lambda>_ _ _. True) [demo_message] Map.empty"
  have e: "load_exact (trimMessages [demo_message])" using demo_load_exact by simp
  then have "?st = Map.empty(KEY_MESSAGES \<mapsto> messages_text [demo_message])"
    by (intro zod.saveMessages_writes) (simp_all add: load_exact_def)
  then have l: "loadMessages zref (\<lambda>_ _ _. True) id (\<lambda>_ _. 7) ?st = (Some [demo_message], ?st)"
    using zod.load_saved [OF e, of ?st "\<lambda>_ _ _. True" id "\<lambda>_ _. 7"] by simp
  have "max MAX_LOADED_MESSAGE_CHARS (length (interrupted_text id)) = 40000"
    by (simp add: MAX_LOADED_MESSAGE_CHARS_def)
  with loaded_conversation_is_bounded [OF zod.zod_parser_axioms l] l show ?thesis by (simp add: Let_def)
qed


text \<open>
  the configuration and the parameter switches that were saved are the initial ones of the
  next visit, when the browser takes the writes; saving one does not touch the other.
\<close>

theorem settings_load_back:
  assumes "zod_parser zparse" "config_decimal cfg"
    and "accepts st KEY_CONFIG (stringify (envelope (obj_json (config_fields cfg))))"
    and "accepts (saveConfig zparse accepts cfg st) KEY_PARAMETER_ENABLED (stringify (envelope (obj_json (params_fields p))))"
  shows "let st' = saveParameterEnabled zparse accepts p (saveConfig zparse accepts cfg st)
    in getInitialPlaygroundConfig zparse st' = cfg \<and> getInitialParameterEnabled zparse st' = p"
proof -
  let ?s1 = "saveConfig zparse accepts cfg st"
  let ?s2 = "saveParameterEnabled zparse accepts p ?s1"
  have 1: "loadConfig zparse ?s1 = obj_json (config_fields cfg)"
    using zod_parser.load_saved_config [OF assms(1,2)] assms(3) by (simp add: zod_parser.config_text [OF assms(1)])
  have 2: "loadParameterEnabled zparse ?s2 = obj_json (params_fields p)"
    using zod_parser.load_saved_params [OF assms(1)] assms(4) by (simp add: zod_parser.params_text [OF assms(1)])
  have "?s2 KEY_CONFIG = ?s1 KEY_CONFIG"
    by (simp add: saveParameterEnabled_def save_checked_def writeStoredValue_def Let_def split: option.splits if_splits)
  then have "loadConfig zparse ?s2 = loadConfig zparse ?s1"
    by (simp add: loadConfig_def load_partial_def readStoredValue_def)
  with 1 2 initial_config_fields initial_params_fields show ?thesis by (simp add: Let_def)
qed

theorem settings_load_back_witness:
  "let st' = saveParameterEnabled zref (\<lambda>_ _ _. True) DEFAULT_PARAMETER_ENABLED
         (saveConfig zref (\<lambda>_ _ _. True) (DEFAULT_CONFIG\<lparr>model := js ''m'', seed := Some 3\<rparr>) Map.empty)
   in getInitialPlaygroundConfig zref st' = DEFAULT_CONFIG\<lparr>model := js ''m'', seed := Some 3\<rparr>
     \<and> getInitialParameterEnabled zref st' = DEFAULT_PARAMETER_ENABLED"
proof (rule settings_load_back [OF zod.zod_parser_axioms])
  show "config_decimal (DEFAULT_CONFIG\<lparr>model := js ''m'', seed := Some 3\<rparr>)" by code_simp
qed simp_all

text \<open>A text that loading rejects.\<close>

definition unreadable :: "zod \<Rightarrow> zschema \<Rightarrow> jsstr option \<Rightarrow> bool" where
  "unreadable zparse schema saved =
     (case saved of
        None \<Rightarrow> True
      | Some s \<Rightarrow> (case json_parse s of
            None \<Rightarrow> True
          | Some v \<Rightarrow> zparse schema (unwrapStoredValue v) = None))"

text \<open>
  Nothing in the storage stops the playground from starting: where a text is missing, is not
  JSON or does not fit its schema, the configuration and the switches are the defaults and the
  conversation is empty; an oversized conversation is removed.
\<close>

theorem broken_storage_gives_defaults:
  assumes "unreadable zparse playgroundConfigSchema (st KEY_CONFIG)"
    and "unreadable zparse parameterEnabledSchema (st KEY_PARAMETER_ENABLED)"
    and "unreadable zparse messagesSchema (st KEY_MESSAGES)
      \<or> (\<exists>s. st KEY_MESSAGES = Some s \<and> MAX_STORED_MESSAGES_BYTES < length s)"
  shows "getInitialPlaygroundConfig zparse st = DEFAULT_CONFIG
    \<and> getInitialParameterEnabled zparse st = DEFAULT_PARAMETER_ENABLED
    \<and> fst (getInitialMessages zparse accepts tr c st) = []
    \<and> snd (getInitialMessages zparse accepts tr c st) =
      (case st KEY_MESSAGES of
         Some s \<Rightarrow> (if MAX_STORED_MESSAGES_BYTES < length s then st(KEY_MESSAGES := None) else st)
       | None \<Rightarrow> st)"
proof -
  have l: "load_partial zparse schema key st = JObj []" if "unreadable zparse schema (st key)" for schema key
    using that by (auto simp: load_partial_def readStoredValue_def unreadable_def split: option.splits)
  have m: "loadMessages zparse accepts tr c st = (None, case st KEY_MESSAGES of
         Some s \<Rightarrow> (if MAX_STORED_MESSAGES_BYTES < length s then st(KEY_MESSAGES := None) else st)
       | None \<Rightarrow> st)"
    using assms(3)
    by (auto simp: loadMessages_def readStoredMessagesValue_def unreadable_def split: option.splits)
  show ?thesis
    using m l [OF assms(1)] l [OF assms(2)]
    by (simp add: getInitialPlaygroundConfig_def loadConfig_def getInitialParameterEnabled_def
        loadParameterEnabled_def getInitialMessages_def Let_def spread_def dec_str_def dec_num_def dec_bool_def
        dec_nullable_def)
qed

theorem broken_storage_gives_defaults_witness:
  "let st = [KEY_CONFIG \<mapsto> js ''{'', KEY_MESSAGES \<mapsto> js ''7''] in
   getInitialPlaygroundConfig zref st = DEFAULT_CONFIG
     \<and> getInitialMessages zref (\<lambda>_ _ _. True) id (\<lambda>_ _. 0) st = ([], st)"
proof -
  let ?st = "[KEY_CONFIG \<mapsto> js ''{'', KEY_MESSAGES \<mapsto> js ''7'']"
  have p: "json_parse (js ''{'') = None" "json_parse (js ''7'') = Some (JNum 7)" by code_simp+
  have u: "unreadable zref playgroundConfigSchema (?st KEY_CONFIG)"
    "unreadable zref parameterEnabledSchema (?st KEY_PARAMETER_ENABLED)"
    "unreadable zref messagesSchema (?st KEY_MESSAGES)"
    by (simp_all add: unreadable_def p unwrapStoredValue_def messagesSchema_def)
  note broken_storage_gives_defaults [of zref ?st "\<lambda>_ _ _. True" id "\<lambda>_ _. 0", OF u(1,2) disjI1 [OF u(3)]]
  then show ?thesis by (simp add: Let_def prod_eq_iff MAX_STORED_MESSAGES_BYTES_def)
qed

end
