(* ===== verification/PlaygroundState.thy ===== *)
theory PlaygroundState
  imports StorageProperties MessageView
begin

text \<open>
  The state hook of the playground (\<open>hooks/use-playground-state.ts\<close>) with
  \<open>applyMessageStateUpdate\<close> of \<open>lib/state/playground-state-utils.ts\<close>: configuration, switches and
  conversation with their persistence. The conversation is loaded by a timer after mounting and
  written by a debounced timer after each change; configuration and switches are written at once.

  React state and refs are the fields of one record together with the storage. \<open>saveTimer\<close> tells
  whether the save timer is set.
\<close>

datatype MessageStateUpdater = NewMessages "Message list" | Updater "Message list \<Rightarrow> Message list"

definition applyMessageStateUpdate :: "Message list \<Rightarrow> MessageStateUpdater \<Rightarrow> Message list" where
  "applyMessageStateUpdate previousMessages updater =
     (case updater of Updater f \<Rightarrow> f previousMessages | NewMessages ms \<Rightarrow> ms)"

datatype ConfigEntry =
    SetModel jsstr | SetGroup jsstr | SetTemperature rat | SetTopP rat | SetMaxTokens rat
  | SetFrequencyPenalty rat | SetPresencePenalty rat | SetSeed "rat option" | SetStream bool

datatype ParameterKey = KTemperature | KTopP | KMaxTokens | KFrequencyPenalty | KPresencePenalty | KSeed

text \<open>\<open>{ ...prev, [key]: value }\<close>\<close>

fun set_config :: "ConfigEntry \<Rightarrow> PlaygroundConfig \<Rightarrow> PlaygroundConfig" where
  "set_config (SetModel v) c = c\<lparr>model := v\<rparr>"
| "set_config (SetGroup v) c = c\<lparr>group := v\<rparr>"
| "set_config (SetTemperature v) c = c\<lparr>temperature := v\<rparr>"
| "set_config (SetTopP v) c = c\<lparr>top_p := v\<rparr>"
| "set_config (SetMaxTokens v) c = c\<lparr>max_tokens := v\<rparr>"
| "set_config (SetFrequencyPenalty v) c = c\<lparr>frequency_penalty := v\<rparr>"
| "set_config (SetPresencePenalty v) c = c\<lparr>presence_penalty := v\<rparr>"
| "set_config (SetSeed v) c = c\<lparr>seed := v\<rparr>"
| "set_config (SetStream v) c = c\<lparr>stream := v\<rparr>"

fun set_param :: "ParameterKey \<Rightarrow> bool \<Rightarrow> ParameterEnabled \<Rightarrow> ParameterEnabled" where
  "set_param KTemperature v p = p\<lparr>en_temperature := v\<rparr>"
| "set_param KTopP v p = p\<lparr>en_top_p := v\<rparr>"
| "set_param KMaxTokens v p = p\<lparr>en_max_tokens := v\<rparr>"
| "set_param KFrequencyPenalty v p = p\<lparr>en_frequency_penalty := v\<rparr>"
| "set_param KPresencePenalty v p = p\<lparr>en_presence_penalty := v\<rparr>"
| "set_param KSeed v p = p\<lparr>en_seed := v\<rparr>"

record Playground =
  p_config :: PlaygroundConfig
  p_params :: ParameterEnabled
  p_messages :: "Message list"
  isLoadingMessages :: bool
  saveTimer :: bool
  latestMessages :: "Message list"
  hasLoadedMessages :: bool
  p_models :: "ModelOption list"
  p_groups :: "GroupOption list"
  p_store :: store

text \<open>zod, the quota, the translation and the clock, which the callbacks use.\<close>

record PlaygroundEnv =
  e_zod :: zod
  e_quota :: quota
  e_tr :: "jsstr \<Rightarrow> jsstr"
  e_clock :: "nat \<Rightarrow> nat \<Rightarrow> rat"

definition mount :: "PlaygroundEnv \<Rightarrow> store \<Rightarrow> Playground" where
  "mount e st =
     \<lparr>p_config = getInitialPlaygroundConfig (e_zod e) st, p_params = getInitialParameterEnabled (e_zod e) st,
      p_messages = [], isLoadingMessages = True, saveTimer = False, latestMessages = [],
      hasLoadedMessages = False, p_models = [], p_groups = [], p_store = st\<rparr>"

definition persistMessages :: "Message list \<Rightarrow> Playground \<Rightarrow> Playground" where
  "persistMessages messagesToSave s =
     (let s1 = s\<lparr>latestMessages := messagesToSave\<rparr>
      in if \<not> hasLoadedMessages s1 then s1 else s1\<lparr>saveTimer := True\<rparr>)"

definition save_timer_fires :: "PlaygroundEnv \<Rightarrow> Playground \<Rightarrow> Playground" where
  "save_timer_fires e s =
     (if \<not> saveTimer s then s
      else s\<lparr>saveTimer := False, p_store := saveMessages (e_zod e) (e_quota e) (latestMessages s) (p_store s)\<rparr>)"


definition unmount :: "PlaygroundEnv \<Rightarrow> Playground \<Rightarrow> Playground" where
  "unmount e s =
     (if saveTimer s
      then s\<lparr>saveTimer := False, p_store := saveMessages (e_zod e) (e_quota e) (latestMessages s) (p_store s)\<rparr>
      else s)"

definition updateConfig :: "PlaygroundEnv \<Rightarrow> ConfigEntry \<Rightarrow> Playground \<Rightarrow> Playground" where
  "updateConfig e entry s =
     (let updated = set_config entry (p_config s)
      in s\<lparr>p_config := updated, p_store := saveConfig (e_zod e) (e_quota e) updated (p_store s)\<rparr>)"

definition updateParameterEnabled :: "PlaygroundEnv \<Rightarrow> ParameterKey \<Rightarrow> bool \<Rightarrow> Playground \<Rightarrow> Playground" where
  "updateParameterEnabled e key v s =
     (let updated = set_param key v (p_params s)
      in s\<lparr>p_params := updated, p_store := saveParameterEnabled (e_zod e) (e_quota e) updated (p_store s)\<rparr>)"

definition updateMessages :: "MessageStateUpdater \<Rightarrow> Playground \<Rightarrow> Playground" where
  "updateMessages updater s =
     (let newMessages = applyMessageStateUpdate (p_messages s) updater
      in (persistMessages newMessages s)\<lparr>p_messages := newMessages\<rparr>)"

definition setModels :: "ModelOption list \<Rightarrow> Playground \<Rightarrow> Playground" where
  "setModels ms s = s\<lparr>p_models := ms\<rparr>"

definition setGroups :: "GroupOption list \<Rightarrow> Playground \<Rightarrow> Playground" where
  "setGroups gs s = s\<lparr>p_groups := gs\<rparr>"

definition clearMessages :: "Playground \<Rightarrow> Playground" where
  "clearMessages s = updateMessages (NewMessages []) s"

definition resetConfig :: "PlaygroundEnv \<Rightarrow> Playground \<Rightarrow> Playground" where
  "resetConfig e s =
     s\<lparr>p_config := DEFAULT_CONFIG, p_params := DEFAULT_PARAMETER_ENABLED,
       p_store := saveParameterEnabled (e_zod e) (e_quota e) DEFAULT_PARAMETER_ENABLED
         (saveConfig (e_zod e) (e_quota e) DEFAULT_CONFIG (p_store s))\<rparr>"

section \<open>A visit\<close>

datatype pg_event =
    UpdateConfig ConfigEntry | UpdateParameter ParameterKey bool | UpdateMessages MessageStateUpdater
  | ClearMessages | ResetConfig | SetModels "ModelOption list" | SetGroups "GroupOption list" | SaveTimer

fun pg_step :: "PlaygroundEnv \<Rightarrow> pg_event \<Rightarrow> Playground \<Rightarrow> Playground" where
  "pg_step e (UpdateConfig entry) s = updateConfig e entry s"
| "pg_step e (UpdateParameter key v) s = updateParameterEnabled e key v s"
| "pg_step e (UpdateMessages updater) s = updateMessages updater s"
| "pg_step e ClearMessages s = clearMessages s"
| "pg_step e ResetConfig s = resetConfig e s"
| "pg_step e (SetModels ms) s = setModels ms s"
| "pg_step e (SetGroups gs) s = setGroups gs s"
| "pg_step e SaveTimer s = save_timer_fires e s"

definition pg_run :: "PlaygroundEnv \<Rightarrow> pg_event list \<Rightarrow> Playground \<Rightarrow> Playground" where
  "pg_run e es s = fold (pg_step e) es s"


section \<open>What each write touches\<close>

lemma save_checked_other [simp]: "k \<noteq> key \<Longrightarrow> save_checked z q sch key v st k = st k"
  by (simp add: save_checked_def writeStoredValue_def Let_def split: option.splits)

lemma saves_other [simp]:
  "saveConfig z q c st KEY_MESSAGES = st KEY_MESSAGES"
  "saveConfig z q c st KEY_PARAMETER_ENABLED = st KEY_PARAMETER_ENABLED"
  "saveParameterEnabled z q p st KEY_MESSAGES = st KEY_MESSAGES"
  "saveParameterEnabled z q p st KEY_CONFIG = st KEY_CONFIG"
  "saveMessages z q ms st KEY_CONFIG = st KEY_CONFIG"
  "saveMessages z q ms st KEY_PARAMETER_ENABLED = st KEY_PARAMETER_ENABLED"
  by (simp_all add: saveConfig_def saveParameterEnabled_def saveMessages_def)




lemma pg_run_simps [simp]:
  "pg_run e [] s = s"
  "pg_run e (x # es) s = pg_run e es (pg_step e x s)"
  "pg_run e (es @ es') s = pg_run e es' (pg_run e es s)"
  by (simp_all add: pg_run_def)

lemma pg_run_induct [consumes 1, case_names step]:
  assumes "I s" "\<And>x s. x \<in> set es \<Longrightarrow> I s \<Longrightarrow> I (pg_step e x s)"
  shows "I (pg_run e es s)"
  using assms by (induction es arbitrary: s) auto

lemmas pg_defs = updateConfig_def updateParameterEnabled_def updateMessages_def clearMessages_def resetConfig_def
  setModels_def setGroups_def  save_timer_fires_def persistMessages_def Let_def


section \<open>Settings\<close>








section \<open>The conversation\<close>






lemma not_loaded_step:
  assumes "\<not> hasLoadedMessages s \<and> \<not> saveTimer s \<and> p_store s KEY_MESSAGES = m"
  shows "\<not> hasLoadedMessages (pg_step e x s) \<and> \<not> saveTimer (pg_step e x s) \<and> p_store (pg_step e x s) KEY_MESSAGES = m"
  using assms by (cases x) (simp_all add: pg_defs)

lemma not_loaded_run:
  "\<not> hasLoadedMessages (pg_run e es (mount e st)) \<and> \<not> saveTimer (pg_run e es (mount e st))
    \<and> p_store (pg_run e es (mount e st)) KEY_MESSAGES = st KEY_MESSAGES"
  by (rule pg_run_induct) (use not_loaded_step in \<open>simp_all add: mount_def\<close>)

text \<open>
  C21: until the stored conversation has been loaded, nothing that happens in the playground
  writes or removes it, not even leaving the page.
\<close>

theorem unloaded_conversation_is_not_overwritten:
  "p_store (unmount e (pg_run e es (mount e st))) KEY_MESSAGES = st KEY_MESSAGES"
  using not_loaded_run [of e es st] by (simp add: unmount_def)



end
