(* ===== verification/StatusCodes.thy ===== *)
theory StatusCodes
  imports Json "HOL-Library.Product_Lexorder" "HOL-Library.List_Lexorder"
begin

text \<open>
  Rules on HTTP status codes: the ranges of codes entered in the settings
  (\<open>lib/http-status-code-rules.ts\<close>) and the guard against redirecting timeouts in a channel's
  status code mapping (\<open>features/channels/lib/status-code-risk-guard.ts\<close>).

  The mapping is JSON text; \<^term>\<open>None\<close> is a TypeError raised while a value is turned into text.
\<close>

section \<open>Ranges of status codes\<close>

record StatusCodeRange =
  range_start :: nat
  range_end :: nat

record ParsedHttpStatusCodeRules =
  rules_ok :: bool
  ranges :: "StatusCodeRange list"
  tokens :: "jsstr list"
  normalized :: jsstr
  invalidTokens :: "jsstr list"

definition isNumber :: "jsstr \<Rightarrow> bool" where
  "isNumber s \<longleftrightarrow> s \<noteq> [] \<and> list_all is_digit s"

definition isValidCode :: "nat \<Rightarrow> bool" where
  "isValidCode code \<longleftrightarrow> 100 \<le> code \<and> code \<le> 599"

definition parseToken :: "jsstr \<Rightarrow> StatusCodeRange option" where
  "parseToken token =
     (let cleaned = filter (\<lambda>c. \<not> is_space c) (trim token) in
      if cleaned = [] then None
      else if includesStr cleaned [45] then
        (let parts = split1 45 cleaned; a = parts ! 0; b = parts ! 1 in
         if \<not> isNumber a \<or> \<not> isNumber b then None
         else let start = digits_val a; end = digits_val b in
              if \<not> isValidCode start \<or> \<not> isValidCode end \<or> start > end then None
              else Some \<lparr>range_start = start, range_end = end\<rparr>)
      else if \<not> isNumber cleaned then None
      else let code = digits_val cleaned in
           if \<not> isValidCode code then None else Some \<lparr>range_start = code, range_end = code\<rparr>)"

definition merge_step :: "StatusCodeRange list \<Rightarrow> StatusCodeRange \<Rightarrow> StatusCodeRange list" where
  "merge_step merged current =
     (if merged = [] \<or> range_start current > range_end (last merged) + 1 then merged @ [current]
      else butlast merged @ [(last merged)\<lparr>range_end := max (range_end (last merged)) (range_end current)\<rparr>])"

definition mergeRanges :: "StatusCodeRange list \<Rightarrow> StatusCodeRange list" where
  "mergeRanges rs =
     (if rs = [] then []
      else foldl merge_step [] (sort_key (\<lambda>r. (range_start r, range_end r)) rs))"

definition range_token :: "StatusCodeRange \<Rightarrow> jsstr" where
  "range_token r =
     (if range_start r = range_end r then nat_digits (range_start r)
      else nat_digits (range_start r) @ [45] @ nat_digits (range_end r))"

text \<open>The segments of the text: a full-width comma counts as a comma.\<close>

definition rule_segments :: "jsstr \<Rightarrow> jsstr list" where
  "rule_segments raw =
     filter (\<lambda>s. s \<noteq> []) (map trim (split1 44 (map (\<lambda>c. if c = 65292 then 44 else c) raw)))"

definition parse_rules :: "jsstr \<Rightarrow> ParsedHttpStatusCodeRules" where
  "parse_rules raw =
     (if length raw = 0
      then \<lparr>rules_ok = True, ranges = [], tokens = [], normalized = [], invalidTokens = []\<rparr>
      else let segments = rule_segments raw;
               invalid = filter (\<lambda>s. parseToken s = None) segments
           in if length invalid > 0
              then \<lparr>rules_ok = False, ranges = [], tokens = [], normalized = raw, invalidTokens = invalid\<rparr>
              else let merged = mergeRanges (List.map_filter parseToken segments);
                       toks = map range_token merged
                   in \<lparr>rules_ok = True, ranges = merged, tokens = toks,
                       normalized = join [44] toks, invalidTokens = []\<rparr>)"

definition parseHttpStatusCodeRules :: "jsval \<Rightarrow> ParsedHttpStatusCodeRules option" where
  "parseHttpStatusCodeRules input =
     map_option (\<lambda>s. parse_rules (trim s)) (if nullish input then Some [] else to_text input)"

section \<open>Redirected status codes\<close>

definition NON_REDIRECTABLE_STATUS_CODES :: "int list" where
  "NON_REDIRECTABLE_STATUS_CODES = [504, 524]"

text \<open>\<open>/^[1-5]\d{2}$/\<close>\<close>

definition is_code_text :: "jsstr \<Rightarrow> bool" where
  "is_code_text s = (case s of [a, b, c] \<Rightarrow> 49 \<le> a \<and> a \<le> 53 \<and> is_digit b \<and> is_digit c | _ \<Rightarrow> False)"

definition parseStatusCodeKey :: "jsstr \<Rightarrow> int option" where
  "parseStatusCodeKey rawKey =
     (let key = trim rawKey in if is_code_text key then Some (int (digits_val key)) else None)"

definition parseStatusCodeMappingTarget :: "jsval \<Rightarrow> int option" where
  "parseStatusCodeMappingTarget rawValue =
     (case rawValue of
        JNum q \<Rightarrow>
          (if q = of_int \<lfloor>q\<rfloor> then (if 100 \<le> q \<and> q \<le> 599 then Some \<lfloor>q\<rfloor> else None) else None)
      | JStr s \<Rightarrow>
          (let t = trim s in
           if \<not> is_code_text t then None
           else let code = int (digits_val t) in if 100 \<le> code \<and> code \<le> 599 then Some code else None)
      | _ \<Rightarrow> None)"

text \<open>The entries of the mapping; \<^term>\<open>[]\<close> for blank text, broken JSON and values that are not objects.\<close>

definition mapping_entries :: "jsstr \<Rightarrow> (jsstr \<times> jsval) list" where
  "mapping_entries s =
     (if trim s = [] then []
      else case json_parse s of Some (JObj kvs) \<Rightarrow> kvs | _ \<Rightarrow> [])"

fun invalid_entries :: "(jsstr \<times> jsval) list \<Rightarrow> jsstr list option" where
  "invalid_entries [] = Some []"
| "invalid_entries ((rawKey, rawValue) # es) =
     (if parseStatusCodeKey rawKey = None \<or> parseStatusCodeMappingTarget rawValue = None
      then (case to_text rawValue of
              None \<Rightarrow> None
            | Some t \<Rightarrow> map_option ((#) (rawKey @ [32, 8594, 32] @ t)) (invalid_entries es))
      else invalid_entries es)"

definition collectInvalidStatusCodeEntries :: "jsstr \<Rightarrow> jsstr list option" where
  "collectInvalidStatusCodeEntries statusCodeMappingStr = invalid_entries (mapping_entries statusCodeMappingStr)"

definition risky_entry :: "jsstr \<times> jsval \<Rightarrow> jsstr option" where
  "risky_entry e =
     (case (parseStatusCodeKey (fst e), parseStatusCodeMappingTarget (snd e)) of
        (Some fromCode, Some toCode) \<Rightarrow>
          (if fromCode \<notin> set NON_REDIRECTABLE_STATUS_CODES \<or> fromCode = toCode then None
           else Some (int_text fromCode @ js '' -> '' @ int_text toCode))
      | _ \<Rightarrow> None)"

definition collectDisallowedStatusCodeRedirects :: "jsstr \<Rightarrow> jsstr list" where
  "collectDisallowedStatusCodeRedirects statusCodeMappingStr =
     sort (uniq (List.map_filter risky_entry (mapping_entries statusCodeMappingStr)))"

definition collectNewDisallowedStatusCodeRedirects :: "jsstr \<Rightarrow> jsstr \<Rightarrow> jsstr list" where
  "collectNewDisallowedStatusCodeRedirects originalStr currentStr =
     (let currentRisky = collectDisallowedStatusCodeRedirects currentStr in
      if currentRisky = [] then []
      else filter (\<lambda>m. m \<notin> set (collectDisallowedStatusCodeRedirects originalStr)) currentRisky)"

section \<open>Merged ranges are canonical\<close>

definition cover :: "StatusCodeRange \<Rightarrow> nat set" where
  "cover r = {range_start r..range_end r}"

definition covers :: "StatusCodeRange list \<Rightarrow> nat set" where
  "covers rs = (\<Union>r \<in> set rs. cover r)"

text \<open>Ranges that are not empty, in ascending order, with a gap between neighbours.\<close>

definition canonical :: "StatusCodeRange list \<Rightarrow> bool" where
  "canonical rs \<longleftrightarrow> (\<forall>r \<in> set rs. range_start r \<le> range_end r)
     \<and> sorted_wrt (\<lambda>a b. range_end a + 1 < range_start b) rs"

lemma covers_simps [simp]: "covers [] = {}" "covers (r # rs) = cover r \<union> covers rs" "covers (rs @ rs') = covers rs \<union> covers rs'"
  by (auto simp: covers_def)

lemma canonical_Nil [simp]: "canonical []"
  by (simp add: canonical_def)

lemma canonical_Cons:
  "canonical (r # rs) \<longleftrightarrow> range_start r \<le> range_end r \<and> (\<forall>x \<in> set rs. range_end r + 1 < range_start x) \<and> canonical rs"
  by (auto simp: canonical_def)

lemma canonical_snoc:
  "canonical (rs @ [r]) \<longleftrightarrow> range_start r \<le> range_end r \<and> (\<forall>x \<in> set rs. range_end x + 1 < range_start r) \<and> canonical rs"
  by (auto simp: canonical_def sorted_wrt_append)

lemma covers_above: "\<forall>x \<in> set rs. n < range_start x \<Longrightarrow> m \<in> covers rs \<Longrightarrow> n < m"
  by (auto simp: covers_def cover_def)

lemma merge_step_correct:
  assumes "canonical merged" "range_start cur \<le> range_end cur"
    "merged \<noteq> [] \<Longrightarrow> range_start (last merged) \<le> range_start cur"
  shows "canonical (merge_step merged cur) \<and> covers (merge_step merged cur) = covers merged \<union> cover cur
    \<and> merge_step merged cur \<noteq> [] \<and> range_start (last (merge_step merged cur)) \<le> range_start cur"
proof (cases merged rule: rev_cases)
  case Nil
  with assms show ?thesis by (simp add: merge_step_def canonical_Cons)
next
  case (snoc ms m)
  show ?thesis
  proof (cases "range_start cur > range_end m + 1")
    case True
    have "\<forall>x \<in> set ms. range_end x + 1 < range_start cur"
      using assms(1,3) snoc by (fastforce simp: canonical_snoc)
    then have "canonical ((ms @ [m]) @ [cur])"
      using True snoc assms(1,2) by (subst canonical_snoc) auto
    with True snoc show ?thesis by (auto simp: merge_step_def)
  next
    case False
    have "range_start m \<le> range_end m" using assms(1) snoc by (simp add: canonical_snoc)
    then have "{range_start m..max (range_end m) (range_end cur)} = cover m \<union> cover cur"
      using False assms(2,3) snoc by (auto simp: cover_def)
    with False snoc assms show ?thesis
      by (simp add: merge_step_def canonical_snoc cover_def [of "m\<lparr>range_end := max (range_end m) (range_end cur)\<rparr>"]
          Un_assoc le_max_iff_disj)
  qed
qed

lemma merge_fold:
  assumes "sorted (map range_start rs)" "\<forall>r \<in> set rs. range_start r \<le> range_end r" "canonical merged"
    "merged \<noteq> [] \<Longrightarrow> \<forall>r \<in> set rs. range_start (last merged) \<le> range_start r"
  shows "canonical (foldl merge_step merged rs) \<and> covers (foldl merge_step merged rs) = covers merged \<union> covers rs"
  using assms
proof (induction rs arbitrary: merged)
  case (Cons r rs)
  have m: "canonical (merge_step merged r) \<and> covers (merge_step merged r) = covers merged \<union> cover r
    \<and> merge_step merged r \<noteq> [] \<and> range_start (last (merge_step merged r)) \<le> range_start r"
    using Cons.prems by (intro merge_step_correct) auto
  have "\<forall>x \<in> set rs. range_start r \<le> range_start x" using Cons.prems(1) by simp
  then have "\<forall>x \<in> set rs. range_start (last (merge_step merged r)) \<le> range_start x" using m by fastforce
  with m Cons.prems Cons.IH [of "merge_step merged r"] show ?case by (simp add: Un_assoc)
qed simp

lemma mergeRanges_correct:
  assumes "\<forall>r \<in> set rs. range_start r \<le> range_end r"
  shows "canonical (mergeRanges rs)" "covers (mergeRanges rs) = covers rs"
proof -
  let ?s = "sort_key (\<lambda>r. (range_start r, range_end r)) rs"
  have "sorted (map (\<lambda>r. (range_start r, range_end r)) ?s)" by simp
  then have "sorted (map range_start ?s)"
    by (auto simp: sorted_map less_eq_prod_def intro: sorted_wrt_mono_rel [rotated])
  from merge_fold [OF this, of "[]"] assms
  show "canonical (mergeRanges rs)" "covers (mergeRanges rs) = covers rs"
    by (simp_all add: mergeRanges_def covers_def)
qed

lemma canonical_start_le:
  assumes "canonical (a # as)" "m \<in> covers (a # as)"
  shows "range_start a \<le> m"
proof -
  have "\<forall>x \<in> set as. range_start a < range_start x"
    using assms(1) by (fastforce simp: canonical_Cons)
  then show ?thesis using assms(2) covers_above [of as "range_start a" m] by (auto simp: cover_def)
qed

lemma canonical_head_in: "canonical (a # as) \<Longrightarrow> range_start a \<in> covers (a # as)"
  by (simp add: canonical_Cons cover_def)

lemma canonical_gap: "canonical (a # as) \<Longrightarrow> range_end a + 1 \<notin> covers (a # as)"
  using covers_above [of as "range_end a + 1" "range_end a + 1"] by (auto simp: canonical_Cons cover_def)

lemma canonical_end_le:
  assumes "canonical (a # as)" "canonical (b # bs)" "covers (a # as) = covers (b # bs)" "range_start a = range_start b"
  shows "range_end b \<le> range_end a"
proof (rule ccontr)
  assume "\<not> range_end b \<le> range_end a"
  then have "range_end a + 1 \<in> covers (b # bs)" using assms(1,4) by (auto simp: canonical_Cons cover_def)
  with canonical_gap [OF assms(1)] assms(3) show False by blast
qed

lemma canonical_unique: "canonical as \<Longrightarrow> canonical bs \<Longrightarrow> covers as = covers bs \<Longrightarrow> as = bs"
proof (induction as arbitrary: bs)
  case Nil
  then show ?case by (cases bs) (auto dest: canonical_head_in)
next
  case (Cons a as)
  obtain b bs' where bs: "bs = b # bs'" using Cons.prems canonical_head_in [of a as] by (cases bs) auto
  note c = Cons.prems [unfolded bs]
  have s: "range_start a = range_start b"
    using canonical_start_le [OF c(1)] canonical_start_le [OF c(2)] canonical_head_in [OF c(1)] canonical_head_in [OF c(2)] c(3)
    by (metis antisym)
  have "range_end a = range_end b"
    using canonical_end_le [OF c s] canonical_end_le [OF c(2,1) c(3) [symmetric] s [symmetric]] by simp
  with s have ab: "a = b" by simp
  have d: "covers xs = covers (x # xs) - cover x" if "canonical (x # xs)" for x xs
    using that covers_above [of xs "range_end x + 1"] by (fastforce simp: canonical_Cons cover_def)
  have "covers as = covers bs'" using d [OF c(1)] d [OF c(2)] c(3) ab by simp
  with Cons.IH c ab bs show ?case by (simp add: canonical_Cons)
qed

section \<open>Texts of ranges\<close>

definition valid_range :: "StatusCodeRange \<Rightarrow> bool" where
  "valid_range r \<longleftrightarrow> 100 \<le> range_start r \<and> range_start r \<le> range_end r \<and> range_end r \<le> 599"

lemma parseToken_valid: "parseToken t = Some r \<Longrightarrow> valid_range r"
  by (auto simp: parseToken_def Let_def isValidCode_def valid_range_def split: if_splits)

lemma map_filter_valid: "r \<in> set (List.map_filter parseToken ts) \<Longrightarrow> valid_range r"
  by (auto simp: List.map_filter_def dest: parseToken_valid)

lemma token_char: "c \<in> set (range_token r) \<Longrightarrow> is_digit c \<or> c = 45"
  by (auto simp: range_token_def dest: nat_digits_digit split: if_splits)

lemma token_chars:
  assumes "c \<in> set (range_token r)"
  shows "\<not> is_space c" "c \<noteq> 44" "c \<noteq> 65292"
  using token_char [OF assms] digit_not_space [of c] by (auto simp: is_digit_def is_space_def is_line_term_def)

lemma digits_no_minus: "45 \<notin> set (nat_digits n)"
  using nat_digits_digit [of 45 n] by (auto simp: is_digit_def)

lemma includes_char: "includesStr s [c] \<longleftrightarrow> c \<in> set s"
  by (auto simp: includesStr_iff_sublist sublist_def in_set_conv_decomp)

lemma isNumber_digits [simp]: "isNumber (nat_digits n)"
  by (auto simp: isNumber_def list_all_iff nat_digits_digit)

lemma token_id [simp]: "trim (range_token r) = range_token r" "filter (\<lambda>c. \<not> is_space c) (range_token r) = range_token r"
    "range_token r \<noteq> []"
  using token_chars(1) by (auto simp: trim_id_no_space filter_id_conv range_token_def)

lemma parseToken_token:
  assumes "valid_range r"
  shows "parseToken (range_token r) = Some r"
proof (cases "range_start r = range_end r")
  case True
  then have "range_token r = nat_digits (range_start r)" by (simp add: range_token_def)
  then show ?thesis
    using assms True token_id [of r] by (simp add: parseToken_def Let_def includes_char digits_no_minus isValidCode_def valid_range_def)
next
  case False
  then have t: "range_token r = nat_digits (range_start r) @ 45 # nat_digits (range_end r)" by (simp add: range_token_def)
  have "split1 45 (range_token r) = [nat_digits (range_start r), nat_digits (range_end r)]"
    unfolding t by (simp add: split1_append split1_single digits_no_minus)
  moreover have "includesStr (range_token r) [45]" by (simp add: t includes_char)
  ultimately show ?thesis
    using assms False unfolding parseToken_def token_id by (simp add: Let_def isValidCode_def valid_range_def)
qed

lemma join_chars: "c \<in> set (join [d] ts) \<Longrightarrow> c = d \<or> (\<exists>t \<in> set ts. c \<in> set t)"
  by (induction "[d]" ts rule: join.induct) auto

lemma segments_join:
  assumes "rs \<noteq> []"
  shows "rule_segments (join [44] (map range_token rs)) = map range_token rs"
proof -
  have "map (\<lambda>c. if c = 65292 then 44 else c) (join [44] (map range_token rs)) = join [44] (map range_token rs)"
    using join_chars [of 65292 44 "map range_token rs"] token_chars(3) by (intro map_idI) auto
  moreover have "split1 44 (join [44] (map range_token rs)) = map range_token rs"
    using assms token_chars(2) by (intro split1_join) auto
  ultimately show ?thesis by (simp add: rule_segments_def comp_def)
qed

lemma mergeRanges_id: "canonical rs \<Longrightarrow> mergeRanges rs = rs"
  using mergeRanges_correct [of rs] by (auto intro: canonical_unique simp: canonical_def)

lemma parse_tokens:
  assumes "\<forall>r \<in> set rs. valid_range r" "rs \<noteq> []"
  shows "parse_rules (join [44] (map range_token rs)) =
    \<lparr>rules_ok = True, ranges = mergeRanges rs, tokens = map range_token (mergeRanges rs),
     normalized = join [44] (map range_token (mergeRanges rs)), invalidTokens = []\<rparr>"
proof -
  have ne: "join [44] (map range_token rs) \<noteq> []" using assms(2) by (cases rs; cases "tl rs") auto
  have "List.map_filter parseToken (map range_token rs) = rs" "filter (\<lambda>s. parseToken s = None) (map range_token rs) = []"
    using assms(1) by (induction rs) (auto simp: List.map_filter_simps parseToken_token)
  with ne assms(2) show ?thesis by (simp add: parse_rules_def segments_join Let_def)
qed

lemma normalized_parses_back:
  assumes "canonical rs" "\<forall>r \<in> set rs. valid_range r"
  shows "parse_rules (join [44] (map range_token rs)) =
    \<lparr>rules_ok = True, ranges = rs, tokens = map range_token rs,
     normalized = join [44] (map range_token rs), invalidTokens = []\<rparr>"
proof (cases "rs = []")
  case True
  then show ?thesis by (simp add: parse_rules_def)
next
  case False
  with assms parse_tokens mergeRanges_id show ?thesis by metis
qed

text \<open>What an accepted text stands for.\<close>

definition entered_codes :: "jsstr \<Rightarrow> nat set" where
  "entered_codes raw = {code. \<exists>t \<in> set (rule_segments raw). \<exists>r. parseToken t = Some r \<and> code \<in> cover r}"

lemma covers_map_filter: "covers (List.map_filter parseToken ts) = {code. \<exists>t \<in> set ts. \<exists>r. parseToken t = Some r \<and> code \<in> cover r}"
  by (force simp: covers_def List.map_filter_def)

lemma mergeRanges_ok:
  "canonical (mergeRanges (List.map_filter parseToken ts))"
  "covers (mergeRanges (List.map_filter parseToken ts)) = covers (List.map_filter parseToken ts)"
  using mergeRanges_correct [of "List.map_filter parseToken ts"] map_filter_valid [of _ ts] by (auto simp: valid_range_def)

lemma covers_valid:
  assumes "canonical rs" "covers rs \<subseteq> {100..599}"
  shows "\<forall>r \<in> set rs. valid_range r"
proof
  fix r assume r: "r \<in> set rs"
  then have "range_start r \<le> range_end r" using assms(1) by (simp add: canonical_def)
  moreover from this have "range_start r \<in> covers rs" "range_end r \<in> covers rs"
    using r by (auto simp: covers_def cover_def)
  ultimately show "valid_range r" using assms(2) by (auto simp: valid_range_def)
qed

lemma parse_rules_accepted:
  assumes "rules_ok (parse_rules raw)"
  shows "canonical (ranges (parse_rules raw))" "covers (ranges (parse_rules raw)) = entered_codes raw"
    "\<forall>r \<in> set (ranges (parse_rules raw)). valid_range r"
    "tokens (parse_rules raw) = map range_token (ranges (parse_rules raw))"
    "normalized (parse_rules raw) = join [44] (map range_token (ranges (parse_rules raw)))"
    "invalidTokens (parse_rules raw) = []"
proof -
  let ?rs = "mergeRanges (List.map_filter parseToken (rule_segments raw))"
  show 1: "canonical (ranges (parse_rules raw))"
    using assms mergeRanges_ok(1) by (auto simp: parse_rules_def Let_def split: if_splits)
  show 2: "covers (ranges (parse_rules raw)) = entered_codes raw"
    using assms mergeRanges_ok(2) [of "rule_segments raw"] covers_map_filter [of "rule_segments raw"]
    by (auto simp: parse_rules_def Let_def entered_codes_def rule_segments_def split: if_splits)
  have "entered_codes raw \<subseteq> {100..599}"
    by (auto simp: entered_codes_def cover_def valid_range_def dest!: parseToken_valid)
  with 1 2 show "\<forall>r \<in> set (ranges (parse_rules raw)). valid_range r" by (intro covers_valid) auto
  show "tokens (parse_rules raw) = map range_token (ranges (parse_rules raw))"
    "normalized (parse_rules raw) = join [44] (map range_token (ranges (parse_rules raw)))"
    "invalidTokens (parse_rules raw) = []"
    using assms by (auto simp: parse_rules_def Let_def split: if_splits)
qed

section \<open>Properties\<close>

lemma parse_string: "parseHttpStatusCodeRules (JStr s) = Some (parse_rules (trim s))"
  by (simp add: parseHttpStatusCodeRules_def nullish_def)

lemma demo_digits:
  "nat_digits 401 = [52, 48, 49]" "nat_digits 402 = [52, 48, 50]" "nat_digits 403 = [52, 48, 51]" "nat_digits 404 = [52, 48, 52]"
  by (simp_all add: nat_digits.simps)

lemma demo_rules:
  "trim (js ''404,401-403'') = js ''404,401-403''"
  "parse_rules (js ''404,401-403'') =
    \<lparr>rules_ok = True, ranges = [\<lparr>range_start = 401, range_end = 404\<rparr>],
      tokens = [js ''401-404''], normalized = js ''401-404'', invalidTokens = []\<rparr>"
  "parse_rules (js ''402-404,401'') =
    \<lparr>rules_ok = True, ranges = [\<lparr>range_start = 401, range_end = 404\<rparr>],
      tokens = [js ''401-404''], normalized = js ''401-404'', invalidTokens = []\<rparr>"
proof -
  show "trim (js ''404,401-403'') = js ''404,401-403''"
    by (intro trim_id) (simp add: js_eval is_space_def is_line_term_def)
  show "parse_rules (js ''404,401-403'') =
    \<lparr>rules_ok = True, ranges = [\<lparr>range_start = 401, range_end = 404\<rparr>],
      tokens = [js ''401-404''], normalized = js ''401-404'', invalidTokens = []\<rparr>"
    using parse_tokens [of "[\<lparr>range_start = 404, range_end = 404\<rparr>, \<lparr>range_start = 401, range_end = 403\<rparr>]"]
    by (simp add: valid_range_def range_token_def demo_digits mergeRanges_def merge_step_def js_eval)
  show "parse_rules (js ''402-404,401'') =
    \<lparr>rules_ok = True, ranges = [\<lparr>range_start = 401, range_end = 404\<rparr>],
      tokens = [js ''401-404''], normalized = js ''401-404'', invalidTokens = []\<rparr>"
    using parse_tokens [of "[\<lparr>range_start = 402, range_end = 404\<rparr>, \<lparr>range_start = 401, range_end = 401\<rparr>]"]
    by (simp add: valid_range_def range_token_def demo_digits mergeRanges_def merge_step_def js_eval)
qed

text \<open>
  An accepted text of status code rules is turned into ranges between 100 and 599 that are in
  ascending order, do not touch each other and cover exactly the codes that were entered; the
  text made of them is accepted and gives the same result again.
\<close>

theorem status_rules_normalize:
  assumes "parseHttpStatusCodeRules (JStr s) = Some r" "rules_ok r"
  shows "canonical (ranges r) \<and> covers (ranges r) = entered_codes (trim s)
    \<and> list_all valid_range (ranges r) \<and> parseHttpStatusCodeRules (JStr (normalized r)) = Some r"
proof -
  have r: "r = parse_rules (trim s)" using assms(1) by (simp add: parse_string)
  note a = parse_rules_accepted [OF assms(2) [unfolded r], folded r]
  have "\<not> is_space 44" by (simp add: is_space_def is_line_term_def)
  then have "c \<in> set (join [44] (map range_token rs)) \<Longrightarrow> \<not> is_space c" for c rs
    using join_chars [of c 44 "map range_token rs"] token_chars(1) by auto
  then have "trim (normalized r) = normalized r" unfolding a(5) by (intro trim_id_no_space) blast
  moreover have "parse_rules (normalized r) = r"
    unfolding a(5) normalized_parses_back [OF a(1,3)] using a(4-6) assms(2) by (cases r) simp
  ultimately show ?thesis using a(1-3) by (simp add: parse_string list_all_iff)
qed

theorem status_rules_normalize_witness:
  "map_option normalized (parseHttpStatusCodeRules (JStr (js ''404,401-403''))) = Some (js ''401-404'')
   \<and> map_option normalized (parseHttpStatusCodeRules (JStr (js ''401-404''))) = Some (js ''401-404'')"
proof -
  have e: "parseHttpStatusCodeRules (JStr (js ''404,401-403'')) =
    Some \<lparr>rules_ok = True, ranges = [\<lparr>range_start = 401, range_end = 404\<rparr>],
      tokens = [js ''401-404''], normalized = js ''401-404'', invalidTokens = []\<rparr>"
    by (simp add: parse_string demo_rules(1,2))
  note status_rules_normalize [OF this, THEN conjunct2, THEN conjunct2, THEN conjunct2]
  with e show ?thesis by simp
qed

text \<open>
  C27: two accepted texts of status code rules are normalised to the same text exactly when they
  stand for the same set of codes.
\<close>

theorem status_rules_equivalent:
  assumes "rules_ok (parse_rules s)" "rules_ok (parse_rules t)"
  shows "normalized (parse_rules s) = normalized (parse_rules t) \<longleftrightarrow> entered_codes s = entered_codes t"
proof -
  note a = parse_rules_accepted [OF assms(1)] and b = parse_rules_accepted [OF assms(2)]
  show ?thesis
  proof
    assume "normalized (parse_rules s) = normalized (parse_rules t)"
    then have "ranges (parse_rules s) = ranges (parse_rules t)"
      using normalized_parses_back [OF a(1,3)] normalized_parses_back [OF b(1,3)] a(5) b(5)
      by (metis ParsedHttpStatusCodeRules.select_convs(2))
    with a(2) b(2) show "entered_codes s = entered_codes t" by simp
  next
    assume "entered_codes s = entered_codes t"
    with a b canonical_unique [OF a(1) b(1)] show "normalized (parse_rules s) = normalized (parse_rules t)" by simp
  qed
qed

theorem status_rules_equivalent_witness:
  "entered_codes (js ''404,401-403'') = entered_codes (js ''402-404,401'')"
proof -
  have "rules_ok (parse_rules (js ''404,401-403''))" "rules_ok (parse_rules (js ''402-404,401''))"
    using demo_rules by simp_all
  from status_rules_equivalent [OF this] demo_rules show ?thesis by simp
qed

definition redirects :: "jsstr \<Rightarrow> int \<Rightarrow> int \<Rightarrow> bool" where
  "redirects mapping f t \<longleftrightarrow> (\<exists>k v. (k, v) \<in> set (mapping_entries mapping) \<and>
     parseStatusCodeKey k = Some f \<and> parseStatusCodeMappingTarget v = Some t)"

definition redirect_text :: "int \<Rightarrow> int \<Rightarrow> jsstr" where
  "redirect_text f t = int_text f @ js '' -> '' @ int_text t"

lemma risky_entry_Some:
  "risky_entry (k, v) = Some x \<longleftrightarrow> (\<exists>f t. parseStatusCodeKey k = Some f \<and> parseStatusCodeMappingTarget v = Some t
     \<and> f \<in> {504, 524} \<and> f \<noteq> t \<and> x = redirect_text f t)"
  by (auto simp: risky_entry_def NON_REDIRECTABLE_STATUS_CODES_def redirect_text_def split: option.splits)

lemma map_filter_mem: "x \<in> set (List.map_filter f xs) \<longleftrightarrow> (\<exists>y \<in> set xs. f y = Some x)"
  by (induction xs) (auto simp: List.map_filter_simps split: option.splits)

lemma disallowed_iff:
  "x \<in> set (collectDisallowedStatusCodeRedirects m) \<longleftrightarrow>
     (\<exists>f t. redirects m f t \<and> f \<in> {504, 524} \<and> f \<noteq> t \<and> x = redirect_text f t)"
proof -
  have "x \<in> set (collectDisallowedStatusCodeRedirects m) \<longleftrightarrow> (\<exists>k v. (k, v) \<in> set (mapping_entries m) \<and> risky_entry (k, v) = Some x)"
    by (auto simp: collectDisallowedStatusCodeRedirects_def map_filter_mem)
  then show ?thesis unfolding risky_entry_Some redirects_def by blast
qed

lemma int_text_risky: "int_text 504 = [53, 48, 52]" "int_text 524 = [53, 50, 52]"
  by (simp_all add: int_text_def nat_digits.simps)

lemma redirect_text_inj:
  assumes "f \<in> {504, 524}" "f' \<in> {504, 524}" "redirect_text f t = redirect_text f' t'"
  shows "f = f' \<and> t = t'"
  using assms by (auto simp: redirect_text_def int_text_risky)

text \<open>
  C28: the guard of the status code mapping reports a redirect as new exactly when the current
  mapping sends 504 or 524 to another valid code and the original mapping did not contain the
  same redirect; the report lists each redirect once, in order.
\<close>

theorem new_redirects_are_reported:
  "let report = collectNewDisallowedStatusCodeRedirects original current
   in distinct report \<and> sorted report
     \<and> set report = {redirect_text f t | f t. f \<in> {504, 524} \<and> f \<noteq> t \<and> redirects current f t \<and> \<not> redirects original f t}"
proof -
  let ?c = "collectDisallowedStatusCodeRedirects current"
  let ?o = "collectDisallowedStatusCodeRedirects original"
  have r: "collectNewDisallowedStatusCodeRedirects original current = filter (\<lambda>m. m \<notin> set ?o) ?c"
    by (simp add: collectNewDisallowedStatusCodeRedirects_def Let_def)
  have o: "redirect_text f t \<in> set ?o \<longleftrightarrow> redirects original f t" if "f \<in> {504, 524}" "f \<noteq> t" for f t
    unfolding disallowed_iff by (metis that redirect_text_inj)
  have "distinct ?c" "sorted ?c" by (simp_all add: collectDisallowedStatusCodeRedirects_def)
  moreover have "set (filter (\<lambda>m. m \<notin> set ?o) ?c) =
      {redirect_text f t | f t. f \<in> {504, 524} \<and> f \<noteq> t \<and> redirects current f t \<and> \<not> redirects original f t}"
  proof (intro set_eqI iffI)
    fix x assume "x \<in> set (filter (\<lambda>m. m \<notin> set ?o) ?c)"
    then obtain f t where "redirects current f t" "f \<in> {504, 524}" "f \<noteq> t" "x = redirect_text f t" "x \<notin> set ?o"
      unfolding set_filter mem_Collect_eq disallowed_iff [of x current] by blast
    with o show "x \<in> {redirect_text f t | f t. f \<in> {504, 524} \<and> f \<noteq> t \<and> redirects current f t \<and> \<not> redirects original f t}"
      by blast
  next
    fix x assume "x \<in> {redirect_text f t | f t. f \<in> {504, 524} \<and> f \<noteq> t \<and> redirects current f t \<and> \<not> redirects original f t}"
    then obtain f t where x: "x = redirect_text f t" "f \<in> {504, 524}" "f \<noteq> t" "redirects current f t" "\<not> redirects original f t"
      by blast
    then have "x \<in> set ?c" unfolding disallowed_iff by blast
    with x o show "x \<in> set (filter (\<lambda>m. m \<notin> set ?o) ?c)" by simp
  qed
  ultimately show ?thesis by (simp add: r Let_def sorted_filter [of id, simplified])
qed

end
