(* ===== verification/ModelMapping.thy ===== *)
theory ModelMapping
  imports StatusCodes
begin

text \<open>
  Model lists and model mappings of a channel
  (\<open>features/channels/lib/model-mapping-validation.ts\<close>) and the metadata of upstream model
  updates (\<open>upstream-update-utils.ts\<close>). A JavaScript \<open>Set\<close> is the list of its elements in the
  order of insertion. \<^term>\<open>None\<close> is a TypeError.
\<close>

section \<open>Model lists\<close>

definition parseModelsString :: "jsstr \<Rightarrow> jsstr list" where
  "parseModelsString modelsStr =
     (if modelsStr \<noteq> [] then filter (\<lambda>m. m \<noteq> []) (map trim (split1 44 modelsStr)) else [])"

definition formatModelsArray :: "jsstr list \<Rightarrow> jsstr" where
  "formatModelsArray models = join [44] (uniq models)"

definition normalizeModelName :: "jsstr \<Rightarrow> jsstr" where
  "normalizeModelName model = trim model"

section \<open>Model mappings\<close>

definition extractMappingSourceModels :: "jsstr \<Rightarrow> jsstr list" where
  "extractMappingSourceModels modelMapping =
     (let trimmed = trim modelMapping in
      if trimmed = [] then []
      else case json_parse trimmed of
             Some (JObj kvs) \<Rightarrow> uniq (filter (\<lambda>k. k \<noteq> []) (map (\<lambda>kv. trim (fst kv)) kvs))
           | _ \<Rightarrow> [])"

definition extractRedirectModels :: "jsstr \<Rightarrow> jsstr list" where
  "extractRedirectModels modelMapping =
     (let trimmed = trim modelMapping in
      if trimmed = [] then []
      else case json_parse trimmed of
             Some (JObj kvs) \<Rightarrow>
               uniq (filter (\<lambda>v. v \<noteq> []) (List.map_filter
                 (\<lambda>kv. case snd kv of JStr s \<Rightarrow> Some (trim s) | _ \<Rightarrow> None) kvs))
           | _ \<Rightarrow> [])"

fun models_differ :: "jsstr list \<Rightarrow> jsstr list \<Rightarrow> bool" where
  "models_differ (c # cs) (i # is) = (if c \<noteq> i then True else models_differ cs is)"
| "models_differ _ _ = False"

definition hasModelConfigChanged :: "jsstr list \<Rightarrow> jsstr \<Rightarrow> jsstr list \<Rightarrow> jsstr \<Rightarrow> bool" where
  "hasModelConfigChanged currentModels currentModelMapping initialModels initialModelMapping =
     (if length initialModels = 0 \<and> initialModelMapping = [] then True
      else if length currentModels \<noteq> length initialModels then True
      else if models_differ currentModels initialModels then True
      else trim currentModelMapping \<noteq> trim initialModelMapping)"

definition findMissingModelsInMapping :: "jsstr \<Rightarrow> jsstr list \<Rightarrow> jsstr list" where
  "findMissingModelsInMapping modelMapping currentModels =
     (let modelSet = map normalizeModelName currentModels in
      uniq (filter (\<lambda>key. key \<noteq> [] \<and> key \<notin> set modelSet)
        (map (\<lambda>kv. normalizeModelName (fst kv)) (mapping_entries modelMapping))))"

record MappingCheck =
  check_valid :: bool
  check_error :: "jsstr option"

definition validateModelMappingJson :: "jsstr \<Rightarrow> MappingCheck" where
  "validateModelMappingJson modelMapping =
     (if modelMapping = [] \<or> trim modelMapping = [] then \<lparr>check_valid = True, check_error = None\<rparr>
      else case json_parse modelMapping of
             None \<Rightarrow> \<lparr>check_valid = False, check_error = Some (js ''Model mapping must be valid JSON format'')\<rparr>
           | Some (JObj kvs) \<Rightarrow>
               (if list_ex (\<lambda>kv. case snd kv of JStr _ \<Rightarrow> False | _ \<Rightarrow> True) kvs
                then \<lparr>check_valid = False, check_error = Some (js ''Model mapping values must be strings'')\<rparr>
                else \<lparr>check_valid = True, check_error = None\<rparr>)
           | Some _ \<Rightarrow> \<lparr>check_valid = False, check_error = Some (js ''Model mapping must be a valid JSON object'')\<rparr>)"

definition findExposedTargetModels :: "jsstr \<Rightarrow> jsstr list \<Rightarrow> jsstr list" where
  "findExposedTargetModels modelMapping currentModels =
     (let redirectModels = extractRedirectModels modelMapping in
      if redirectModels = [] then []
      else let modelSet = map normalizeModelName currentModels
           in filter (\<lambda>model. normalizeModelName model \<in> set modelSet) redirectModels)"

record CategorizedModels =
  normalizedCurrentModels :: "jsstr list"
  normalizedRedirectModels :: "jsstr list"
  classificationSet :: "jsstr list"
  redirectOnlySet :: "jsstr list"

definition categorizeModelsWithRedirect :: "jsstr list \<Rightarrow> jsstr list \<Rightarrow> CategorizedModels" where
  "categorizeModelsWithRedirect currentModels redirectModels =
     (let current = uniq (filter (\<lambda>m. m \<noteq> []) (map normalizeModelName currentModels));
          redirect = uniq (filter (\<lambda>m. m \<noteq> []) (map normalizeModelName redirectModels))
      in \<lparr>normalizedCurrentModels = current, normalizedRedirectModels = redirect,
          classificationSet = uniq (current @ redirect),
          redirectOnlySet = uniq (filter (\<lambda>m. m \<notin> set current) redirect)\<rparr>)"

section \<open>Upstream updates\<close>

fun model_texts :: "jsval list \<Rightarrow> jsstr list option" where
  "model_texts [] = Some []"
| "model_texts (m # ms) =
     (case (if truthy m then to_text m else Some []) of
        None \<Rightarrow> None
      | Some t \<Rightarrow> map_option ((#) (trim t)) (model_texts ms))"

text \<open>The argument is \<open>unknown[]\<close>; a value without \<open>map\<close> raises a TypeError.\<close>

definition normalizeModelList :: "jsval \<Rightarrow> jsstr list option" where
  "normalizeModelList models =
     (case (if truthy models then models else JArr []) of
        JArr ms \<Rightarrow> map_option (\<lambda>ts. uniq (filter (\<lambda>t. t \<noteq> []) ts)) (model_texts ms)
      | _ \<Rightarrow> None)"

record UpstreamUpdateMeta =
  update_enabled :: bool
  pendingAddModels :: "jsstr list"
  pendingRemoveModels :: "jsstr list"

definition parseUpstreamUpdateMeta :: "jsval \<Rightarrow> UpstreamUpdateMeta option" where
  "parseUpstreamUpdateMeta settings =
     (let parsed = (case settings of
            JObj _ \<Rightarrow> settings
          | JStr s \<Rightarrow> (case json_parse s of Some v \<Rightarrow> v | None \<Rightarrow> JNull)
          | _ \<Rightarrow> JNull)
      in if \<not> is_object parsed
         then Some \<lparr>update_enabled = False, pendingAddModels = [], pendingRemoveModels = []\<rparr>
         else case normalizeModelList (opt_prop parsed (js ''upstream_model_update_last_detected_models'')) of
                None \<Rightarrow> None
              | Some add \<Rightarrow>
                  (case normalizeModelList (opt_prop parsed (js ''upstream_model_update_last_removed_models'')) of
                     None \<Rightarrow> None
                   | Some removed \<Rightarrow>
                       Some \<lparr>update_enabled =
                               (opt_prop parsed (js ''upstream_model_update_check_enabled'') = JBool True),
                             pendingAddModels = add, pendingRemoveModels = removed\<rparr>))"

section \<open>Facts about model lists\<close>

definition plain_name :: "jsstr \<Rightarrow> bool" where
  "plain_name m \<longleftrightarrow> m \<noteq> [] \<and> trim m = m \<and> 44 \<notin> set m"

lemma parseModelsString_plain: "m \<in> set (parseModelsString s) \<Longrightarrow> plain_name m"
  using split1_no_sep [of _ 44 s] set_trim_subset
  by (auto simp: parseModelsString_def plain_name_def split: if_splits)

lemma parse_join:
  assumes "list_all plain_name ms"
  shows "parseModelsString (join [44] ms) = ms"
proof (cases "ms = []")
  case False
  have "join [44] ms \<noteq> []" using assms False by (cases ms; cases "tl ms") (auto simp: plain_name_def)
  moreover have "split1 44 (join [44] ms) = ms"
    using assms False by (intro split1_join) (auto simp: list_all_iff plain_name_def)
  moreover have "map trim ms = ms" "filter (\<lambda>m. m \<noteq> []) ms = ms"
    using assms by (auto simp: list_all_iff plain_name_def intro!: map_idI filter_True)
  ultimately show ?thesis by (simp add: parseModelsString_def)
qed (simp add: parseModelsString_def)

lemma trimmed_string: "(case v of JStr s \<Rightarrow> Some (trim s) | _ \<Rightarrow> None) = Some x \<longleftrightarrow> (\<exists>s. v = JStr s \<and> x = trim s)"
  by (cases v) auto

lemma models_differ_iff: "length cs = length is \<Longrightarrow> models_differ cs is \<longleftrightarrow> cs \<noteq> is"
  by (induction cs "is" rule: models_differ.induct) auto

text \<open>
  the text of a list of models and the list are two forms of one value: reading any text,
  writing the list and reading it again gives the same models, each once, and writing them again
  gives the same text.
\<close>

theorem model_list_text_roundtrip:
  "let ms = uniq (parseModelsString s)
   in parseModelsString (formatModelsArray (parseModelsString s)) = ms
     \<and> formatModelsArray (parseModelsString (formatModelsArray (parseModelsString s)))
       = formatModelsArray (parseModelsString s)"
proof -
  have "list_all plain_name (uniq (parseModelsString s))"
    by (auto simp: list_all_iff dest: parseModelsString_plain)
  then show ?thesis by (simp add: formatModelsArray_def parse_join Let_def)
qed

text \<open>
  The repairs offered for a model list that does not agree with the mapping are exact. The
  reported missing models are the named sources of the mapping that the list lacks, and adding
  them leaves none missing; the reported exposed models are the targets that the list contains,
  and removing them leaves none exposed.
\<close>

theorem mapping_repairs_are_exact:
  "set (findMissingModelsInMapping m cur) =
     {k. k \<noteq> [] \<and> k \<in> (\<lambda>kv. trim (fst kv)) ` set (mapping_entries m)} - trim ` set cur
   \<and> findMissingModelsInMapping m (cur @ findMissingModelsInMapping m cur) = []
   \<and> set (findExposedTargetModels m cur) = set (extractRedirectModels m) \<inter> trim ` set cur
   \<and> findExposedTargetModels m (filter (\<lambda>x. trim x \<notin> set (findExposedTargetModels m cur)) cur) = []"
proof (intro conjI)
  have t: "trim x = x" if "x \<in> set (extractRedirectModels m)" for x
    using that by (auto simp: extractRedirectModels_def Let_def map_filter_mem trimmed_string split: if_splits option.splits jsval.splits)
  have s: "set (findMissingModelsInMapping m c) =
     {k. k \<noteq> [] \<and> k \<in> (\<lambda>kv. trim (fst kv)) ` set (mapping_entries m)} - trim ` set c" for c
    by (auto simp: findMissingModelsInMapping_def normalizeModelName_def Let_def)
  then show "set (findMissingModelsInMapping m cur) =
     {k. k \<noteq> [] \<and> k \<in> (\<lambda>kv. trim (fst kv)) ` set (mapping_entries m)} - trim ` set cur" .
  let ?M = "set (findMissingModelsInMapping m cur)"
  have sub: "?M \<subseteq> trim ` ?M"
  proof
    fix x assume x: "x \<in> ?M"
    then obtain a where "x = trim a" unfolding s by blast
    with x show "x \<in> trim ` ?M" by (intro image_eqI [of _ _ x]) simp_all
  qed
  have "K - (trim ` set cur \<union> trim ` ?M) = {}" if "?M = K - trim ` set cur" for K
    using sub that by blast
  from this [OF s] have "set (findMissingModelsInMapping m (cur @ findMissingModelsInMapping m cur)) = {}"
    unfolding s [of "cur @ findMissingModelsInMapping m cur"] set_append image_Un .
  then show "findMissingModelsInMapping m (cur @ findMissingModelsInMapping m cur) = []" by simp
  have e: "set (findExposedTargetModels m c) = set (extractRedirectModels m) \<inter> trim ` set c" for c
    using t by (auto simp: findExposedTargetModels_def normalizeModelName_def Let_def)
  then show "set (findExposedTargetModels m cur) = set (extractRedirectModels m) \<inter> trim ` set cur" .
  have "set (findExposedTargetModels m (filter (\<lambda>x. trim x \<notin> set (findExposedTargetModels m cur)) cur)) = {}"
    unfolding e by auto
  then show "findExposedTargetModels m (filter (\<lambda>x. trim x \<notin> set (findExposedTargetModels m cur)) cur) = []" by simp
qed

lemma hasModelConfigChanged_iff:
  "hasModelConfigChanged cs cm is im \<longleftrightarrow> is = [] \<and> im = [] \<or> cs \<noteq> is \<or> trim cm \<noteq> trim im"
  by (auto simp: hasModelConfigChanged_def models_differ_iff)

end
