(* ===== verification/NavModules.thy ===== *)
theory NavModules
  imports Storage
begin

text \<open>
  Which modules of the console a visitor may see (\<open>lib/nav-modules.ts\<close>): the settings of the
  header navigation and of the sidebar, read from the status that the server reports and that is
  cached in the browser storage. The settings are untyped JSON. An object of the code is the list
  of its properties in enumeration order; \<^term>\<open>None\<close> is a TypeError raised by \<open>String\<close>.
\<close>

section \<open>Modules of the header\<close>

record ModuleAccess =
  access_enabled :: bool
  access_requireAuth :: bool

datatype HeaderNavModule = Rankings | Pricing

text \<open>The values of \<open>HeaderNavModules\<close>, whose index signature is \<open>boolean | ModuleAccess\<close>.\<close>

datatype NavValue = NavBool bool | NavAccess ModuleAccess

type_synonym HeaderNavModules = "(jsstr \<times> NavValue) list"

fun module_key :: "HeaderNavModule \<Rightarrow> jsstr" where
  "module_key Rankings = js ''rankings''"
| "module_key Pricing = js ''pricing''"

definition DEFAULT_HEADER_NAV_MODULES :: HeaderNavModules where
  "DEFAULT_HEADER_NAV_MODULES =
     [(js ''home'', NavBool True), (js ''console'', NavBool True),
      (js ''pricing'', NavAccess \<lparr>access_enabled = True, access_requireAuth = False\<rparr>),
      (js ''rankings'', NavAccess \<lparr>access_enabled = True, access_requireAuth = False\<rparr>),
      (js ''docs'', NavBool True), (js ''about'', NavBool True)]"

definition DEFAULTS :: "HeaderNavModule \<Rightarrow> ModuleAccess" where
  "DEFAULTS m = \<lparr>access_enabled = True, access_requireAuth = False\<rparr>"

definition cloneHeaderNavDefaults :: HeaderNavModules where
  "cloneHeaderNavDefaults = DEFAULT_HEADER_NAV_MODULES"

text \<open>
  \<open>toLowerCase\<close> as far as the comparison with the texts below sees it: the only other characters
  whose lower case is an ASCII letter give \<open>i\<close> and \<open>k\<close>.
\<close>

definition ascii_lower :: "jsstr \<Rightarrow> jsstr" where
  "ascii_lower s = map (\<lambda>c. if 65 \<le> c \<and> c \<le> 90 then c + 32 else c) s"

definition parseHeaderNavBoolean :: "jsval \<Rightarrow> bool \<Rightarrow> bool" where
  "parseHeaderNavBoolean raw fallback =
     (case raw of
        JBool b \<Rightarrow> b
      | JNum n \<Rightarrow> (if n = 1 then True else if n = 0 then False else fallback)
      | JStr s \<Rightarrow>
          (let t = ascii_lower (trim s) in
           if t = js ''true'' \<or> t = js ''1'' then True
           else if t = js ''false'' \<or> t = js ''0'' then False
           else fallback)
      | _ \<Rightarrow> fallback)"

definition is_scalar :: "jsval \<Rightarrow> bool" where
  "is_scalar v = (case v of JBool _ \<Rightarrow> True | JNum _ \<Rightarrow> True | JStr _ \<Rightarrow> True | _ \<Rightarrow> False)"

definition parseAccess :: "jsval \<Rightarrow> ModuleAccess \<Rightarrow> ModuleAccess" where
  "parseAccess raw fallback =
     (if is_scalar raw
      then \<lparr>access_enabled = parseHeaderNavBoolean raw (access_enabled fallback),
            access_requireAuth = access_requireAuth fallback\<rparr>
      else if is_object raw
      then \<lparr>access_enabled = parseHeaderNavBoolean (opt_prop raw (js ''enabled'')) (access_enabled fallback),
            access_requireAuth = parseHeaderNavBoolean (opt_prop raw (js ''requireAuth'')) (access_requireAuth fallback)\<rparr>
      else fallback)"

text \<open>\<^term>\<open>Some JNull\<close> stands for the result \<open>null\<close>.\<close>

definition parseHeaderNavRecord :: "jsval \<Rightarrow> jsval option" where
  "parseHeaderNavRecord raw =
     (if \<not> truthy raw then Some JNull
      else case to_text raw of
             None \<Rightarrow> None
           | Some t \<Rightarrow>
               (if trim t = [] then Some JNull
                else if is_object raw then Some raw
                else Some (case json_parse t of Some v \<Rightarrow> v | None \<Rightarrow> JNull)))"

text \<open>\<open>Object.entries\<close>: the elements of arrays and the characters of strings have index keys.\<close>

definition js_entries :: "jsval \<Rightarrow> (jsstr \<times> jsval) list" where
  "js_entries v =
     (case v of
        JObj kvs \<Rightarrow> kvs
      | JArr xs \<Rightarrow> zip (map nat_digits [0..<length xs]) xs
      | JStr s \<Rightarrow> zip (map nat_digits [0..<length s]) (map (\<lambda>c. JStr [c]) s)
      | _ \<Rightarrow> [])"

definition access_of :: "NavValue option \<Rightarrow> ModuleAccess" where
  "access_of v = (case v of Some (NavAccess a) \<Rightarrow> a | _ \<Rightarrow> \<lparr>access_enabled = True, access_requireAuth = False\<rparr>)"

definition nav_entry :: "HeaderNavModules \<Rightarrow> jsstr \<times> jsval \<Rightarrow> HeaderNavModules" where
  "nav_entry result e =
     (let key = fst e; v = snd e in
      if key = js ''pricing'' \<or> key = js ''rankings''
      then obj_set result key (NavAccess (parseAccess v (access_of (map_of result key))))
      else case map_of result key of
             Some (NavBool b) \<Rightarrow> obj_set result key (NavBool (parseHeaderNavBoolean v b))
           | _ \<Rightarrow> (if is_scalar v then obj_set result key (NavBool (parseHeaderNavBoolean v True)) else result))"

definition parseHeaderNavModules :: "jsval \<Rightarrow> HeaderNavModules option" where
  "parseHeaderNavModules raw =
     (case parseHeaderNavRecord raw of
        None \<Rightarrow> None
      | Some parsed \<Rightarrow>
          (if \<not> truthy parsed then Some cloneHeaderNavDefaults
           else Some (foldl nav_entry cloneHeaderNavDefaults (js_entries parsed))))"

definition parseHeaderNavModulesFromStatus :: "jsval \<Rightarrow> HeaderNavModules option" where
  "parseHeaderNavModulesFromStatus info = parseHeaderNavModules (opt_prop info (js ''HeaderNavModules''))"

section \<open>The cached status\<close>

abbreviation KEY_STATUS :: jsstr where "KEY_STATUS \<equiv> js ''status''"

definition getCachedStatus :: "store \<Rightarrow> jsval" where
  "getCachedStatus st =
     (case st KEY_STATUS of
        None \<Rightarrow> JNull
      | Some raw \<Rightarrow> (if raw = [] then JNull else case json_parse raw of Some v \<Rightarrow> v | None \<Rightarrow> JNull))"

definition cacheStatus :: "quota \<Rightarrow> jsval \<Rightarrow> store \<Rightarrow> store" where
  "cacheStatus accepts info st =
     (if truthy info \<and> accepts st KEY_STATUS (stringify info) then st(KEY_STATUS \<mapsto> stringify info) else st)"

definition getModuleAccessFromStatus :: "jsval \<Rightarrow> HeaderNavModule \<Rightarrow> ModuleAccess option" where
  "getModuleAccessFromStatus info m =
     map_option (\<lambda>ms. case map_of ms (module_key m) of Some (NavAccess a) \<Rightarrow> a | _ \<Rightarrow> DEFAULTS m)
       (parseHeaderNavModulesFromStatus info)"

definition getModuleAccess :: "store \<Rightarrow> HeaderNavModule \<Rightarrow> ModuleAccess option" where
  "getModuleAccess st m = getModuleAccessFromStatus (getCachedStatus st) m"

text \<open>\<open>fetched\<close> is the answer of \<open>getStatus\<close>, \<^term>\<open>None\<close> when the request is rejected.\<close>

definition getFreshModuleAccess :: "quota \<Rightarrow> jsval option \<Rightarrow> HeaderNavModule \<Rightarrow> store \<Rightarrow> ModuleAccess \<times> store" where
  "getFreshModuleAccess accepts fetched m st =
     (let denied = \<lparr>access_enabled = False, access_requireAuth = True\<rparr> in
      case fetched of
        None \<Rightarrow> (denied, st)
      | Some info \<Rightarrow>
          (let st' = cacheStatus accepts info st
           in case getModuleAccessFromStatus info m of Some a \<Rightarrow> (a, st') | None \<Rightarrow> (denied, st')))"

definition isSidebarModuleEnabled :: "store \<Rightarrow> jsstr \<Rightarrow> jsstr \<Rightarrow> bool option" where
  "isSidebarModuleEnabled st section m =
     (let info = getCachedStatus st in
      if \<not> truthy info then Some True
      else let raw = opt_prop info (js ''SidebarModulesAdmin'') in
           if \<not> truthy raw then Some True
           else case to_text raw of
                  None \<Rightarrow> None
                | Some t \<Rightarrow>
                    (if trim t = [] then Some True
                     else case Option.bind (json_parse t) (\<lambda>parsed. get_prop parsed section) of
                            None \<Rightarrow> Some True
                          | Some sectionConfig \<Rightarrow>
                              Some (if \<not> truthy sectionConfig then True
                                    else if opt_prop sectionConfig (js ''enabled'') = JBool False then False
                                    else if opt_prop sectionConfig m = JBool False then False
                                    else True)))"

section \<open>What one entry does\<close>

definition nav_value :: "jsstr \<Rightarrow> jsval \<Rightarrow> NavValue option \<Rightarrow> NavValue option" where
  "nav_value key v old =
     (if key = js ''pricing'' \<or> key = js ''rankings'' then Some (NavAccess (parseAccess v (access_of old)))
      else case old of
             Some (NavBool b) \<Rightarrow> Some (NavBool (parseHeaderNavBoolean v b))
           | _ \<Rightarrow> (if is_scalar v then Some (NavBool (parseHeaderNavBoolean v True)) else old))"

lemma map_of_nav_entry: "map_of (nav_entry res (k, v)) = (map_of res)(k := nav_value k v (map_of res k))"
  by (auto simp: nav_entry_def nav_value_def Let_def split: option.splits NavValue.splits)

lemma map_of_nav_fold:
  "distinct (map fst es) \<Longrightarrow> map_of (foldl nav_entry res es) k =
     (case map_of es k of None \<Rightarrow> map_of res k | Some v \<Rightarrow> nav_value k v (map_of res k))"
proof (induction es arbitrary: res)
  case (Cons e es)
  obtain k' v where e: "e = (k', v)" by force
  have "map_of es k' = None" using Cons.prems e by (simp add: map_of_eq_None_iff)
  with Cons e show ?case by (auto simp: map_of_nav_entry split: option.splits)
qed simp

text \<open>The shape of the settings: two modules with access rules, everything else a switch.\<close>

definition nav_typed :: "HeaderNavModules \<Rightarrow> bool" where
  "nav_typed ms \<longleftrightarrow>
     list_all (\<lambda>k. \<exists>a. map_of ms (js k) = Some (NavAccess a)) [''pricing'', ''rankings'']
     \<and> list_all (\<lambda>k. \<exists>b. map_of ms (js k) = Some (NavBool b)) [''home'', ''console'', ''docs'', ''about'']
     \<and> (\<forall>k a. map_of ms k = Some (NavAccess a) \<longrightarrow> k \<in> {js ''pricing'', js ''rankings''})"

lemma nav_typed_defaults: "nav_typed cloneHeaderNavDefaults"
  by (auto simp: nav_typed_def cloneHeaderNavDefaults_def DEFAULT_HEADER_NAV_MODULES_def)

lemma nav_value_switch:
  "k \<noteq> js ''pricing'' \<Longrightarrow> k \<noteq> js ''rankings'' \<Longrightarrow> (\<And>a. old \<noteq> Some (NavAccess a)) \<Longrightarrow>
     nav_value k v old = old \<or> (\<exists>b. nav_value k v old = Some (NavBool b))"
  by (auto simp: nav_value_def split: option.splits NavValue.splits)

lemma nav_typed_entry:
  assumes "nav_typed res"
  shows "nav_typed (nav_entry res (k, v))"
proof (cases "k = js ''pricing'' \<or> k = js ''rankings''")
  case True
  with assms show ?thesis by (auto simp: nav_typed_def map_of_nav_entry nav_value_def)
next
  case False
  then have "map_of res k \<noteq> Some (NavAccess a)" for a using assms by (auto simp: nav_typed_def)
  from nav_value_switch [OF _ _ this, of k v] False
  consider "nav_value k v (map_of res k) = map_of res k" | b where "nav_value k v (map_of res k) = Some (NavBool b)" by blast
  then show ?thesis
  proof cases
    case 1
    then have "map_of (nav_entry res (k, v)) = map_of res" by (simp add: map_of_nav_entry)
    with assms show ?thesis by (simp add: nav_typed_def)
  next
    case 2
    with assms False show ?thesis by (auto simp: nav_typed_def map_of_nav_entry)
  qed
qed

lemma nav_typed_fold: "nav_typed res \<Longrightarrow> nav_typed (foldl nav_entry res es)"
  by (induction es arbitrary: res) (auto simp: nav_typed_entry)

section \<open>The settings as JSON\<close>

fun nav_value_json :: "NavValue \<Rightarrow> jsval" where
  "nav_value_json (NavBool b) = JBool b"
| "nav_value_json (NavAccess a) =
     JObj [(js ''enabled'', JBool (access_enabled a)), (js ''requireAuth'', JBool (access_requireAuth a))]"

definition nav_json :: "HeaderNavModules \<Rightarrow> jsval" where
  "nav_json ms = JObj (map (\<lambda>(k, v). (k, nav_value_json v)) ms)"

lemma map_of_nav_json: "map_of (map (\<lambda>(k, v). (k, nav_value_json v)) ms) k = map_option nav_value_json (map_of ms k)"
  by (induction ms) auto

lemma parseAccess_json: "parseAccess (nav_value_json (NavAccess a)) old = a"
  by (simp add: parseAccess_def is_scalar_def is_object_def parseHeaderNavBoolean_def)

lemma nav_value_json_back:
  assumes "nav_typed ms" "map_of ms k = Some x"
  shows "nav_value k (nav_value_json x) (map_of cloneHeaderNavDefaults k) = Some x"
proof (cases x)
  case (NavAccess a)
  then have "k = js ''pricing'' \<or> k = js ''rankings''" using assms by (auto simp: nav_typed_def)
  with NavAccess show ?thesis by (auto simp: nav_value_def parseAccess_json simp del: nav_value_json.simps)
next
  case (NavBool b)
  then have "k \<noteq> js ''pricing''" "k \<noteq> js ''rankings''" using assms by (auto simp: nav_typed_def)
  with NavBool show ?thesis
    by (auto simp: nav_value_def parseHeaderNavBoolean_def is_scalar_def split: option.splits NavValue.splits)
qed

section \<open>Properties\<close>

text \<open>
  C32: whatever the server reports as header settings, the result of reading them is well typed:
  the pricing and rankings modules have access rules, the four built-in entries are switches and
  every further entry is a switch, so that looking up a module never falls back.
\<close>

theorem header_nav_is_typed:
  assumes "parseHeaderNavModules raw = Some ms"
  shows "nav_typed ms \<and> (\<forall>m. \<exists>a. map_of ms (module_key m) = Some (NavAccess a))"
proof -
  have t: "nav_typed ms"
    using assms nav_typed_defaults nav_typed_fold
    by (auto simp: parseHeaderNavModules_def split: option.splits if_splits)
  moreover have "\<exists>a. map_of ms (module_key m) = Some (NavAccess a)" for m
    using t by (cases m) (auto simp: nav_typed_def)
  ultimately show ?thesis by blast
qed

theorem header_nav_is_typed_witness:
  "\<exists>ms. parseHeaderNavModules (JObj [(js ''pricing'', JBool False), (js ''extra'', JStr (js ''0''))]) = Some ms
    \<and> map_of ms (js ''pricing'') = Some (NavAccess \<lparr>access_enabled = False, access_requireAuth = False\<rparr>)
    \<and> nav_typed ms"
proof -
  let ?raw = "JObj [(js ''pricing'', JBool False), (js ''extra'', JStr (js ''0''))]"
  let ?ms = "foldl nav_entry cloneHeaderNavDefaults (js_entries ?raw)"
  have "trim (js ''[object Object]'') = js ''[object Object]''"
    by (intro trim_id) (simp add: js_eval is_space_def is_line_term_def)
  then have p: "parseHeaderNavModules ?raw = Some ?ms"
    by (simp add: parseHeaderNavModules_def parseHeaderNavRecord_def is_object_def)
  have "map_of ?ms (js ''pricing'') = Some (NavAccess \<lparr>access_enabled = False, access_requireAuth = False\<rparr>)"
    by (simp add: js_entries_def map_of_nav_entry nav_value_def parseAccess_def is_scalar_def parseHeaderNavBoolean_def
        access_of_def cloneHeaderNavDefaults_def DEFAULT_HEADER_NAV_MODULES_def)
  with p header_nav_is_typed [OF p] show ?thesis by blast
qed

text \<open>
  Header settings that were written as JSON text are read back entry by entry.
\<close>

theorem header_nav_reads_back:
  assumes "nav_typed ms" "json_wf (nav_json ms)"
  shows "\<exists>ms'. parseHeaderNavModules (JStr (stringify (nav_json ms))) = Some ms' \<and> map_of ms' = map_of ms"
proof -
  let ?es = "map (\<lambda>(k, v). (k, nav_value_json v)) ms"
  let ?t = "stringify (nav_json ms)"
  have p: "json_parse ?t = Some (JObj ?es)" using json.dec_enc [OF assms(2)] by (simp add: nav_json_def)
  have h: "?t \<noteq> []" "hd ?t = 123" by (simp_all add: nav_json_def)
  then have "trim ?t \<noteq> []"
    by (cases ?t) (auto simp: trim_empty_iff is_space_def is_line_term_def)
  with h(1) p have r: "parseHeaderNavRecord (JStr ?t) = Some (JObj ?es)"
    by (simp add: parseHeaderNavRecord_def is_object_def)
  have d: "distinct (map fst ?es)"
    using assms(2) distinct_obj_of [of ?es] by (simp add: nav_json_def)
  have "map_of (foldl nav_entry cloneHeaderNavDefaults ?es) k = map_of ms k" for k
  proof (cases "map_of ms k")
    case None
    then have "map_of cloneHeaderNavDefaults k = None"
      using assms(1) by (auto simp: nav_typed_def cloneHeaderNavDefaults_def DEFAULT_HEADER_NAV_MODULES_def)
    with None show ?thesis by (simp only: map_of_nav_fold [OF d] map_of_nav_json) simp
  next
    case (Some x)
    with nav_value_json_back [OF assms(1) Some] show ?thesis by (simp only: map_of_nav_fold [OF d] map_of_nav_json) simp
  qed
  with r show ?thesis by (auto simp: parseHeaderNavModules_def js_entries_def)
qed

theorem header_nav_reads_back_witness:
  "\<exists>ms'. parseHeaderNavModules (JStr (stringify (nav_json DEFAULT_HEADER_NAV_MODULES))) = Some ms'
    \<and> map_of ms' = map_of DEFAULT_HEADER_NAV_MODULES"
proof (rule header_nav_reads_back)
  show "nav_typed DEFAULT_HEADER_NAV_MODULES" using nav_typed_defaults by (simp add: cloneHeaderNavDefaults_def)
  show "json_wf (nav_json DEFAULT_HEADER_NAV_MODULES)"
    by (simp add: nav_json_def DEFAULT_HEADER_NAV_MODULES_def obj_literal)
qed

end
