(* ===== verification/AdminPermissions.thy ===== *)
theory AdminPermissions
  imports Storage
begin

text \<open>
  Roles and permissions: the roles (\<open>lib/roles.ts\<close>), the signed-in user and its persistence
  (\<open>stores/auth-store.ts\<close>), the permission check and the matrix of the permission editor
  (\<open>lib/admin-permissions.ts\<close>). The user is the untyped JSON value that the server sent or that
  was restored from the browser storage. Matrices are objects as association lists.
\<close>

section \<open>Roles\<close>

definition ROLE_GUEST :: rat where "ROLE_GUEST = 0"
definition ROLE_USER :: rat where "ROLE_USER = 1"
definition ROLE_ADMIN :: rat where "ROLE_ADMIN = 10"
definition ROLE_SUPER_ADMIN :: rat where "ROLE_SUPER_ADMIN = 100"

definition ROLE_LABEL_KEYS :: "(rat \<times> jsstr) list" where
  "ROLE_LABEL_KEYS =
     [(ROLE_SUPER_ADMIN, js ''Super Admin''), (ROLE_ADMIN, js ''Admin''),
      (ROLE_USER, js ''User''), (ROLE_GUEST, js ''Guest'')]"

definition getRoleLabelKey :: "rat option \<Rightarrow> jsstr" where
  "getRoleLabelKey r =
     (case Option.bind r (map_of ROLE_LABEL_KEYS) of
        Some l \<Rightarrow> l
      | None \<Rightarrow> the (map_of ROLE_LABEL_KEYS ROLE_GUEST))"

definition getRoleLabel :: "(jsstr \<Rightarrow> jsstr) \<Rightarrow> rat option \<Rightarrow> jsstr" where
  "getRoleLabel tr r = tr (getRoleLabelKey r)"

section \<open>The signed-in user\<close>

abbreviation KEY_USER :: jsstr where "KEY_USER \<equiv> js ''user''"

record AuthState =
  auth_user :: jsval
  auth_store :: store

definition initUser :: "store \<Rightarrow> AuthState" where
  "initUser st =
     (case st KEY_USER of
        None \<Rightarrow> \<lparr>auth_user = JNull, auth_store = st\<rparr>
      | Some saved \<Rightarrow>
          (if saved = [] then \<lparr>auth_user = JNull, auth_store = st\<rparr>
           else case json_parse saved of
                  Some u \<Rightarrow> \<lparr>auth_user = u, auth_store = st\<rparr>
                | None \<Rightarrow> \<lparr>auth_user = JNull, auth_store = st(KEY_USER := None)\<rparr>))"

text \<open>A refused write throws out of the update, which then does not happen.\<close>

definition setUser :: "quota \<Rightarrow> jsval \<Rightarrow> AuthState \<Rightarrow> AuthState option" where
  "setUser accepts user s =
     (if truthy user
      then (if accepts (auth_store s) KEY_USER (stringify user)
            then Some (s\<lparr>auth_user := user, auth_store := (auth_store s)(KEY_USER \<mapsto> stringify user)\<rparr>)
            else None)
      else Some (s\<lparr>auth_user := user, auth_store := (auth_store s)(KEY_USER := None)\<rparr>))"

definition reset_auth :: "AuthState \<Rightarrow> AuthState" where
  "reset_auth s = s\<lparr>auth_user := JNull, auth_store := (auth_store s)(KEY_USER := None)\<rparr>"

section \<open>Permissions\<close>

type_synonym AdminPermissionMatrix = "(jsstr \<times> (jsstr \<times> bool) list) list"


record PermissionActionDef =
  action :: jsstr
  action_label_key :: jsstr
  description_key :: jsstr

record PermissionResourceDef =
  resource :: jsstr
  resource_label_key :: jsstr
  actions :: "PermissionActionDef list"

record PermissionRoleDef =
  role_key :: jsstr
  role_name :: jsstr
  built_in :: bool
  superuser :: bool
  grants :: AdminPermissionMatrix

record PermissionCatalog =
  resources :: "PermissionResourceDef list"
  roles :: "PermissionRoleDef list"

definition EMPTY_PERMISSION_CATALOG :: PermissionCatalog where
  "EMPTY_PERMISSION_CATALOG = \<lparr>resources = [], roles = []\<rparr>"

definition hasPermission :: "jsval \<Rightarrow> jsstr \<Rightarrow> jsstr \<Rightarrow> bool" where
  "hasPermission user res act =
     (if \<not> truthy user then False
      else if opt_prop user (js ''role'') = JNum ROLE_SUPER_ADMIN then True
      else opt_prop (opt_prop (opt_prop (opt_prop user (js ''permissions'')) (js ''admin_permissions'')) res) act
             = JBool True)"






section \<open>Objects built by a loop\<close>














text \<open>The user that was signed in is the one the next visit starts with.\<close>

lemma login_survives_reload:
  assumes "json_wf u" "truthy u" "setUser accepts u s = Some s'"
  shows "initUser (auth_store s') = \<lparr>auth_user = u, auth_store = auth_store s'\<rparr>"
  using assms json.dec_enc [OF assms(1)] json.enc_not_empty [OF assms(1)]
  by (auto simp: setUser_def initUser_def split: if_splits)

lemma logout_survives_reload:
  "auth_user (initUser (auth_store (reset_auth s))) = JNull"
  "\<not> truthy u \<Longrightarrow> setUser accepts u s = Some s' \<Longrightarrow> auth_user (initUser (auth_store s')) = JNull"
  by (auto simp: setUser_def initUser_def reset_auth_def)

lemma no_permission_signed_out: "\<not> truthy u \<Longrightarrow> \<not> hasPermission u res act"
  by (simp add: hasPermission_def)

end
