(* ===== verification/JsonPretty.thy ===== *)
theory JsonPretty
  imports Json
begin

text \<open>
  \<open>JSON.stringify\<close> with an indentation of two spaces, and that \<open>JSON.parse\<close> reads its text back.
\<close>

section \<open>Indented text\<close>

definition indent :: "nat \<Rightarrow> jsstr" where
  "indent d = 10 # replicate (2 * d) 32"

fun pretty :: "nat \<Rightarrow> jsval \<Rightarrow> jsstr"
and pretty_elems :: "nat \<Rightarrow> jsval list \<Rightarrow> jsstr list"
and pretty_members :: "nat \<Rightarrow> (jsstr \<times> jsval) list \<Rightarrow> jsstr list" where
  "pretty d JUndef = js ''null''"
| "pretty d JNull = js ''null''"
| "pretty d (JBool b) = (if b then js ''true'' else js ''false'')"
| "pretty d (JNum q) = num_text q"
| "pretty d (JStr s) = quote s"
| "pretty d (JArr xs) =
     (if xs = [] then [91, 93]
      else 91 # join [44] (pretty_elems (Suc d) xs) @ indent d @ [93])"
| "pretty d (JObj kvs) =
     (let ms = pretty_members (Suc d) kvs in
      if ms = [] then [123, 125] else 123 # join [44] ms @ indent d @ [125])"
| "pretty_elems d [] = []"
| "pretty_elems d (v # vs) = (indent d @ pretty d v) # pretty_elems d vs"
| "pretty_members d [] = []"
| "pretty_members d ((k, v) # kvs) =
     (if v = JUndef then pretty_members d kvs
      else (indent d @ quote k @ [58, 32] @ pretty d v) # pretty_members d kvs)"

definition stringify_indent :: "jsval \<Rightarrow> jsstr" where
  "stringify_indent v = pretty 0 v"

section \<open>Space between tokens\<close>

lemma skip_ws_replicate [simp]: "skip_ws (replicate n 32 @ s) = skip_ws s"
  by (induction n) (simp_all add: skip_ws_def is_json_ws_def)

lemma skip_ws_indent [simp]: "skip_ws (indent d @ s) = skip_ws s"
  by (simp add: indent_def skip_ws_def is_json_ws_def) (simp add: skip_ws_def [symmetric])

lemma skip_ws_space: "skip_ws (32 # s) = skip_ws s"
  by (simp add: skip_ws_def is_json_ws_def)

lemma parse_value_ws: "skip_ws s = skip_ws t \<Longrightarrow> parse_value f s = parse_value f t"
  by (cases f) (simp_all add: parse_simps)

lemma parse_elems_ws: "skip_ws s = skip_ws t \<Longrightarrow> parse_elems f s = parse_elems f t"
  using parse_value_ws [of s t] by (cases f) (simp_all add: parse_simps)

lemma parse_members_ws: "skip_ws s = skip_ws t \<Longrightarrow> parse_members f s = parse_members f t"
  by (cases f) (simp_all add: parse_simps)

lemma num_stop_simps [simp]: "num_stop []" "num_stop (44 # r)" "num_stop (93 # r)" "num_stop (125 # r)" "num_stop (indent d @ r)"
  by (simp_all add: num_stop_def indent_def is_digit_def)

lemma parse_members_step:
  assumes "parse_value f (sv @ w @ e # r) = Some (v, w @ e # r)" "e = 125 \<or> e = 44" "w = [] \<or> w = indent d"
  shows "parse_members (Suc f) (quote k @ 58 # 32 # sv @ w @ e # r) =
    (if e = 125 then Some ([(k, v)], r)
     else map_option (\<lambda>(kvs, r'). ((k, v) # kvs, r')) (parse_members f r))"
proof -
  have "skip_ws (34 # s) = 34 # s" "skip_ws (58 # s) = 58 # s" "skip_ws (e # s) = e # s" for s
    using assms(2) by (auto simp: skip_ws_def is_json_ws_def)
  moreover from this have "skip_ws (w @ e # r) = e # r" using assms(3) by auto
  moreover have "parse_value f (32 # sv @ w @ e # r) = Some (v, w @ e # r)"
    using assms(1) parse_value_ws [OF skip_ws_space] by simp
  ultimately show ?thesis
    using assms(2) parse_chars_quote_chars [of k "58 # 32 # sv @ w @ e # r"] by (auto simp: quote_def)
qed

lemma length_indent [simp]: "length (indent d) = Suc (2 * d)"
  by (simp add: indent_def)

lemma pretty_hd:
  assumes "json_wf v"
  shows "pretty d v \<noteq> [] \<and> \<not> is_json_ws (hd (pretty d v)) \<and> hd (pretty d v) \<noteq> 93"
proof (cases v)
  case (JNum q)
  then show ?thesis using num_text_hd [of q] assms by (auto simp: is_digit_def is_json_ws_def)
qed (auto simp: is_json_ws_def quote_def js_eval Let_def)

lemma pretty_elems_Nil [simp]: "pretty_elems d xs = [] \<longleftrightarrow> xs = []"
  by (cases xs) auto

lemma pretty_members_Nil: "\<forall>kv \<in> set kvs. json_wf (snd kv) \<Longrightarrow> pretty_members d kvs = [] \<longleftrightarrow> kvs = []"
  by (cases kvs) (auto dest: json_wf_not_undef)

lemma skip_ws_join: "skip_ws (join [44] ((indent d @ s) # ss) @ r) = skip_ws (s @ (if ss = [] then [] else 44 # join [44] ss) @ r)"
  by (cases ss) simp_all

section \<open>The round trip\<close>

lemma parse_pretty:
  "json_wf v \<Longrightarrow> num_stop r \<Longrightarrow> 2 * length (pretty d v) + 1 \<le> f \<Longrightarrow>
     parse_value f (pretty d v @ r) = Some (v, r)"
  "xs \<noteq> [] \<Longrightarrow> \<forall>x \<in> set xs. json_wf x \<Longrightarrow> 2 * length (join [44] (pretty_elems d xs)) + 2 \<le> f \<Longrightarrow>
     parse_elems f (join [44] (pretty_elems d xs) @ indent c @ 93 # r) = Some (xs, r)"
  "kvs \<noteq> [] \<Longrightarrow> \<forall>kv \<in> set kvs. json_wf (snd kv) \<Longrightarrow> 2 * length (join [44] (pretty_members d kvs)) + 2 \<le> f \<Longrightarrow>
     parse_members f (join [44] (pretty_members d kvs) @ indent c @ 125 # r) = Some (kvs, r)"
proof (induction d v and d xs and d kvs arbitrary: f r and f r c and f r c rule: pretty_pretty_elems_pretty_members.induct)
  case (2 d)
  then show ?case by (cases f) (auto simp: skip_ws_def is_json_ws_def js_eval)
next
  case (3 d b)
  then show ?case by (cases f) (auto simp: skip_ws_def is_json_ws_def js_eval)
next
  case (4 d q)
  then show ?case using parse_value_num [of q r] by (cases f) (auto simp del: parse_simps)
next
  case (5 d s)
  then obtain g where "f = Suc g" by (cases f) auto
  with parse_chars_quote_chars [of s r] show ?case
    by (simp add: quote_def skip_ws_def is_json_ws_def)
next
  case (6 d xs)
  then obtain g where g: "f = Suc g" by (cases f) auto
  show ?case
  proof (cases xs)
    case Nil
    with g show ?thesis by (simp add: skip_ws_def is_json_ws_def)
  next
    case (Cons x xs')
    then have x: "json_wf x" using "6.prems" by simp
    let ?s = "join [44] (pretty_elems (Suc d) xs) @ indent d @ 93 # r"
    have "hd (skip_ws ?s) = hd (pretty (Suc d) x)" "skip_ws ?s \<noteq> []"
      using pretty_hd [OF x, of "Suc d"] Cons by (simp_all add: skip_ws_join skip_ws_id)
    then obtain e t where dt: "skip_ws ?s = e # t" "e \<noteq> 93" using pretty_hd [OF x] by (cases "skip_ws ?s") auto
    have "parse_elems g ?s = Some (xs, r)"
      using "6.IH" "6.prems" g Cons by simp
    then show ?thesis
      using g dt Cons by (simp add: skip_ws_id is_json_ws_def)
  qed
next
  case (7 d kvs)
  then obtain g where g: "f = Suc g" by (cases f) auto
  have wf: "\<forall>kv \<in> set kvs. json_wf (snd kv)" "obj_of kvs = kvs" using "7.prems" by auto
  show ?case
  proof (cases kvs)
    case Nil
    with g show ?thesis by (simp add: skip_ws_def is_json_ws_def)
  next
    case (Cons kv kvs')
    obtain k v where kv: "kv = (k, v)" by force
    then have v: "v \<noteq> JUndef" using wf Cons json_wf_not_undef [of v] by auto
    have ne: "pretty_members (Suc d) kvs \<noteq> []" using wf Cons by (simp add: pretty_members_Nil)
    let ?s = "join [44] (pretty_members (Suc d) kvs) @ indent d @ 125 # r"
    have q: "skip_ws ?s = 34 # tl (skip_ws ?s)"
      using Cons kv v by (simp add: skip_ws_join quote_def skip_ws_id is_json_ws_def)
    have "parse_members g ?s = Some (kvs, r)"
      using "7.IH" "7.prems" g Cons ne by (simp add: Let_def)
    with q show ?thesis
      using g ne wf(2) by (cases "skip_ws ?s") (auto simp add: Let_def skip_ws_id is_json_ws_def)
  qed
next
  case (9 d v vs)
  then obtain g where g: "f = Suc g" by (cases f) auto
  show ?case
  proof (cases "vs = []")
    case True
    have "parse_value g (pretty d v @ indent c @ 93 # r) = Some (v, indent c @ 93 # r)"
      using "9.IH"(1) [of "indent c @ 93 # r" g] "9.prems" g True by simp
    then have "parse_elems f (pretty d v @ indent c @ 93 # r) = Some ([v], r)"
      using g by (simp add: skip_ws_id is_json_ws_def)
    then show ?thesis using True parse_elems_ws [OF skip_ws_indent] by simp
  next
    case False
    let ?r = "join [44] (pretty_elems d vs) @ indent c @ 93 # r"
    have j: "join [44] (pretty_elems d (v # vs)) = indent d @ pretty d v @ 44 # join [44] (pretty_elems d vs)"
      using False by (simp add: join_Cons)
    have "parse_value g (pretty d v @ 44 # ?r) = Some (v, 44 # ?r)"
      using "9.IH"(1) "9.prems" g j by simp
    moreover have "parse_elems g ?r = Some (vs, r)"
      using "9.IH"(2) "9.prems" g j False by simp
    ultimately have "parse_elems f (pretty d v @ 44 # ?r) = Some (v # vs, r)"
      using g by (simp add: skip_ws_id is_json_ws_def)
    then show ?thesis using j parse_elems_ws [OF skip_ws_indent] by simp
  qed
next
  case (11 d k v kvs)
  then obtain g where g: "f = Suc g" by (cases f) auto
  have v: "json_wf v" "v \<noteq> JUndef" using "11.prems" by auto
  show ?case
  proof (cases "kvs = []")
    case True
    have "parse_value g (pretty d v @ indent c @ 125 # r) = Some (v, indent c @ 125 # r)"
      using "11.IH"(2) "11.prems" g True v by (simp add: quote_def)
    from parse_members_step [OF this, of c k] show ?thesis
      using g True v parse_members_ws [OF skip_ws_indent] by simp
  next
    case False
    let ?r = "join [44] (pretty_members d kvs) @ indent c @ 125 # r"
    have ne: "pretty_members d kvs \<noteq> []" using False pretty_members_Nil [of kvs] "11.prems" by simp
    then have j: "join [44] (pretty_members d ((k, v) # kvs)) =
        indent d @ quote k @ 58 # 32 # pretty d v @ 44 # join [44] (pretty_members d kvs)"
      using v by (simp add: join_Cons)
    have "parse_value g (pretty d v @ 44 # ?r) = Some (v, 44 # ?r)"
      using "11.IH"(2) "11.prems" g j v by simp
    moreover have "parse_members g ?r = Some (kvs, r)"
      using "11.IH"(3) "11.prems" g j False v by simp
    ultimately have "parse_members f (quote k @ 58 # 32 # pretty d v @ 44 # ?r) = Some ((k, v) # kvs, r)"
      using parse_members_step [of g "pretty d v" "[]" 44 ?r v 0 k] g by simp
    then show ?thesis using j parse_members_ws [OF skip_ws_indent] by simp
  qed
qed auto

lemma json_indent_roundtrip: "json_wf v \<Longrightarrow> json_parse (stringify_indent v) = Some v"
  using parse_pretty(1) [of v "[]" 0 "2 * length (stringify_indent v) + 1"]
  by (simp add: json_parse_def stringify_indent_def skip_ws_def del: parse_simps)

interpretation json_indent: json_codec stringify_indent json_parse json_wf
  by unfold_locales (use json_indent_roundtrip pretty_hd in \<open>auto simp: stringify_indent_def\<close>)

end
