(* ===== verification/AdvancedCustom.thy ===== *)
theory AdvancedCustom
  imports Schema JsonPretty
begin

text \<open>
  Advanced custom channels (\<open>features/channels/lib/advanced-custom.ts\<close>): the routes of a custom
  upstream, their normalisation, validation, summary and text form.

  A configuration is JSON that a person may have typed, so routes and their fields are arbitrary
  values; \<^term>\<open>None\<close> is the TypeError raised by a method call on a value that is not a string or by
  a property of \<open>null\<close>. The URL parser of the browser is a parameter: \<open>url\<close> gives the protocol and
  the host of an absolute URL, or \<^term>\<open>None\<close> when it throws.
\<close>

section \<open>Tables\<close>

definition CHANNEL_TYPE_ADVANCED_CUSTOM :: nat where "CHANNEL_TYPE_ADVANCED_CUSTOM = 58"

abbreviation conv_none :: jsstr where "conv_none \<equiv> js ''none''"
abbreviation conv_claude_chat :: jsstr where "conv_claude_chat \<equiv> js ''anthropic_messages_to_openai_chat_completions''"
abbreviation conv_chat_claude :: jsstr where "conv_chat_claude \<equiv> js ''openai_chat_completions_to_anthropic_messages''"
abbreviation conv_chat_responses :: jsstr where "conv_chat_responses \<equiv> js ''openai_chat_completions_to_openai_responses''"
abbreviation conv_responses_chat :: jsstr where "conv_responses_chat \<equiv> js ''openai_responses_to_openai_chat_completions''"
abbreviation conv_gemini_chat :: jsstr where "conv_gemini_chat \<equiv> js ''gemini_generate_content_to_openai_chat_completions''"
abbreviation conv_chat_gemini :: jsstr where "conv_chat_gemini \<equiv> js ''openai_chat_completions_to_gemini_generate_content''"

definition ADVANCED_CUSTOM_CONVERTER_OPTIONS :: "(jsstr \<times> jsstr) list" where
  "ADVANCED_CUSTOM_CONVERTER_OPTIONS =
     [(conv_none, js ''Native forwarding''),
      (conv_claude_chat, js ''Anthropic Messages to OpenAI Chat''),
      (conv_chat_claude, js ''OpenAI Chat to Anthropic Messages''),
      (conv_chat_responses, js ''OpenAI Chat to OpenAI Responses''),
      (conv_responses_chat, js ''OpenAI Responses to OpenAI Chat''),
      (conv_gemini_chat, js ''Gemini Generate Content to OpenAI Chat''),
      (conv_chat_gemini, js ''OpenAI Chat to Gemini Generate Content'')]"

definition ADVANCED_CUSTOM_AUTH_MODE_OPTIONS :: "(jsstr \<times> jsstr) list" where
  "ADVANCED_CUSTOM_AUTH_MODE_OPTIONS =
     [(js ''default'', js ''Default Bearer''), (js ''none'', js ''No Auth''),
      (js ''header'', js ''Header''), (js ''query'', js ''Query'')]"

definition ADVANCED_CUSTOM_INCOMING_PATH_OPTIONS :: "(jsstr \<times> jsstr) list" where
  "ADVANCED_CUSTOM_INCOMING_PATH_OPTIONS =
     [(js ''/v1/chat/completions'', js ''OpenAI Chat''),
      (js ''/v1/responses'', js ''OpenAI Responses''),
      (js ''/v1/responses/compact'', js ''OpenAI Responses Compact''),
      (js ''/v1/embeddings'', js ''OpenAI Embeddings''),
      (js ''/v1/images/generations'', js ''OpenAI Image Generations''),
      (js ''/v1/images/edits'', js ''OpenAI Image Edits''),
      (js ''/v1/completions'', js ''OpenAI Completions''),
      (js ''/v1/audio/speech'', js ''OpenAI Audio Speech''),
      (js ''/v1/audio/transcriptions'', js ''OpenAI Audio Transcriptions''),
      (js ''/v1/audio/translations'', js ''OpenAI Audio Translations''),
      (js ''/v1/rerank'', js ''OpenAI Rerank''),
      (js ''/v1/realtime'', js ''OpenAI Realtime''),
      (js ''/v1/messages'', js ''Claude Messages''),
      (js ''/v1beta/models/{model}:generateContent'', js ''Gemini Generate Content''),
      (js ''/v1beta/models/{model}:embedContent'', js ''Gemini Embed Content''),
      (js ''/v1beta/models/{model}:batchEmbedContents'', js ''Gemini Batch Embed Contents'')]"

definition ADVANCED_CUSTOM_ROUTE_SUMMARY_LABELS :: "(jsstr \<times> jsstr) list" where
  "ADVANCED_CUSTOM_ROUTE_SUMMARY_LABELS = [(js ''/v1/chat/completions'', js ''OpenAI Chat'')]"

section \<open>Routes\<close>

definition auth_json :: "jsval \<Rightarrow> jsval \<Rightarrow> jsval \<Rightarrow> jsval" where
  "auth_json t n v = JObj [(js ''type'', t), (js ''name'', n), (js ''value'', v)]"

definition bearerHeaderAuth :: jsval where
  "bearerHeaderAuth = auth_json (JStr (js ''header'')) (JStr (js ''Authorization'')) (JStr (js ''Bearer {api_key}''))"

definition apiKeyHeaderAuth :: jsval where
  "apiKeyHeaderAuth = auth_json (JStr (js ''header'')) (JStr (js ''x-api-key'')) (JStr (js ''{api_key}''))"

definition geminiQueryAuth :: jsval where
  "geminiQueryAuth = auth_json (JStr (js ''query'')) (JStr (js ''key'')) (JStr (js ''{api_key}''))"

definition route_json :: "jsval \<Rightarrow> jsval \<Rightarrow> jsval \<Rightarrow> jsval option \<Rightarrow> jsval" where
  "route_json incoming upstream conv auth =
     JObj ([(js ''incoming_path'', incoming), (js ''upstream_path'', upstream), (js ''converter'', conv)]
       @ (case auth of Some a \<Rightarrow> [(js ''auth'', a)] | None \<Rightarrow> []))"

definition config_json :: "jsval list \<Rightarrow> jsval" where
  "config_json routes = JObj [(js ''advanced_routes'', JArr routes)]"

definition native_route :: "char list \<Rightarrow> jsval \<Rightarrow> jsval" where
  "native_route path auth = route_json (JStr (js path)) (JStr (js path)) (JStr conv_none) (Some auth)"

definition ADVANCED_CUSTOM_TEMPLATE_OPTIONS :: "(jsstr \<times> jsstr \<times> jsval) list" where
  "ADVANCED_CUSTOM_TEMPLATE_OPTIONS =
     [(js ''official_openai_chat'', js ''Official OpenAI Chat'',
       config_json [native_route ''/v1/chat/completions'' bearerHeaderAuth]),
      (js ''official_openai_responses'', js ''Official OpenAI Responses'',
       config_json [native_route ''/v1/responses'' bearerHeaderAuth]),
      (js ''official_openai_embeddings'', js ''Official OpenAI Embeddings'',
       config_json [native_route ''/v1/embeddings'' bearerHeaderAuth]),
      (js ''official_openai_images'', js ''Official OpenAI Images'',
       config_json [native_route ''/v1/images/generations'' bearerHeaderAuth,
                    native_route ''/v1/images/edits'' bearerHeaderAuth]),
      (js ''official_claude_messages'', js ''Official Claude Messages'',
       config_json [native_route ''/v1/messages'' apiKeyHeaderAuth]),
      (js ''official_gemini_native'', js ''Official Gemini Native'',
       config_json [native_route ''/v1beta/models/{model}:generateContent'' geminiQueryAuth,
                    native_route ''/v1beta/models/{model}:embedContent'' geminiQueryAuth,
                    native_route ''/v1beta/models/{model}:batchEmbedContents'' geminiQueryAuth]),
      (js ''official_gemini_from_openai_chat'', js ''Official Gemini from OpenAI Chat'',
       config_json [route_json (JStr (js ''/v1/chat/completions''))
         (JStr (js ''/v1beta/models/{model}:generateContent'')) (JStr conv_chat_gemini) (Some geminiQueryAuth)])]"

text \<open>\<open>JSON.parse(JSON.stringify(config))\<close>\<close>

definition cloneAdvancedCustomConfig :: "jsval \<Rightarrow> jsval option" where
  "cloneAdvancedCustomConfig config = json_parse (stringify config)"

definition getAdvancedCustomTemplateConfig :: "jsstr \<Rightarrow> jsval option" where
  "getAdvancedCustomTemplateConfig templateKey =
     (let template = (case List.find (\<lambda>x. fst x = templateKey) ADVANCED_CUSTOM_TEMPLATE_OPTIONS of
            Some t \<Rightarrow> t | None \<Rightarrow> hd ADVANCED_CUSTOM_TEMPLATE_OPTIONS)
      in cloneAdvancedCustomConfig (snd (snd template)))"

definition createAdvancedCustomRoute :: jsval where
  "createAdvancedCustomRoute =
     route_json (JStr (js ''/v1/chat/completions'')) (JStr (js ''/v1/chat/completions'')) (JStr conv_none) None"

definition createAdvancedCustomConfig :: jsval where
  "createAdvancedCustomConfig = config_json [createAdvancedCustomRoute]"

section \<open>Converters and paths\<close>

definition getAdvancedCustomUpstreamPathPlaceholder :: "jsstr \<Rightarrow> jsstr" where
  "getAdvancedCustomUpstreamPathPlaceholder conv =
     (if conv = conv_chat_gemini then js ''/v1beta/models/{model}:generateContent''
      else if conv = conv_chat_claude then js ''/v1/messages''
      else if conv = conv_responses_chat then js ''/v1/chat/completions''
      else js ''/v1/chat/completions'')"

definition isConverterPathAllowed :: "jsstr \<Rightarrow> jsstr \<Rightarrow> bool" where
  "isConverterPathAllowed incomingPath conv =
     (if conv = conv_none then True
      else if conv = conv_claude_chat then incomingPath = js ''/v1/messages''
      else if conv = conv_chat_claude \<or> conv = conv_chat_responses \<or> conv = conv_chat_gemini
      then incomingPath = js ''/v1/chat/completions''
      else if conv = conv_responses_chat then incomingPath = js ''/v1/responses''
      else includesStr incomingPath (js '':generateContent'') \<or> includesStr incomingPath (js '':streamGenerateContent''))"

definition getAdvancedCustomIncomingPathOptions :: "jsstr \<Rightarrow> (jsstr \<times> jsstr) list" where
  "getAdvancedCustomIncomingPathOptions conv =
     filter (\<lambda>x. isConverterPathAllowed (fst x) conv) ADVANCED_CUSTOM_INCOMING_PATH_OPTIONS"

definition getDefaultAdvancedCustomIncomingPath :: "jsstr \<Rightarrow> jsstr" where
  "getDefaultAdvancedCustomIncomingPath conv =
     (case getAdvancedCustomIncomingPathOptions conv of
        x # _ \<Rightarrow> (if fst x \<noteq> [] then fst x else js ''/v1/chat/completions'')
      | [] \<Rightarrow> js ''/v1/chat/completions'')"

definition isAdvancedCustomIncomingPathAllowed :: "jsstr \<Rightarrow> jsstr \<Rightarrow> bool" where
  "isAdvancedCustomIncomingPathAllowed incomingPath conv = isConverterPathAllowed incomingPath conv"

definition getAdvancedCustomConverterOptions :: "jsstr \<Rightarrow> (jsstr \<times> jsstr) list" where
  "getAdvancedCustomConverterOptions incomingPath =
     (let normalizedIncomingPath = trim incomingPath
      in filter (\<lambda>x. fst x = conv_none \<or> isConverterPathAllowed normalizedIncomingPath (fst x))
           ADVANCED_CUSTOM_CONVERTER_OPTIONS)"

definition getAdvancedCustomIncomingPathLabel :: "jsstr \<Rightarrow> jsstr" where
  "getAdvancedCustomIncomingPathLabel v =
     (case map_of ADVANCED_CUSTOM_INCOMING_PATH_OPTIONS v of
        Some l \<Rightarrow> (if l \<noteq> [] then l else v)
      | None \<Rightarrow> v)"

definition isAdvancedCustomConverter :: "jsval \<Rightarrow> bool" where
  "isAdvancedCustomConverter v = list_ex (\<lambda>x. JStr (fst x) = v) ADVANCED_CUSTOM_CONVERTER_OPTIONS"

section \<open>Normalisation\<close>

definition trim_val :: "jsval \<Rightarrow> jsstr option" where
  "trim_val v = (case v of JStr s \<Rightarrow> Some (trim s) | _ \<Rightarrow> None)"

definition getAdvancedCustomRouteUpstreamPath :: "jsval \<Rightarrow> jsstr option" where
  "getAdvancedCustomRouteUpstreamPath route =
     do { v \<leftarrow> get_prop route (js ''upstream_path''); trim_val (or_val v (JStr [])) }"

definition normalizeAdvancedCustomRoute :: "jsval \<Rightarrow> jsval option" where
  "normalizeAdvancedCustomRoute route =
     do { incoming \<leftarrow> get_prop route (js ''incoming_path'');
          upstream \<leftarrow> getAdvancedCustomRouteUpstreamPath route;
          conv \<leftarrow> get_prop route (js ''converter'');
          auth \<leftarrow> get_prop route (js ''auth'');
          Some (route_json (or_val incoming (JStr [])) (JStr upstream) (or_val conv (JStr conv_none))
            (if truthy auth
             then Some (auth_json (opt_prop auth (js ''type'')) (or_val (opt_prop auth (js ''name'')) (JStr []))
                    (or_val (opt_prop auth (js ''value'')) (JStr [])))
             else None)) }"

definition normalizeAdvancedCustomConfig :: "jsval \<Rightarrow> jsval option" where
  "normalizeAdvancedCustomConfig config =
     do { routes \<leftarrow> get_prop config (js ''advanced_routes'');
          rs \<leftarrow> (case routes of JArr xs \<Rightarrow> traverse normalizeAdvancedCustomRoute xs | _ \<Rightarrow> Some []);
          Some (config_json rs) }"

text \<open>\<^term>\<open>JNull\<close> is the result \<open>null\<close>; errors are caught.\<close>

definition parseAdvancedCustomConfig :: "jsstr option \<Rightarrow> jsval" where
  "parseAdvancedCustomConfig v =
     (case v of
        None \<Rightarrow> JNull
      | Some s \<Rightarrow>
          (if trim s = [] then JNull
           else case json_parse s of
                  Some (JObj kvs) \<Rightarrow>
                    (case normalizeAdvancedCustomConfig (JObj kvs) of Some c \<Rightarrow> c | None \<Rightarrow> JNull)
                | _ \<Rightarrow> JNull))"

definition stringifyAdvancedCustomConfig :: "jsval \<Rightarrow> jsstr option" where
  "stringifyAdvancedCustomConfig config = map_option stringify_indent (normalizeAdvancedCustomConfig config)"

section \<open>Validation\<close>

record AdvancedCustomValidationError =
  err_message :: jsstr
  err_routeIndex :: "nat option"

type_synonym url_parser = "jsstr \<Rightarrow> (jsstr \<times> jsstr) option"

definition isFullHttpURLOrAbsolutePath :: "url_parser \<Rightarrow> jsstr \<Rightarrow> bool" where
  "isFullHttpURLOrAbsolutePath url v =
     (if startsWith v (js ''/'') then \<not> startsWith v (js ''//'')
      else case url v of
             Some (protocol, host) \<Rightarrow> host \<noteq> [] \<and> (protocol = js ''http:'' \<or> protocol = js ''https:'')
           | None \<Rightarrow> False)"

text \<open>The message of the check, \<^term>\<open>Some None\<close> when there is nothing to report.\<close>

definition validateRouteAuth :: "jsval \<Rightarrow> jsstr option option" where
  "validateRouteAuth auth =
     (if \<not> truthy auth then Some None
      else if opt_prop auth (js ''type'') = JStr (js ''none'') then Some None
      else if opt_prop auth (js ''type'') \<noteq> JStr (js ''header'') \<and> opt_prop auth (js ''type'') \<noteq> JStr (js ''query'')
      then Some (Some (js ''Auth type is invalid''))
      else let n = opt_prop auth (js ''name''); v = opt_prop auth (js ''value'') in
           do { tn \<leftarrow> (if nullish n then Some [] else trim_val n);
                if tn = [] then Some (Some (js ''Auth name is required''))
                else do { tv \<leftarrow> (if nullish v then Some [] else trim_val v);
                          Some (if tv = [] then Some (js ''Auth value is required'') else None) } })"

text \<open>\<open>route.incoming_path?.trim() || ''\<close>\<close>

definition route_path :: "jsval \<Rightarrow> jsstr option" where
  "route_path route =
     (let v = opt_prop route (js ''incoming_path'') in if nullish v then Some [] else trim_val v)"

text \<open>The checks of one route, with the paths seen before it.\<close>

definition check_route :: "url_parser \<Rightarrow> jsstr list \<Rightarrow> jsval \<Rightarrow> jsstr option option" where
  "check_route url seen route =
     do { incomingPath \<leftarrow> route_path route;
          upstreamPath \<leftarrow> getAdvancedCustomRouteUpstreamPath route;
          let conv = or_val (opt_prop route (js ''converter'')) (JStr conv_none) in
          if incomingPath = [] then Some (Some (js ''Incoming path is required''))
          else if \<not> startsWith incomingPath (js ''/'') then Some (Some (js ''Incoming path must start with /''))
          else if includesStr incomingPath (js ''?'') then Some (Some (js ''Incoming path must not include query''))
          else if incomingPath \<in> set seen then Some (Some (js ''Incoming path must be unique''))
          else if upstreamPath = [] then Some (Some (js ''Upstream path is required''))
          else if \<not> isFullHttpURLOrAbsolutePath url upstreamPath
          then Some (Some (js ''Upstream path must be a full URL or a path starting with /''))
          else if \<not> isAdvancedCustomConverter conv then Some (Some (js ''Converter is not registered''))
          else if \<not> (case conv of JStr c \<Rightarrow> isConverterPathAllowed incomingPath c | _ \<Rightarrow> False)
          then Some (Some (js ''Converter does not match incoming path''))
          else validateRouteAuth (opt_prop route (js ''auth'')) }"

fun check_routes :: "url_parser \<Rightarrow> nat \<Rightarrow> jsstr list \<Rightarrow> jsval list \<Rightarrow> AdvancedCustomValidationError option option" where
  "check_routes url i seen [] = Some None"
| "check_routes url i seen (route # rs) =
     (case check_route url seen route of
        None \<Rightarrow> None
      | Some (Some msg) \<Rightarrow> Some (Some \<lparr>err_message = msg, err_routeIndex = Some i\<rparr>)
      | Some None \<Rightarrow> check_routes url (Suc i) (case route_path route of Some p \<Rightarrow> p # seen | None \<Rightarrow> seen) rs)"

definition config_routes :: "jsval \<Rightarrow> jsval list" where
  "config_routes c = (case opt_prop c (js ''advanced_routes'') of JArr rs \<Rightarrow> rs | _ \<Rightarrow> [])"

definition validateAdvancedCustomConfig ::
    "url_parser \<Rightarrow> jsval \<Rightarrow> AdvancedCustomValidationError option option" where
  "validateAdvancedCustomConfig url config =
     (if \<not> truthy config
      then Some (Some \<lparr>err_message = js ''Advanced custom configuration is required'', err_routeIndex = None\<rparr>)
      else do { c \<leftarrow> normalizeAdvancedCustomConfig config;
                let routes = config_routes c in
                if length routes = 0
                then Some (Some \<lparr>err_message = js ''Advanced custom configuration requires at least one route'',
                                 err_routeIndex = None\<rparr>)
                else check_routes url 0 [] routes })"

section \<open>Summary and editing\<close>

definition advancedCustomConfigUsesRelativeUpstreamPath :: "jsval \<Rightarrow> bool option" where
  "advancedCustomConfigUsesRelativeUpstreamPath config =
     (if \<not> truthy config then Some False
      else do { c \<leftarrow> normalizeAdvancedCustomConfig config;
                ps \<leftarrow> traverse getAdvancedCustomRouteUpstreamPath (config_routes c);
                Some (list_ex (\<lambda>p. startsWith p (js ''/'')) ps) })"

definition getAdvancedCustomRouteSummaryLabel :: "jsval \<Rightarrow> jsstr option option" where
  "getAdvancedCustomRouteSummaryLabel route =
     do { incomingPath \<leftarrow> route_path route;
          Some (if incomingPath = [] then None
                else Some (case map_of ADVANCED_CUSTOM_ROUTE_SUMMARY_LABELS incomingPath of
                       Some l \<Rightarrow> (if l \<noteq> [] then l else getAdvancedCustomIncomingPathLabel incomingPath)
                     | None \<Rightarrow> getAdvancedCustomIncomingPathLabel incomingPath)) }"

record AdvancedCustomStats =
  routeCount :: nat
  stats_valid :: bool
  routeTypeLabels :: "jsstr list"

definition getAdvancedCustomStats :: "url_parser \<Rightarrow> jsstr option \<Rightarrow> AdvancedCustomStats option" where
  "getAdvancedCustomStats url v =
     (let config = parseAdvancedCustomConfig v in
      if \<not> truthy config then Some \<lparr>routeCount = 0, stats_valid = False, routeTypeLabels = []\<rparr>
      else do { c \<leftarrow> normalizeAdvancedCustomConfig config;
                labels \<leftarrow> traverse getAdvancedCustomRouteSummaryLabel (config_routes c);
                err \<leftarrow> validateAdvancedCustomConfig url c;
                Some \<lparr>routeCount = length (config_routes c), stats_valid = (err = None),
                      routeTypeLabels = uniq (filter (\<lambda>l. l \<noteq> []) (List.map_filter id labels))\<rparr> })"

definition getAdvancedCustomAuthMode :: "jsval \<Rightarrow> jsval" where
  "getAdvancedCustomAuthMode route =
     or_val (opt_prop (opt_prop route (js ''auth'')) (js ''type'')) (JStr (js ''default''))"

definition buildAdvancedCustomAuth :: "jsstr \<Rightarrow> jsval \<Rightarrow> jsval" where
  "buildAdvancedCustomAuth mode previousAuth =
     (if mode = js ''default'' then JUndef
      else if mode = js ''none'' then JObj [(js ''type'', JStr (js ''none''))]
      else if mode = js ''header''
      then auth_json (JStr (js ''header''))
             (or_val (opt_prop previousAuth (js ''name'')) (JStr (js ''Authorization'')))
             (or_val (opt_prop previousAuth (js ''value'')) (JStr (js ''Bearer {api_key}'')))
      else auth_json (JStr (js ''query''))
             (or_val (opt_prop previousAuth (js ''name'')) (JStr (js ''api_key'')))
             (or_val (opt_prop previousAuth (js ''value'')) (JStr (js ''{api_key}''))))"

section \<open>Normalised configurations\<close>

lemma route_json_props [simp]:
  "opt_prop (route_json i u c a) (js ''incoming_path'') = i"
  "opt_prop (route_json i u c a) (js ''upstream_path'') = u"
  "opt_prop (route_json i u c a) (js ''converter'') = c"
  "opt_prop (route_json i u c a) (js ''auth'') = (case a of Some x \<Rightarrow> x | None \<Rightarrow> JUndef)"
  by (simp_all add: route_json_def split: option.split)

lemma get_prop_route_json [simp]: "get_prop (route_json i u c a) k = Some (opt_prop (route_json i u c a) k)"
  by (simp add: route_json_def get_prop_def)

lemma auth_json_props [simp]:
  "opt_prop (auth_json t n v) (js ''type'') = t"
  "opt_prop (auth_json t n v) (js ''name'') = n"
  "opt_prop (auth_json t n v) (js ''value'') = v"
  "truthy (auth_json t n v)"
  by (simp_all add: auth_json_def)

lemma config_json_props [simp]:
  "get_prop (config_json rs) (js ''advanced_routes'') = Some (JArr rs)"
  "config_routes (config_json rs) = rs" "truthy (config_json rs)"
  by (simp_all add: config_json_def get_prop_def config_routes_def)

lemma or_val_idem [simp]: "or_val (or_val a b) b = or_val a b"
  by (simp add: or_val_def)

definition normal_route :: "jsval \<Rightarrow> bool" where
  "normal_route r \<longleftrightarrow> normalizeAdvancedCustomRoute r = Some r"

lemma normalize_route_normal:
  assumes "normalizeAdvancedCustomRoute r = Some n"
  shows "normal_route n"
proof -
  obtain i u c a where n: "n = route_json (or_val i (JStr [])) (JStr u) (or_val c (JStr conv_none))
      (if truthy a then Some (auth_json (opt_prop a (js ''type'')) (or_val (opt_prop a (js ''name'')) (JStr []))
         (or_val (opt_prop a (js ''value'')) (JStr []))) else None)"
    and u: "getAdvancedCustomRouteUpstreamPath r = Some u"
    using assms by (auto simp: normalizeAdvancedCustomRoute_def split: bind_splits)
  from u have t: "trim u = u"
    by (auto simp: getAdvancedCustomRouteUpstreamPath_def trim_val_def split: bind_splits jsval.splits)
  have "getAdvancedCustomRouteUpstreamPath n = Some u"
    using t by (simp add: n getAdvancedCustomRouteUpstreamPath_def trim_val_def or_val_def)
  then show ?thesis by (simp add: normal_route_def normalizeAdvancedCustomRoute_def n)
qed

lemma traverse_same: "(\<And>x. x \<in> set xs \<Longrightarrow> f x = Some x) \<Longrightarrow> traverse f xs = Some xs"
  using traverse_map [of xs f id id] by simp

lemma normalize_config_cases:
  assumes "normalizeAdvancedCustomConfig config = Some c"
  obtains rs where "c = config_json rs" "list_all normal_route rs"
proof -
  obtain routes rs where c: "c = config_json rs"
    and rs: "(case routes of JArr xs \<Rightarrow> traverse normalizeAdvancedCustomRoute xs | _ \<Rightarrow> Some []) = Some rs"
    using assms by (auto simp: normalizeAdvancedCustomConfig_def split: bind_splits)
  have "list_all normal_route rs"
  proof (cases routes)
    case (JArr xs)
    with rs have "traverse normalizeAdvancedCustomRoute xs = Some rs" by simp
    from traverse_Some [OF this] show ?thesis
      by (auto simp: list_all2_conv_all_nth list_all_length intro: normalize_route_normal)
  qed (use rs in simp_all)
  with c show ?thesis by (rule that)
qed

lemma normalize_config_idem:
  assumes "normalizeAdvancedCustomConfig config = Some c"
  shows "normalizeAdvancedCustomConfig c = Some c"
proof -
  from assms obtain rs where "c = config_json rs" "list_all normal_route rs" by (rule normalize_config_cases)
  then show ?thesis
    by (auto simp: normalizeAdvancedCustomConfig_def list_all_iff normal_route_def traverse_same)
qed

section \<open>What validation accepts\<close>

definition auth_ok :: "jsval \<Rightarrow> bool" where
  "auth_ok a \<longleftrightarrow> \<not> truthy a \<or> opt_prop a (js ''type'') = JStr (js ''none'')
     \<or> opt_prop a (js ''type'') \<in> {JStr (js ''header''), JStr (js ''query'')}
       \<and> (\<exists>n v. opt_prop a (js ''name'') = JStr n \<and> opt_prop a (js ''value'') = JStr v \<and> trim n \<noteq> [] \<and> trim v \<noteq> [])"

text \<open>A route that may be served, as a requirement on its fields.\<close>

definition route_ok :: "url_parser \<Rightarrow> jsval \<Rightarrow> bool" where
  "route_ok url r \<longleftrightarrow>
     (\<exists>p u c. route_path r = Some p \<and> getAdvancedCustomRouteUpstreamPath r = Some u
       \<and> or_val (opt_prop r (js ''converter'')) (JStr conv_none) = JStr c
       \<and> startsWith p (js ''/'') \<and> \<not> includesStr p (js ''?'') \<and> isFullHttpURLOrAbsolutePath url u \<and> u \<noteq> []
       \<and> c \<in> fst ` set ADVANCED_CUSTOM_CONVERTER_OPTIONS \<and> isConverterPathAllowed p c
       \<and> auth_ok (opt_prop r (js ''auth'')))"

lemma trim_val_Some [simp]: "trim_val (JStr s) = Some (trim s)" "trim_val v = Some t \<longleftrightarrow> (\<exists>s. v = JStr s \<and> t = trim s)"
  by (simp add: trim_val_def) (cases v; auto simp: trim_val_def)

lemma validateRouteAuth_ok: "validateRouteAuth a = Some None \<longleftrightarrow> auth_ok a"
  by (auto simp: validateRouteAuth_def auth_ok_def Let_def nullish_def split: bind_splits if_splits)

lemma isAdvancedCustomConverter_iff:
  "isAdvancedCustomConverter v \<longleftrightarrow> (\<exists>c. v = JStr c \<and> c \<in> fst ` set ADVANCED_CUSTOM_CONVERTER_OPTIONS)"
  by (auto simp: isAdvancedCustomConverter_def list_ex_iff)

lemma startsWith_ne: "startsWith p (js (x # xs)) \<Longrightarrow> p \<noteq> []"
  by (auto simp: startsWith_def js_eval)

lemma check_route_ok:
  "check_route url seen r = Some None \<longleftrightarrow> route_ok url r \<and> (\<forall>p \<in> set seen. route_path r \<noteq> Some p)"
proof (cases "route_path r")
  case (Some p)
  show ?thesis
  proof (cases "getAdvancedCustomRouteUpstreamPath r")
    case u: (Some u)
    let ?c = "or_val (opt_prop r (js ''converter'')) (JStr conv_none)"
    show ?thesis
      using Some u startsWith_ne [of p]
      by (cases ?c) (auto simp: check_route_def route_ok_def validateRouteAuth_ok isAdvancedCustomConverter_iff Let_def)
  qed (simp add: check_route_def route_ok_def Some)
qed (simp add: check_route_def route_ok_def)

lemma check_routes_ok:
  "check_routes url i seen rs = Some None \<longleftrightarrow>
     list_all (route_ok url) rs \<and> distinct (map route_path rs) \<and> (\<forall>r \<in> set rs. \<forall>p \<in> set seen. route_path r \<noteq> Some p)"
proof (induction rs arbitrary: i seen)
  case (Cons r rs)
  show ?case
  proof (cases "check_route url seen r = Some None")
    case True
    then have r: "route_ok url r" "\<forall>p \<in> set seen. route_path r \<noteq> Some p" by (simp_all add: check_route_ok)
    then obtain p where p: "route_path r = Some p" by (auto simp: route_ok_def)
    show ?thesis using True Cons.IH [of "Suc i" "p # seen"] r p by (force simp: image_iff)
  next
    case False
    then have "check_routes url i seen (r # rs) \<noteq> Some None" by (auto split: option.splits)
    with False show ?thesis by (auto simp: check_route_ok)
  qed
qed simp

text \<open>The reported route is the first that fails.\<close>

lemma check_routes_first:
  assumes "check_routes url i seen rs = Some (Some e)"
  shows "\<exists>k < length rs. err_routeIndex e = Some (i + k) \<and> check_routes url i seen (take k rs) = Some None
    \<and> check_routes url i seen (take (Suc k) rs) = Some (Some e)"
  using assms
proof (induction rs arbitrary: i seen)
  case (Cons r rs)
  show ?case
  proof (cases "check_route url seen r")
    case (Some m)
    show ?thesis
    proof (cases m)
      case None
      with Some Cons.prems obtain k where "k < length rs" "err_routeIndex e = Some (Suc i + k)"
        "check_routes url (Suc i) (case route_path r of Some p \<Rightarrow> p # seen | None \<Rightarrow> seen) (take k rs) = Some None"
        "check_routes url (Suc i) (case route_path r of Some p \<Rightarrow> p # seen | None \<Rightarrow> seen) (take (Suc k) rs) = Some (Some e)"
        using Cons.IH [of "Suc i" "case route_path r of Some p \<Rightarrow> p # seen | None \<Rightarrow> seen"] by auto
      with Some None show ?thesis by (intro exI [of _ "Suc k"]) simp
    next
      case msg: (Some msg)
      with Some Cons.prems show ?thesis by (intro exI [of _ 0]) auto
    qed
  qed (use Cons.prems in simp)
qed simp

lemma config_json_inj [simp]: "config_json rs = config_json rs' \<longleftrightarrow> rs = rs'"
  by (simp add: config_json_def)

lemma validate_normalized:
  "normalizeAdvancedCustomConfig config = Some (config_json rs) \<Longrightarrow> truthy config \<Longrightarrow> rs \<noteq> [] \<Longrightarrow>
     validateAdvancedCustomConfig url config = check_routes url 0 [] rs"
  by (simp add: validateAdvancedCustomConfig_def)

lemma normalize_falsy:
  "normalizeAdvancedCustomConfig config = Some c \<Longrightarrow> \<not> truthy config \<Longrightarrow> c = config_json []"
  by (cases config) (auto simp: normalizeAdvancedCustomConfig_def get_prop_def)

lemma validate_ok:
  "validateAdvancedCustomConfig url config = Some None \<longleftrightarrow>
     (\<exists>rs. normalizeAdvancedCustomConfig config = Some (config_json rs) \<and> rs \<noteq> []
        \<and> list_all (route_ok url) rs \<and> distinct (map route_path rs))"
proof (cases "normalizeAdvancedCustomConfig config")
  case None
  then show ?thesis by (simp add: validateAdvancedCustomConfig_def)
next
  case (Some c)
  then obtain rs where c: "c = config_json rs" by (rule normalize_config_cases)
  show ?thesis
  proof (cases "truthy config \<and> rs \<noteq> []")
    case True
    with Some c validate_normalized [of config rs url] check_routes_ok [of url 0 "[]" rs] show ?thesis by auto
  next
    case False
    then have "validateAdvancedCustomConfig url config \<noteq> Some None" using Some c
      by (auto simp: validateAdvancedCustomConfig_def)
    with False Some c normalize_falsy [OF Some] show ?thesis by auto
  qed
qed

lemma validate_first:
  assumes "validateAdvancedCustomConfig url config = Some (Some e)" "err_routeIndex e = Some i"
    "normalizeAdvancedCustomConfig config = Some (config_json rs)"
  shows "i < length rs \<and> list_all (route_ok url) (take i rs) \<and> distinct (map route_path (take i rs))
    \<and> check_routes url 0 [] (take (Suc i) rs) = Some (Some e)"
proof -
  have "truthy config" using assms(1,2) by (auto simp: validateAdvancedCustomConfig_def split: if_splits)
  moreover from this have "rs \<noteq> []" using assms by (auto simp: validateAdvancedCustomConfig_def split: if_splits)
  ultimately have "check_routes url 0 [] rs = Some (Some e)"
    using validate_normalized [OF assms(3), of url] assms(1) by simp
  from check_routes_first [OF this] obtain k where "k < length rs" "err_routeIndex e = Some k"
    "check_routes url 0 [] (take k rs) = Some None" "check_routes url 0 [] (take (Suc k) rs) = Some (Some e)" by auto
  with assms(2) check_routes_ok [of url 0 "[]" "take k rs"] show ?thesis by simp
qed

section \<open>The templates\<close>

definition good_path :: "string \<Rightarrow> bool" where
  "good_path s \<longleftrightarrow> take 1 s = ''/'' \<and> take 2 s \<noteq> ''//'' \<and> CHR ''?'' \<notin> set s \<and> \<not> is_space (of_char (last s))"

lemma js_take: "take n (js s) = js (take n s)"
  by (simp add: js_def take_map)

lemma startsWith_js: "startsWith (js s) (js p) \<longleftrightarrow> prefix p s"
  by (metis js_def js_eq_iff map_mono_prefix prefix_map_rightE startsWith_def)

lemma js_mem: "of_char c \<in> set (js s) \<longleftrightarrow> c \<in> set s"
  by (auto simp: js_def)

lemma includes_js_char: "includesStr (js s) (js [c]) \<longleftrightarrow> c \<in> set s"
  unfolding js_mem [symmetric] by (auto simp: includesStr_iff_sublist sublist_def js_simps in_set_conv_decomp)

lemma trim_js_ne: "\<not> is_space (of_char c) \<Longrightarrow> trim (js (c # s)) \<noteq> []"
  by (auto simp: trim_empty_iff js_simps)

lemma good_path_facts:
  assumes "good_path s"
  shows "trim (js s) = js s" "js s \<noteq> []" "startsWith (js s) (js ''/'')" "\<not> startsWith (js s) (js ''//'')"
    "\<not> includesStr (js s) (js ''?'')"
proof -
  from assms obtain t where s: "s = CHR ''/'' # t" by (cases s) (auto simp: good_path_def)
  show "trim (js s) = js s"
    using assms s by (intro trim_id) (auto simp: good_path_def js_def last_map is_space_def is_line_term_def)
  show "js s \<noteq> []" by (simp add: s)
  show "startsWith (js s) (js ''/'')" by (simp add: s startsWith_def js_def)
  show "\<not> startsWith (js s) (js ''//'')"
    using assms s by (cases t) (auto simp: startsWith_js good_path_def)
  show "\<not> includesStr (js s) (js ''?'')"
    using assms by (simp add: includes_js_char good_path_def)
qed

lemma template_route:
  assumes "good_path i" "good_path u" "c \<in> fst ` set ADVANCED_CUSTOM_CONVERTER_OPTIONS"
    "isConverterPathAllowed (js i) c" "auth \<in> {bearerHeaderAuth, apiKeyHeaderAuth, geminiQueryAuth}"
  shows "normalizeAdvancedCustomRoute (route_json (JStr (js i)) (JStr (js u)) (JStr c) (Some auth))
      = Some (route_json (JStr (js i)) (JStr (js u)) (JStr c) (Some auth))"
    "route_ok url (route_json (JStr (js i)) (JStr (js u)) (JStr c) (Some auth))"
    "route_path (route_json (JStr (js i)) (JStr (js u)) (JStr c) (Some auth)) = Some (js i)"
proof -
  let ?r = "route_json (JStr (js i)) (JStr (js u)) (JStr c) (Some auth)"
  have c: "c \<noteq> []" using assms(3) by (auto simp: ADVANCED_CUSTOM_CONVERTER_OPTIONS_def)
  have a: "\<exists>t n v. auth = auth_json (JStr t) (JStr n) (JStr v) \<and> n \<noteq> [] \<and> v \<noteq> []"
    using assms(5) unfolding bearerHeaderAuth_def apiKeyHeaderAuth_def geminiQueryAuth_def
    by (elim insertE emptyE) (rule exI, rule exI, rule exI, rule conjI, assumption, simp)+
  have up: "getAdvancedCustomRouteUpstreamPath ?r = Some (js u)"
    using good_path_facts [OF assms(2)] by (auto simp: getAdvancedCustomRouteUpstreamPath_def or_val_def)
  show "normalizeAdvancedCustomRoute ?r = Some ?r"
    using a c up good_path_facts(2) [OF assms(1)] by (auto simp: normalizeAdvancedCustomRoute_def or_val_def)
  show p: "route_path ?r = Some (js i)"
    using good_path_facts [OF assms(1)] by (simp add: route_path_def Let_def nullish_def)
  have "isFullHttpURLOrAbsolutePath url (js u)"
    using good_path_facts [OF assms(2)] by (simp add: isFullHttpURLOrAbsolutePath_def)
  moreover have "auth_ok auth"
    using assms(5)
    by (auto simp: auth_ok_def bearerHeaderAuth_def apiKeyHeaderAuth_def geminiQueryAuth_def trim_js_ne
        is_space_def is_line_term_def)
  ultimately show "route_ok url ?r"
    using p up assms c good_path_facts [OF assms(1)] good_path_facts [OF assms(2)] by (auto simp: route_ok_def or_val_def)
qed

lemma good_paths:
  "good_path ''/v1/chat/completions''" "good_path ''/v1/responses''" "good_path ''/v1/embeddings''"
  "good_path ''/v1/images/generations''" "good_path ''/v1/images/edits''" "good_path ''/v1/messages''"
  "good_path ''/v1beta/models/{model}:generateContent''" "good_path ''/v1beta/models/{model}:embedContent''"
  "good_path ''/v1beta/models/{model}:batchEmbedContents''"
  by (simp_all add: good_path_def is_space_def is_line_term_def)

lemma native_route_facts:
  assumes "good_path p" "auth \<in> {bearerHeaderAuth, apiKeyHeaderAuth, geminiQueryAuth}"
  shows "normalizeAdvancedCustomRoute (native_route p auth) = Some (native_route p auth)"
    "route_ok url (native_route p auth)" "route_path (native_route p auth) = Some (js p)"
  unfolding native_route_def
  by (rule template_route [OF assms(1,1) _ _ assms(2)];
      simp add: ADVANCED_CUSTOM_CONVERTER_OPTIONS_def isConverterPathAllowed_def)+

lemma gemini_chat_route_facts:
  defines "r \<equiv> route_json (JStr (js ''/v1/chat/completions'')) (JStr (js ''/v1beta/models/{model}:generateContent''))
    (JStr conv_chat_gemini) (Some geminiQueryAuth)"
  shows "normalizeAdvancedCustomRoute r = Some r" "route_ok url r" "route_path r = Some (js ''/v1/chat/completions'')"
  unfolding r_def
  by (rule template_route [OF good_paths(1,7)]; simp add: ADVANCED_CUSTOM_CONVERTER_OPTIONS_def isConverterPathAllowed_def)+

lemma normalize_config_json:
  "(\<And>r. r \<in> set rs \<Longrightarrow> normalizeAdvancedCustomRoute r = Some r) \<Longrightarrow>
     normalizeAdvancedCustomConfig (config_json rs) = Some (config_json rs)"
  by (simp add: normalizeAdvancedCustomConfig_def traverse_same)

lemma templates_validate:
  assumes "(k, l, c) \<in> set ADVANCED_CUSTOM_TEMPLATE_OPTIONS"
  shows "normalizeAdvancedCustomConfig c = Some c" "validateAdvancedCustomConfig url c = Some None"
proof -
  note facts = native_route_facts [OF good_paths(1)] native_route_facts [OF good_paths(2)] native_route_facts [OF good_paths(3)]
    native_route_facts [OF good_paths(4)] native_route_facts [OF good_paths(5)] native_route_facts [OF good_paths(6)]
    native_route_facts [OF good_paths(7)] native_route_facts [OF good_paths(8)] native_route_facts [OF good_paths(9)]
    gemini_chat_route_facts
  from assms have "\<exists>rs. c = config_json rs \<and> rs \<noteq> [] \<and> (\<forall>r \<in> set rs. normalizeAdvancedCustomRoute r = Some r)
      \<and> list_all (route_ok url) rs \<and> distinct (map route_path rs)"
    unfolding ADVANCED_CUSTOM_TEMPLATE_OPTIONS_def by (auto simp: facts)
  then show "normalizeAdvancedCustomConfig c = Some c" "validateAdvancedCustomConfig url c = Some None"
    unfolding validate_ok using normalize_config_json by auto
qed

text \<open>A path that is not a text gets past parsing and breaks validation and summary.\<close>

lemma numeric_path_raises:
  defines "c \<equiv> config_json [route_json (JNum 5) (JStr []) (JStr conv_none) None]"
  shows "normalizeAdvancedCustomConfig c = Some c" "validateAdvancedCustomConfig url c = None"
proof -
  have r: "normalizeAdvancedCustomRoute (route_json (JNum 5) (JStr []) (JStr conv_none) None)
      = Some (route_json (JNum 5) (JStr []) (JStr conv_none) None)"
    by (simp add: normalizeAdvancedCustomRoute_def getAdvancedCustomRouteUpstreamPath_def or_val_def)
  then show n: "normalizeAdvancedCustomConfig c = Some c" unfolding c_def by (intro normalize_config_json) simp
  have "check_route url [] (route_json (JNum 5) (JStr []) (JStr conv_none) None) = None"
    by (simp add: check_route_def route_path_def nullish_def trim_val_def)
  with n show "validateAdvancedCustomConfig url c = None"
    unfolding c_def by (simp add: validateAdvancedCustomConfig_def)
qed

text \<open>The two lists the editor offers agree: a path offers a converter when the converter offers the path.\<close>

lemma converter_path_options:
  assumes "p \<in> fst ` set ADVANCED_CUSTOM_INCOMING_PATH_OPTIONS" "c \<in> fst ` set ADVANCED_CUSTOM_CONVERTER_OPTIONS" "trim p = p"
  shows "c \<in> fst ` set (getAdvancedCustomConverterOptions p) \<longleftrightarrow> p \<in> fst ` set (getAdvancedCustomIncomingPathOptions c)"
proof -
  have n: "c = conv_none \<Longrightarrow> isConverterPathAllowed p c" by (simp add: isConverterPathAllowed_def)
  have "c \<in> fst ` set (getAdvancedCustomConverterOptions p) \<longleftrightarrow> c = conv_none \<or> isConverterPathAllowed p c"
    using assms(2,3) by (force simp: getAdvancedCustomConverterOptions_def Let_def)
  moreover have "p \<in> fst ` set (getAdvancedCustomIncomingPathOptions c) \<longleftrightarrow> isConverterPathAllowed p c"
    using assms(1) by (force simp: getAdvancedCustomIncomingPathOptions_def)
  ultimately show ?thesis using n by blast
qed

section \<open>Properties\<close>

text \<open>
  C29: validation of an advanced custom configuration accepts exactly the configurations that meet
  the requirements on routes: there is a route, every route is acceptable by itself, and no two
  have the same incoming path. When it reports a route, the routes before it pass and the report
  is that of the routes up to it.
\<close>

theorem validation_accepts_good_routes:
  "(validateAdvancedCustomConfig url config = Some None \<longleftrightarrow>
     (\<exists>rs. normalizeAdvancedCustomConfig config = Some (config_json rs) \<and> rs \<noteq> []
        \<and> list_all (route_ok url) rs \<and> distinct (map route_path rs)))
   \<and> (\<forall>e i rs. validateAdvancedCustomConfig url config = Some (Some e) \<and> err_routeIndex e = Some i
        \<and> normalizeAdvancedCustomConfig config = Some (config_json rs) \<longrightarrow>
        i < length rs \<and> list_all (route_ok url) (take i rs) \<and> distinct (map route_path (take i rs))
        \<and> check_routes url 0 [] (take (Suc i) rs) = Some (Some e))"
  using validate_ok [of url config] validate_first [of url config] by blast

theorem validation_accepts_good_routes_witness:
  "let c = config_json [native_route ''/v1/images/generations'' bearerHeaderAuth,
                    native_route ''/v1/images/edits'' bearerHeaderAuth]
   in validateAdvancedCustomConfig (\<lambda>_. None) c = Some None"
proof -
  let ?rs = "[native_route ''/v1/images/generations'' bearerHeaderAuth, native_route ''/v1/images/edits'' bearerHeaderAuth]"
  have "normalizeAdvancedCustomConfig (config_json ?rs) = Some (config_json ?rs)"
    by (rule normalize_config_json) (auto simp: native_route_facts good_paths)
  then show ?thesis
    using validation_accepts_good_routes [of "\<lambda>_. None" "config_json ?rs", THEN conjunct1]
    by (simp add: native_route_facts good_paths)
qed

text \<open>
  C34: the text of a configuration in the JSON editor stands for the normalised configuration:
  writing a configuration and reading the text gives its normal form, whose text is the same.
\<close>

theorem config_text_roundtrip:
  assumes "normalizeAdvancedCustomConfig config = Some c" "json_wf c"
  shows "stringifyAdvancedCustomConfig config = Some (stringify_indent c)
    \<and> parseAdvancedCustomConfig (Some (stringify_indent c)) = c
    \<and> stringifyAdvancedCustomConfig c = Some (stringify_indent c)"
proof -
  obtain rs where c: "c = config_json rs" using assms(1) by (rule normalize_config_cases)
  have p: "json_parse (stringify_indent c) = Some c" by (rule json_indent.dec_enc [OF assms(2)])
  have "hd (stringify_indent c) = 123" "stringify_indent c \<noteq> []"
    by (auto simp: c config_json_def stringify_indent_def Let_def)
  then have "trim (stringify_indent c) \<noteq> []"
    by (cases "stringify_indent c") (auto simp: trim_empty_iff is_space_def is_line_term_def)
  with p normalize_config_idem [OF assms(1)] show ?thesis
    using assms(1) by (simp add: parseAdvancedCustomConfig_def stringifyAdvancedCustomConfig_def c config_json_def)
qed

theorem config_text_roundtrip_witness:
  "parseAdvancedCustomConfig (Some (stringify_indent (config_json [native_route ''/v1/messages'' apiKeyHeaderAuth])))
   = config_json [native_route ''/v1/messages'' apiKeyHeaderAuth]"
proof -
  let ?c = "config_json [native_route ''/v1/messages'' apiKeyHeaderAuth]"
  have 1: "normalizeAdvancedCustomConfig ?c = Some ?c"
    by (rule normalize_config_json) (simp add: native_route_facts good_paths)
  have 2: "json_wf ?c"
    by (simp add: config_json_def native_route_def route_json_def apiKeyHeaderAuth_def auth_json_def obj_literal)
  from config_text_roundtrip [OF 1 2] show ?thesis by simp
qed

end
