(* ===== verification/FlowGraph.thy ===== *)
theory FlowGraph
  imports JsValue "HOL-Library.AList" "HOL-Library.Multiset"
begin

text \<open>
  The flow chart of the dashboard (\<open>features/dashboard/lib/flow.ts\<close> up to \<open>buildDashboardFlowData\<close>):
  rows of usage become paths through the visible stages, and paths become a graph whose nodes and
  links add up the metrics of the rows. A JavaScript \<open>Map\<close> is an association list in insertion
  order, \<open>map.set\<close> is \<^const>\<open>AList.update\<close>.

  Parameters: \<open>localeCompare\<close>, the formatter of \<open>Intl.NumberFormat\<close> and the color table of VChart
  (its entries before the last, and the last one) are fields of \<open>FlowEnv\<close>.
\<close>

section \<open>Data\<close>

datatype FlowNodeKind = KUser | KNode | KToken | KGroup | KModel | KChannel
datatype FlowMetric = MetricQuota | MetricTokens | MetricRequests
datatype FlowOverflowMode = Aggregate | Hide
datatype FlowRole = RoleUser | RoleAdmin | RoleRoot

fun kind_text :: "FlowNodeKind \<Rightarrow> jsstr" where
  "kind_text KUser = js ''user''"
| "kind_text KNode = js ''node''"
| "kind_text KToken = js ''token''"
| "kind_text KGroup = js ''group''"
| "kind_text KModel = js ''model''"
| "kind_text KChannel = js ''channel''"

record FlowQuotaDataItem =
  user_id :: "rat option"
  username :: "jsstr option"
  node_name :: "jsstr option"
  use_group :: "jsstr option"
  token_id :: "rat option"
  token_name :: "jsstr option"
  channel_id :: "rat option"
  channel_name :: "jsstr option"
  model_name :: "jsstr option"
  token_used :: "rat option"
  count_used :: "rat option"
  quota_used :: "rat option"

record FlowMetrics =
  m_quota :: rat
  m_tokens :: rat
  m_requests :: rat

record FlowPathNode =
  pn_id :: jsstr
  pn_label :: jsstr
  pn_kind :: FlowNodeKind

record PreparedFlowPath =
  p_path :: "FlowPathNode list"
  p_metrics :: FlowMetrics

record FlowNodeFilter =
  nf_kind :: FlowNodeKind
  nf_id :: jsstr

record FlowLinkSelection =
  ls_source :: jsstr
  ls_target :: jsstr

record DashboardFlowNode =
  n_id :: jsstr
  n_label :: jsstr
  n_kind :: FlowNodeKind
  n_value :: rat
  n_requests :: rat
  n_quota :: rat
  n_tokens :: rat
  n_color :: jsstr
  n_colorKey :: jsstr
  n_highlighted :: "bool option"
  n_dimmed :: "bool option"

record DashboardFlowLink =
  l_source :: jsstr
  l_target :: jsstr
  l_value :: rat
  l_requests :: rat
  l_quota :: rat
  l_tokens :: rat
  l_sourceLabel :: jsstr
  l_targetLabel :: jsstr
  l_color :: jsstr
  l_linkColor :: jsstr
  l_linkAlpha :: rat
  l_hoverColor :: jsstr
  l_colorKey :: jsstr
  l_share :: rat
  l_highlighted :: "bool option"
  l_dimmed :: "bool option"

record DashboardFlowGraph =
  g_nodes :: "DashboardFlowNode list"
  g_links :: "DashboardFlowLink list"

record ColorScheme =
  maxDomainLength :: "nat option"
  scheme_colors :: "jsval list"

record FlowEnv =
  localeCompare :: "jsstr \<Rightarrow> jsstr \<Rightarrow> rat"
  formatNumber :: "rat \<Rightarrow> jsstr"
  schemes_before :: "ColorScheme list"
  scheme_last :: ColorScheme

record FlowPathContext =
  ctx_deletedTokenLabel :: "(rat \<Rightarrow> jsstr) option"

record FlowGraphOptions =
  o_topNodeLimit :: "rat option"
  o_overflowMode :: "FlowOverflowMode option"
  o_otherNodeLabel :: "(FlowNodeKind \<Rightarrow> jsstr) option"
  o_activeNode :: "FlowNodeFilter option"
  o_activeLink :: "FlowLinkSelection option"
  o_maskSensitive :: bool

record FlowBuildOptions = FlowGraphOptions +
  b_role :: "FlowRole option"
  b_selectedUsers :: "jsstr list option"
  b_selectedNodes :: "FlowNodeFilter list option"
  b_colorPalette :: "jsstr list option"
  b_visibleStages :: "FlowNodeKind list option"
  b_deletedTokenLabel :: "(rat \<Rightarrow> jsstr) option"

text \<open>\<open>a || b\<close> on optional strings and on the numbers of a comparison; \<open>array.sort\<close> is stable.\<close>

definition or_text :: "jsstr option \<Rightarrow> jsstr \<Rightarrow> jsstr" where
  "or_text s d = (case s of None \<Rightarrow> d | Some t \<Rightarrow> if t = [] then d else t)"

definition or_num :: "rat \<Rightarrow> rat \<Rightarrow> rat" where
  "or_num a b = (if a = 0 then b else a)"

fun insert_by :: "('a \<Rightarrow> 'a \<Rightarrow> rat) \<Rightarrow> 'a \<Rightarrow> 'a list \<Rightarrow> 'a list" where
  "insert_by cmp x [] = [x]"
| "insert_by cmp x (y # ys) = (if cmp x y \<le> 0 then x # y # ys else y # insert_by cmp x ys)"

definition sort_by :: "('a \<Rightarrow> 'a \<Rightarrow> rat) \<Rightarrow> 'a list \<Rightarrow> 'a list" where
  "sort_by cmp xs = foldr (insert_by cmp) xs []"

section \<open>Paths\<close>

definition FLOW_NODE_KINDS :: "FlowNodeKind list" where
  "FLOW_NODE_KINDS = [KUser, KNode, KToken, KGroup, KModel, KChannel]"

definition DEFAULT_FLOW_ROLE :: FlowRole where
  "DEFAULT_FLOW_ROLE = RoleUser"

definition DEFAULT_FLOW_OVERFLOW_MODE :: FlowOverflowMode where
  "DEFAULT_FLOW_OVERFLOW_MODE = Aggregate"

definition DEFAULT_FLOW_CHART_COLOR :: jsstr where
  "DEFAULT_FLOW_CHART_COLOR = js ''#1664FF''"

fun OTHER_FLOW_NODE_IDS :: "FlowNodeKind \<Rightarrow> jsstr" where
  "OTHER_FLOW_NODE_IDS KUser = js ''user:__other__''"
| "OTHER_FLOW_NODE_IDS KNode = js ''node:__other__''"
| "OTHER_FLOW_NODE_IDS KToken = js ''token:__other__''"
| "OTHER_FLOW_NODE_IDS KGroup = js ''group:__other__''"
| "OTHER_FLOW_NODE_IDS KModel = js ''model:__other__''"
| "OTHER_FLOW_NODE_IDS KChannel = js ''channel:__other__''"

fun DEFAULT_OTHER_FLOW_NODE_LABELS :: "FlowNodeKind \<Rightarrow> jsstr" where
  "DEFAULT_OTHER_FLOW_NODE_LABELS KUser = js ''Other users''"
| "DEFAULT_OTHER_FLOW_NODE_LABELS KNode = js ''Other nodes''"
| "DEFAULT_OTHER_FLOW_NODE_LABELS KToken = js ''Other tokens''"
| "DEFAULT_OTHER_FLOW_NODE_LABELS KGroup = js ''Other groups''"
| "DEFAULT_OTHER_FLOW_NODE_LABELS KModel = js ''Other models''"
| "DEFAULT_OTHER_FLOW_NODE_LABELS KChannel = js ''Other channels''"

definition SENSITIVE_FLOW_KINDS :: "FlowNodeKind list" where
  "SENSITIVE_FLOW_KINDS = [KUser, KNode, KToken, KGroup, KChannel]"

definition OTHER_FLOW_NODE_ID_SET :: "jsstr list" where
  "OTHER_FLOW_NODE_ID_SET = map OTHER_FLOW_NODE_IDS FLOW_NODE_KINDS"

definition numberValue :: "rat option \<Rightarrow> rat" where
  "numberValue v = (case v of None \<Rightarrow> 0 | Some n \<Rightarrow> n)"

definition rowMetrics :: "FlowQuotaDataItem \<Rightarrow> FlowMetrics" where
  "rowMetrics row = \<lparr>m_quota = numberValue (quota_used row), m_tokens = numberValue (token_used row),
     m_requests = numberValue (count_used row)\<rparr>"

fun metricValue :: "FlowMetrics \<Rightarrow> FlowMetric \<Rightarrow> rat" where
  "metricValue m MetricRequests = m_requests m"
| "metricValue m MetricTokens = m_tokens m"
| "metricValue m MetricQuota = m_quota m"

definition userNode :: "FlowQuotaDataItem \<Rightarrow> FlowPathNode" where
  "userNode row =
     (let userID = numberValue (user_id row) in
      \<lparr>pn_id = (if userID > 0 then js ''user:'' @ num_text userID
                else js ''user:'' @ or_text (username row) (js ''unknown'')),
       pn_label = or_text (username row)
         (if userID > 0 then js ''user-'' @ num_text userID else js ''Unknown User''),
       pn_kind = KUser\<rparr>)"

definition nodeNameNode :: "FlowQuotaDataItem \<Rightarrow> FlowPathNode" where
  "nodeNameNode row =
     (let nodeName = or_text (node_name row) (js ''default-node'') in
      \<lparr>pn_id = js ''node:'' @ nodeName, pn_label = nodeName, pn_kind = KNode\<rparr>)"

definition deletedTokenLabel :: "rat \<Rightarrow> FlowPathContext \<Rightarrow> jsstr" where
  "deletedTokenLabel tokenID ctx =
     (if tokenID \<le> 0 then js ''Unknown Token''
      else case ctx_deletedTokenLabel ctx of
             Some f \<Rightarrow> f tokenID
           | None \<Rightarrow> js ''token-'' @ num_text tokenID)"

definition tokenNode :: "FlowQuotaDataItem \<Rightarrow> FlowPathContext \<Rightarrow> FlowPathNode" where
  "tokenNode row ctx =
     (let tokenID = numberValue (token_id row) in
      \<lparr>pn_id = (if tokenID > 0 then js ''token:'' @ num_text tokenID
                else js ''token:'' @ or_text (token_name row) (js ''unknown'')),
       pn_label = or_text (token_name row) (deletedTokenLabel tokenID ctx),
       pn_kind = KToken\<rparr>)"

definition groupNode :: "FlowQuotaDataItem \<Rightarrow> FlowPathNode" where
  "groupNode row =
     (let useGroup = or_text (use_group row) (js ''unknown'') in
      \<lparr>pn_id = js ''group:'' @ useGroup, pn_label = useGroup, pn_kind = KGroup\<rparr>)"

definition modelNode :: "FlowQuotaDataItem \<Rightarrow> FlowPathNode" where
  "modelNode row =
     (let model = or_text (model_name row) (js ''unknown'') in
      \<lparr>pn_id = js ''model:'' @ model, pn_label = or_text (model_name row) (js ''Unknown Model''),
       pn_kind = KModel\<rparr>)"

definition channelNode :: "FlowQuotaDataItem \<Rightarrow> FlowPathNode" where
  "channelNode row =
     (let channelID = numberValue (channel_id row) in
      \<lparr>pn_id = (if channelID > 0 then js ''channel:'' @ num_text channelID
                else js ''channel:'' @ or_text (channel_name row) (js ''unknown'')),
       pn_label = or_text (channel_name row)
         (if channelID > 0 then js ''channel-'' @ num_text channelID else js ''Unknown''),
       pn_kind = KChannel\<rparr>)"

fun NODE_BUILDERS :: "FlowNodeKind \<Rightarrow> FlowQuotaDataItem \<Rightarrow> FlowPathContext \<Rightarrow> FlowPathNode" where
  "NODE_BUILDERS KUser row ctx = userNode row"
| "NODE_BUILDERS KNode row ctx = nodeNameNode row"
| "NODE_BUILDERS KToken row ctx = tokenNode row ctx"
| "NODE_BUILDERS KGroup row ctx = groupNode row"
| "NODE_BUILDERS KModel row ctx = modelNode row"
| "NODE_BUILDERS KChannel row ctx = channelNode row"

definition MIN_FLOW_STAGES :: nat where
  "MIN_FLOW_STAGES = 2"

fun getFlowStages :: "FlowRole \<Rightarrow> FlowNodeKind list" where
  "getFlowStages RoleRoot = [KUser, KNode, KToken, KGroup, KModel, KChannel]"
| "getFlowStages RoleAdmin = [KUser, KGroup, KModel, KChannel]"
| "getFlowStages RoleUser = [KToken, KGroup, KModel]"

definition resolveVisibleStages :: "FlowRole \<Rightarrow> FlowNodeKind list option \<Rightarrow> FlowNodeKind list" where
  "resolveVisibleStages role visibleStages =
     (let stages = getFlowStages role in
      case visibleStages of
        None \<Rightarrow> stages
      | Some visible \<Rightarrow>
          (let filtered = filter (\<lambda>stage. stage \<in> set visible) stages in
           if length filtered \<ge> MIN_FLOW_STAGES then filtered else stages))"

definition flowPathForStages ::
    "FlowQuotaDataItem \<Rightarrow> FlowNodeKind list \<Rightarrow> FlowPathContext \<Rightarrow> FlowPathNode list" where
  "flowPathForStages row stages ctx = map (\<lambda>stage. NODE_BUILDERS stage row ctx) stages"

section \<open>Colors\<close>

definition getDashboardChartColors :: "FlowEnv \<Rightarrow> nat \<Rightarrow> jsstr list" where
  "getDashboardChartColors env domainLength =
     (let fits = (\<lambda>item. case maxDomainLength item of None \<Rightarrow> True | Some n \<Rightarrow> n = 0 \<or> domainLength \<le> n);
          scheme = (case find fits (schemes_before env @ [scheme_last env]) of
                      Some item \<Rightarrow> item
                    | None \<Rightarrow> scheme_last env)
      in List.map_filter (\<lambda>color. case color of JStr s \<Rightarrow> Some s | _ \<Rightarrow> None) (scheme_colors scheme))"

definition colorAt :: "FlowEnv \<Rightarrow> nat \<Rightarrow> jsstr list option \<Rightarrow> jsstr" where
  "colorAt env index palette =
     (let colors = (case palette of
                      Some (c # cs) \<Rightarrow> c # cs
                    | _ \<Rightarrow> getDashboardChartColors env (index + 1))
      in if length colors = 0 then DEFAULT_FLOW_CHART_COLOR else colors ! (index mod length colors))"

definition colorPalette :: "FlowEnv \<Rightarrow> nat \<Rightarrow> jsstr list option \<Rightarrow> jsstr list" where
  "colorPalette env colorCount palette =
     (case palette of
        Some (c # cs) \<Rightarrow> c # cs
      | _ \<Rightarrow> (let colors = getDashboardChartColors env colorCount in
              if length colors > 0 then colors else [DEFAULT_FLOW_CHART_COLOR]))"

definition hex_value :: "jschar \<Rightarrow> nat option" where
  "hex_value c =
     (if 48 \<le> c \<and> c \<le> 57 then Some (c - 48)
      else if 97 \<le> c \<and> c \<le> 102 then Some (c - 87)
      else if 65 \<le> c \<and> c \<le> 70 then Some (c - 55)
      else None)"

definition toFixed2 :: "rat \<Rightarrow> jsstr" where
  "toFixed2 x =
     (let n = nat \<lfloor>x * 100 + 1 / 2\<rfloor> in
      nat_digits (n div 100) @ [46, 48 + n div 10 mod 10, 48 + n mod 10])"

definition alphaColor :: "jsstr \<Rightarrow> rat \<Rightarrow> jsstr \<times> rat" where
  "alphaColor color alpha =
     (let normalized = trim color;
          hex = (if startsWith normalized (js ''#'') then drop 1 normalized else normalized)
      in case those (map hex_value hex) of
           Some [r1, r0, g1, g0, b1, b0] \<Rightarrow>
             (js ''rgba('' @ nat_digits (16 * r1 + r0) @ js '', '' @ nat_digits (16 * g1 + g0) @ js '', ''
                @ nat_digits (16 * b1 + b0) @ js '', '' @ toFixed2 alpha @ js '')'', 1)
         | _ \<Rightarrow> (normalized, alpha))"

definition stableColorMap :: "FlowEnv \<Rightarrow> jsstr list \<Rightarrow> jsstr list option \<Rightarrow> (jsstr \<times> jsstr) list" where
  "stableColorMap env keys palette =
     (let uniqueKeys = uniq keys;
          colors = colorPalette env (length uniqueKeys) palette
      in map (\<lambda>(index, key). (key, colorAt env index (Some colors))) (enumerate 0 uniqueKeys))"

section \<open>Selection of rows\<close>

definition filterRows :: "FlowQuotaDataItem list \<Rightarrow> jsstr list option \<Rightarrow> FlowQuotaDataItem list" where
  "filterRows rows selectedUsers =
     (let selected = (case selectedUsers of None \<Rightarrow> [] | Some us \<Rightarrow> us) in
      if selected = [] then rows else filter (\<lambda>row. pn_id (userNode row) \<in> set selected) rows)"

definition nodeFilterKey :: "FlowNodeKind \<Rightarrow> jsstr \<Rightarrow> jsstr" where
  "nodeFilterKey kind i = kind_text kind @ 0 # i"

definition add_to_set :: "'a list \<Rightarrow> 'a \<Rightarrow> 'a list" where
  "add_to_set xs x = (if x \<in> set xs then xs else xs @ [x])"

definition or_empty :: "'a list option \<Rightarrow> 'a list" where
  "or_empty xs = (case xs of None \<Rightarrow> [] | Some ys \<Rightarrow> ys)"

definition add_filter ::
    "FlowNodeKind list \<Rightarrow> (FlowNodeKind \<times> jsstr list) list \<Rightarrow> FlowNodeFilter \<Rightarrow> (FlowNodeKind \<times> jsstr list) list" where
  "add_filter stages filters f =
     (if nf_kind f \<notin> set stages then filters
      else AList.update (nf_kind f) (add_to_set (or_empty (map_of filters (nf_kind f))) (nf_id f)) filters)"

definition normalizeSelectedNodeFilters ::
    "FlowNodeFilter list option \<Rightarrow> FlowNodeKind list \<Rightarrow> (FlowNodeKind \<times> jsstr list) list" where
  "normalizeSelectedNodeFilters selectedNodes stages = foldl (add_filter stages) [] (or_empty selectedNodes)"

definition add_path_node ::
    "(FlowNodeKind \<times> jsstr list) list \<Rightarrow> FlowPathNode \<Rightarrow> (FlowNodeKind \<times> jsstr list) list" where
  "add_path_node byKind node =
     AList.update (pn_kind node) (add_to_set (or_empty (map_of byKind (pn_kind node))) (pn_id node)) byKind"

definition pathMatchesNodeFilters :: "FlowPathNode list \<Rightarrow> (FlowNodeKind \<times> jsstr list) list \<Rightarrow> bool" where
  "pathMatchesNodeFilters path filters =
     (if filters = [] then True
      else let pathNodesByKind = foldl add_path_node [] path in
           list_all (\<lambda>(kind, selectedIds).
             case map_of pathNodesByKind kind of
               None \<Rightarrow> False
             | Some pathIds \<Rightarrow> list_ex (\<lambda>i. i \<in> set pathIds) selectedIds) filters)"

definition filterRowsByNodes ::
    "FlowQuotaDataItem list \<Rightarrow> FlowNodeFilter list option \<Rightarrow> FlowNodeKind list \<Rightarrow> FlowPathContext
       \<Rightarrow> FlowQuotaDataItem list" where
  "filterRowsByNodes rows selectedNodes stages ctx =
     (let filters = normalizeSelectedNodeFilters selectedNodes stages in
      if filters = [] then rows
      else filter (\<lambda>row. pathMatchesNodeFilters (flowPathForStages row stages ctx) filters) rows)"

definition selectedNodeFiltersExceptKind ::
    "FlowNodeFilter list option \<Rightarrow> FlowNodeKind \<Rightarrow> FlowNodeFilter list option" where
  "selectedNodeFiltersExceptKind selectedNodes kind =
     (let filtered = filter (\<lambda>f. nf_kind f \<noteq> kind) (or_empty selectedNodes) in
      if length filtered > 0 then Some filtered else None)"

section \<open>Nodes and links\<close>

definition addNode ::
    "(jsstr \<times> DashboardFlowNode) list \<Rightarrow> FlowPathNode \<Rightarrow> FlowMetrics \<Rightarrow> FlowMetric \<Rightarrow> jsstr \<Rightarrow> jsstr
       \<Rightarrow> (jsstr \<times> DashboardFlowNode) list" where
  "addNode m pathNode metrics metric color colorKey =
     (let previous = (case map_of m (pn_id pathNode) of
            Some n \<Rightarrow> n
          | None \<Rightarrow> \<lparr>n_id = pn_id pathNode, n_label = pn_label pathNode, n_kind = pn_kind pathNode, n_value = 0,
                     n_requests = 0, n_quota = 0, n_tokens = 0, n_color = color, n_colorKey = colorKey,
                     n_highlighted = None, n_dimmed = None\<rparr>)
      in AList.update (pn_id pathNode)
           (previous\<lparr>n_value := n_value previous + metricValue metrics metric,
                     n_requests := n_requests previous + m_requests metrics,
                     n_quota := n_quota previous + m_quota metrics,
                     n_tokens := n_tokens previous + m_tokens metrics\<rparr>) m)"

definition pathLinkKey :: "FlowPathNode \<Rightarrow> FlowPathNode \<Rightarrow> jsstr" where
  "pathLinkKey source target = pn_id source @ 0 # pn_id target"

definition addLink ::
    "(jsstr \<times> DashboardFlowLink) list \<Rightarrow> FlowPathNode \<Rightarrow> FlowPathNode \<Rightarrow> FlowMetrics \<Rightarrow> FlowMetric \<Rightarrow> jsstr
       \<Rightarrow> jsstr \<Rightarrow> (jsstr \<times> DashboardFlowLink) list" where
  "addLink m source target metrics metric color colorKey =
     (let key = pn_id source @ 0 # pn_id target;
          previous = (case map_of m key of
            Some l \<Rightarrow> l
          | None \<Rightarrow> \<lparr>l_source = pn_id source, l_target = pn_id target, l_value = 0, l_requests = 0, l_quota = 0,
                     l_tokens = 0, l_sourceLabel = pn_label source, l_targetLabel = pn_label target,
                     l_color = color, l_linkColor = color, l_linkAlpha = 1, l_hoverColor = color,
                     l_colorKey = colorKey, l_share = 0, l_highlighted = None, l_dimmed = None\<rparr>)
      in AList.update key
           (previous\<lparr>l_value := l_value previous + metricValue metrics metric,
                     l_requests := l_requests previous + m_requests metrics,
                     l_quota := l_quota previous + m_quota metrics,
                     l_tokens := l_tokens previous + m_tokens metrics\<rparr>) m)"

definition linkStableKey :: "DashboardFlowLink \<Rightarrow> jsstr" where
  "linkStableKey link = l_source link @ 0 # l_target link"

fun index_in :: "'a \<Rightarrow> 'a list \<Rightarrow> nat" where
  "index_in x [] = 0"
| "index_in x (y # ys) = (if x = y then 0 else Suc (index_in x ys))"

definition display_alpha :: "FlowEnv \<Rightarrow> DashboardFlowLink list \<Rightarrow> DashboardFlowLink \<Rightarrow> rat" where
  "display_alpha env links link =
     (let sortedLinks = sort_by (\<lambda>a b. or_num (l_value b - l_value a)
                           (localeCompare env (linkStableKey a) (linkStableKey b)))
                         (filter (\<lambda>k. l_source k = l_source link) links);
          denominator = max (length sortedLinks - 1) 1
      in if length sortedLinks = 1 then 34 / 100
         else 24 / 100 + (of_nat (index_in link sortedLinks) / of_nat denominator) * (2 / 10))"

definition assignLinkDisplayColors :: "FlowEnv \<Rightarrow> DashboardFlowLink list \<Rightarrow> DashboardFlowLink list" where
  "assignLinkDisplayColors env links =
     map (\<lambda>link. let displayColor = alphaColor (l_color link) (display_alpha env links link) in
            link\<lparr>l_linkColor := fst displayColor, l_linkAlpha := snd displayColor, l_hoverColor := l_color link\<rparr>)
       links"

definition byValueThenLabel :: "FlowEnv \<Rightarrow> DashboardFlowNode \<Rightarrow> DashboardFlowNode \<Rightarrow> rat" where
  "byValueThenLabel env a b = or_num (n_value b - n_value a) (localeCompare env (n_label a) (n_label b))"

definition summary_step :: "FlowMetrics \<Rightarrow> FlowQuotaDataItem \<Rightarrow> FlowMetrics" where
  "summary_step summary row =
     (let metrics = rowMetrics row in
      \<lparr>m_quota = m_quota summary + m_quota metrics, m_tokens = m_tokens summary + m_tokens metrics,
       m_requests = m_requests summary + m_requests metrics\<rparr>)"

definition buildSummary :: "FlowQuotaDataItem list \<Rightarrow> FlowMetrics" where
  "buildSummary rows = foldl summary_step \<lparr>m_quota = 0, m_tokens = 0, m_requests = 0\<rparr> rows"

section \<open>The limit on the nodes of a stage\<close>

record FlowNodeRank =
  rank_node :: FlowPathNode
  rank_value :: rat

definition normalizeTopNodeLimit :: "rat option \<Rightarrow> nat option" where
  "normalizeTopNodeLimit limit =
     (case limit of
        None \<Rightarrow> None
      | Some l \<Rightarrow> if \<lfloor>l\<rfloor> > 0 then Some (nat \<lfloor>l\<rfloor>) else None)"

definition otherFlowNode :: "FlowNodeKind \<Rightarrow> (FlowNodeKind \<Rightarrow> jsstr) option \<Rightarrow> FlowPathNode" where
  "otherFlowNode kind labeler =
     \<lparr>pn_id = OTHER_FLOW_NODE_IDS kind,
      pn_label = (case labeler of Some f \<Rightarrow> f kind | None \<Rightarrow> DEFAULT_OTHER_FLOW_NODE_LABELS kind),
      pn_kind = kind\<rparr>"

definition add_rank :: "rat \<Rightarrow> (jsstr \<times> FlowNodeRank) list \<Rightarrow> FlowPathNode \<Rightarrow> (jsstr \<times> FlowNodeRank) list" where
  "add_rank value stageTotals node =
     (let current = (case map_of stageTotals (pn_id node) of
                       Some r \<Rightarrow> r
                     | None \<Rightarrow> \<lparr>rank_node = node, rank_value = 0\<rparr>)
      in AList.update (pn_id node) (current\<lparr>rank_value := rank_value current + value\<rparr>) stageTotals)"

definition add_stage_rank ::
    "rat \<Rightarrow> (FlowNodeKind \<times> (jsstr \<times> FlowNodeRank) list) list \<Rightarrow> FlowPathNode
       \<Rightarrow> (FlowNodeKind \<times> (jsstr \<times> FlowNodeRank) list) list" where
  "add_stage_rank value totals node =
     (case map_of totals (pn_kind node) of
        None \<Rightarrow> totals
      | Some stageTotals \<Rightarrow> AList.update (pn_kind node) (add_rank value stageTotals node) totals)"

definition stage_totals ::
    "FlowQuotaDataItem list \<Rightarrow> FlowMetric \<Rightarrow> FlowNodeKind list \<Rightarrow> FlowPathContext
       \<Rightarrow> (FlowNodeKind \<times> (jsstr \<times> FlowNodeRank) list) list" where
  "stage_totals rows metric stages ctx =
     foldl (\<lambda>totals row. foldl (add_stage_rank (metricValue (rowMetrics row) metric)) totals
                            (flowPathForStages row stages ctx))
       (foldl (\<lambda>m stage. AList.update stage [] m) [] stages) rows"

definition by_rank :: "FlowEnv \<Rightarrow> FlowNodeRank \<Rightarrow> FlowNodeRank \<Rightarrow> rat" where
  "by_rank env a b =
     or_num (rank_value b - rank_value a)
       (or_num (localeCompare env (pn_label (rank_node a)) (pn_label (rank_node b)))
          (localeCompare env (pn_id (rank_node a)) (pn_id (rank_node b))))"

definition buildTopNodeSets ::
    "FlowEnv \<Rightarrow> FlowQuotaDataItem list \<Rightarrow> FlowMetric \<Rightarrow> FlowNodeKind list \<Rightarrow> nat option \<Rightarrow> FlowPathContext
       \<Rightarrow> (FlowNodeKind \<times> jsstr list) list option" where
  "buildTopNodeSets env rows metric stages limit ctx =
     (case limit of
        None \<Rightarrow> None
      | Some l \<Rightarrow>
          if l = 0 then None
          else Some (map (\<lambda>(kind, stageTotals).
                 (kind, map (\<lambda>rank. pn_id (rank_node rank))
                          (take l (sort_by (by_rank env) (map snd stageTotals)))))
               (stage_totals rows metric stages ctx)))"

definition isTopFlowNode :: "FlowPathNode \<Rightarrow> (FlowNodeKind \<times> jsstr list) list \<Rightarrow> bool" where
  "isTopFlowNode node topNodeSets =
     (case map_of topNodeSets (pn_kind node) of
        None \<Rightarrow> True
      | Some topNodes \<Rightarrow> pn_id node \<in> set topNodes)"

definition applyTopNodeLimit ::
    "FlowPathNode list \<Rightarrow> (FlowNodeKind \<times> jsstr list) list option \<Rightarrow> FlowOverflowMode
       \<Rightarrow> (FlowNodeKind \<Rightarrow> jsstr) option \<Rightarrow> FlowPathNode list option" where
  "applyTopNodeLimit path topNodeSets mode labeler =
     (case topNodeSets of
        None \<Rightarrow> Some path
      | Some sets \<Rightarrow>
          if \<not> list_ex (\<lambda>node. \<not> isTopFlowNode node sets) path then Some path
          else if mode = Hide then None
          else Some (map (\<lambda>node. if isTopFlowNode node sets then node
                                 else otherFlowNode (pn_kind node) labeler) path))"

section \<open>Highlighting and masking\<close>

definition pathContainsFlowNode :: "FlowPathNode list \<Rightarrow> FlowNodeFilter \<Rightarrow> bool" where
  "pathContainsFlowNode path f = list_ex (\<lambda>node. pn_kind node = nf_kind f \<and> pn_id node = nf_id f) path"

definition path_pairs :: "FlowPathNode list \<Rightarrow> (FlowPathNode \<times> FlowPathNode) list" where
  "path_pairs path = zip path (tl path)"

definition pathContainsFlowLink :: "FlowPathNode list \<Rightarrow> FlowLinkSelection \<Rightarrow> bool" where
  "pathContainsFlowLink path link =
     list_ex (\<lambda>(a, b). pn_id a = ls_source link \<and> pn_id b = ls_target link) (path_pairs path)"

definition matchesPath :: "FlowNodeFilter option \<Rightarrow> FlowLinkSelection option \<Rightarrow> FlowPathNode list \<Rightarrow> bool" where
  "matchesPath activeNode activeLink path =
     (case activeLink of
        Some link \<Rightarrow> pathContainsFlowLink path link
      | None \<Rightarrow> (case activeNode of Some f \<Rightarrow> pathContainsFlowNode path f | None \<Rightarrow> False))"

definition buildFlowHighlightSets ::
    "PreparedFlowPath list \<Rightarrow> FlowNodeFilter option \<Rightarrow> FlowLinkSelection option \<Rightarrow> FlowNodeKind list
       \<Rightarrow> (jsstr list \<times> jsstr list) option" where
  "buildFlowHighlightSets preparedPaths activeNode activeLink stages =
     (let nodeActive = (case activeNode of Some f \<Rightarrow> nf_kind f \<in> set stages | None \<Rightarrow> False) in
      if \<not> nodeActive \<and> activeLink = None then None
      else let paths = filter (matchesPath activeNode activeLink) (map p_path preparedPaths);
               highlightedNodes = uniq (concat (map (map pn_id) paths));
               highlightedLinks = uniq (concat (map (\<lambda>p. map (\<lambda>(a, b). pathLinkKey a b) (path_pairs p)) paths))
           in if length highlightedNodes = 0 then None else Some (highlightedNodes, highlightedLinks))"

definition FLOW_MASK_TEXT :: jsstr where
  "FLOW_MASK_TEXT = [8226, 8226, 8226, 8226]"

definition maskFlowLabel :: "jsstr \<Rightarrow> jsstr" where
  "maskFlowLabel label = (if length label = 0 then label else FLOW_MASK_TEXT)"

definition masked_node :: "DashboardFlowNode \<Rightarrow> bool" where
  "masked_node node \<longleftrightarrow> n_kind node \<in> set SENSITIVE_FLOW_KINDS \<and> n_id node \<notin> set OTHER_FLOW_NODE_ID_SET"

definition mask_link :: "(jsstr \<times> jsstr) list \<Rightarrow> DashboardFlowLink \<Rightarrow> DashboardFlowLink" where
  "mask_link maskedById link =
     (let l1 = (case map_of maskedById (l_source link) of
                  Some sourceMasked \<Rightarrow> link\<lparr>l_sourceLabel := sourceMasked\<rparr>
                | None \<Rightarrow> link)
      in case map_of maskedById (l_target link) of
           Some targetMasked \<Rightarrow> l1\<lparr>l_targetLabel := targetMasked\<rparr>
         | None \<Rightarrow> l1)"

definition maskFlowGraphLabels ::
    "DashboardFlowNode list \<Rightarrow> DashboardFlowLink list \<Rightarrow> DashboardFlowNode list \<times> DashboardFlowLink list" where
  "maskFlowGraphLabels nodes links =
     (let maskedById = foldl (\<lambda>m node. if masked_node node
                                then AList.update (n_id node) (maskFlowLabel (n_label node)) m else m) [] nodes
      in (map (\<lambda>node. if masked_node node then node\<lparr>n_label := maskFlowLabel (n_label node)\<rparr> else node) nodes,
          if length maskedById = 0 then links else map (mask_link maskedById) links))"

definition highlight_node :: "jsstr list \<Rightarrow> DashboardFlowNode \<Rightarrow> DashboardFlowNode" where
  "highlight_node ids node =
     (let h = n_id node \<in> set ids in node\<lparr>n_highlighted := Some h, n_dimmed := Some (\<not> h)\<rparr>)"

definition highlight_link :: "jsstr list \<Rightarrow> DashboardFlowLink \<Rightarrow> DashboardFlowLink" where
  "highlight_link keys link =
     (let h = linkStableKey link \<in> set keys in link\<lparr>l_highlighted := Some h, l_dimmed := Some (\<not> h)\<rparr>)"

definition applyFlowHighlights ::
    "DashboardFlowNode list \<Rightarrow> DashboardFlowLink list \<Rightarrow> (jsstr list \<times> jsstr list) option
       \<Rightarrow> DashboardFlowNode list \<times> DashboardFlowLink list" where
  "applyFlowHighlights nodes links highlightSets =
     (case highlightSets of
        None \<Rightarrow> (nodes, links)
      | Some (ids, keys) \<Rightarrow> (map (highlight_node ids) nodes, map (highlight_link keys) links))"

section \<open>The graph\<close>

definition prepared_path ::
    "FlowNodeKind list \<Rightarrow> FlowPathContext \<Rightarrow> (FlowNodeKind \<times> jsstr list) list option \<Rightarrow> 'a FlowGraphOptions_scheme
       \<Rightarrow> FlowQuotaDataItem \<Rightarrow> PreparedFlowPath option" where
  "prepared_path stages ctx topNodeSets options row =
     map_option (\<lambda>path. \<lparr>p_path = path, p_metrics = rowMetrics row\<rparr>)
       (applyTopNodeLimit (flowPathForStages row stages ctx) topNodeSets
          (case o_overflowMode options of Some m \<Rightarrow> m | None \<Rightarrow> DEFAULT_FLOW_OVERFLOW_MODE)
          (o_otherNodeLabel options))"

definition preparePaths ::
    "FlowEnv \<Rightarrow> FlowQuotaDataItem list \<Rightarrow> FlowMetric \<Rightarrow> FlowNodeKind list \<Rightarrow> FlowPathContext
       \<Rightarrow> 'a FlowGraphOptions_scheme \<Rightarrow> PreparedFlowPath list" where
  "preparePaths env rows metric stages ctx options =
     (let topNodeSets = buildTopNodeSets env rows metric stages (normalizeTopNodeLimit (o_topNodeLimit options)) ctx
      in List.map_filter (prepared_path stages ctx topNodeSets options) rows)"

definition root_ids :: "PreparedFlowPath list \<Rightarrow> jsstr list" where
  "root_ids preparedPaths =
     List.map_filter (\<lambda>prepared. case p_path prepared of
                        [] \<Rightarrow> None
                      | rootNode # _ \<Rightarrow> if pn_id rootNode = [] then None else Some (pn_id rootNode)) preparedPaths"

definition path_color :: "FlowEnv \<Rightarrow> (jsstr \<times> jsstr) list \<Rightarrow> jsstr list option \<Rightarrow> FlowPathNode \<Rightarrow> jsstr" where
  "path_color env colors palette rootNode =
     (case map_of colors (pn_id rootNode) of Some c \<Rightarrow> c | None \<Rightarrow> colorAt env 0 palette)"

definition add_path_nodes ::
    "(FlowPathNode \<Rightarrow> jsstr) \<Rightarrow> FlowMetric \<Rightarrow> (jsstr \<times> DashboardFlowNode) list \<Rightarrow> PreparedFlowPath
       \<Rightarrow> (jsstr \<times> DashboardFlowNode) list" where
  "add_path_nodes color metric nodes prepared =
     (case p_path prepared of
        [] \<Rightarrow> nodes
      | rootNode # _ \<Rightarrow>
          foldl (\<lambda>m node. addNode m node (p_metrics prepared) metric (color rootNode) (pn_id rootNode))
            nodes (p_path prepared))"

definition add_path_links ::
    "(FlowPathNode \<Rightarrow> jsstr) \<Rightarrow> FlowMetric \<Rightarrow> (jsstr \<times> DashboardFlowLink) list \<Rightarrow> PreparedFlowPath
       \<Rightarrow> (jsstr \<times> DashboardFlowLink) list" where
  "add_path_links color metric links prepared =
     (case p_path prepared of
        [] \<Rightarrow> links
      | rootNode # _ \<Rightarrow>
          foldl (\<lambda>m (source, target). addLink m source target (p_metrics prepared) metric (color rootNode) (pn_id rootNode))
            links (path_pairs (p_path prepared)))"

definition buildFlowGraph ::
    "FlowEnv \<Rightarrow> FlowQuotaDataItem list \<Rightarrow> FlowMetric \<Rightarrow> FlowRole \<Rightarrow> jsstr list option \<Rightarrow> FlowNodeKind list option
       \<Rightarrow> FlowPathContext \<Rightarrow> 'a FlowGraphOptions_scheme \<Rightarrow> DashboardFlowGraph" where
  "buildFlowGraph env rows metric role palette visibleStages ctx options =
     (let stages = resolveVisibleStages role visibleStages;
          preparedPaths = preparePaths env rows metric stages ctx options;
          colors = stableColorMap env (sort_by (localeCompare env) (root_ids preparedPaths)) palette;
          color = path_color env colors palette;
          nodes = map snd (foldl (add_path_nodes color metric) [] preparedPaths);
          links = map snd (foldl (add_path_links color metric) [] preparedPaths);
          (nodes1, links1) = (if o_maskSensitive options then maskFlowGraphLabels nodes links else (nodes, links));
          (nodes2, links2) = applyFlowHighlights nodes1 links1
             (buildFlowHighlightSets preparedPaths (o_activeNode options) (o_activeLink options) stages);
          flowLinks = sort_by (\<lambda>a b. or_num (localeCompare env (l_source a) (l_source b))
                                 (localeCompare env (l_target a) (l_target b))) links2;
          firstStepSources = uniq (root_ids preparedPaths);
          totalValue = sum_list (map l_value (filter (\<lambda>link. l_source link \<in> set firstStepSources) flowLinks));
          sharedLinks = map (\<lambda>link. link\<lparr>l_share := if totalValue > 0 then l_value link / totalValue else 0\<rparr>) flowLinks
      in \<lparr>g_nodes = sort_by (byValueThenLabel env) nodes2, g_links = assignLinkDisplayColors env sharedLinks\<rparr>)"

section \<open>Filter options and the whole computation\<close>

record FlowFilterOption =
  fo_value :: jsstr
  fo_label :: jsstr
  fo_valueLabel :: jsstr
  fo_valueRaw :: rat
  fo_color :: jsstr

record FlowNodeFilterOption = FlowFilterOption +
  fo_kind :: FlowNodeKind

record FlowUserTotal =
  ut_label :: jsstr
  ut_value :: rat
  ut_color :: jsstr

definition add_user_total ::
    "FlowEnv \<Rightarrow> FlowMetric \<Rightarrow> (jsstr \<times> jsstr) list \<Rightarrow> jsstr list option \<Rightarrow> (jsstr \<times> FlowUserTotal) list
       \<Rightarrow> FlowQuotaDataItem \<Rightarrow> (jsstr \<times> FlowUserTotal) list" where
  "add_user_total env metric colors palette users row =
     (let user = userNode row in
      if numberValue (user_id row) = 0 \<and> or_text (username row) [] = [] then users
      else let current = (case map_of users (pn_id user) of
                 Some u \<Rightarrow> u
               | None \<Rightarrow> \<lparr>ut_label = pn_label user, ut_value = 0, ut_color = path_color env colors palette user\<rparr>)
           in AList.update (pn_id user)
                (current\<lparr>ut_value := ut_value current + metricValue (rowMetrics row) metric\<rparr>) users)"

definition buildUserFilterOptions ::
    "FlowEnv \<Rightarrow> FlowQuotaDataItem list \<Rightarrow> FlowMetric \<Rightarrow> jsstr list option \<Rightarrow> FlowFilterOption list" where
  "buildUserFilterOptions env rows metric palette =
     (let colors = stableColorMap env (sort_by (localeCompare env) (map (\<lambda>row. pn_id (userNode row)) rows)) palette;
          users = foldl (add_user_total env metric colors palette) [] rows
      in sort_by (\<lambda>a b. or_num (fo_valueRaw b - fo_valueRaw a) (localeCompare env (fo_label a) (fo_label b)))
           (map (\<lambda>(key, user). \<lparr>fo_value = key, fo_label = ut_label user,
                   fo_valueLabel = formatNumber env (ut_value user), fo_valueRaw = ut_value user,
                   fo_color = ut_color user\<rparr>) users))"

definition add_option_total ::
    "FlowMetric \<Rightarrow> FlowNodeKind \<Rightarrow> FlowPathContext \<Rightarrow> (jsstr \<times> FlowNodeRank) list \<Rightarrow> FlowQuotaDataItem
       \<Rightarrow> (jsstr \<times> FlowNodeRank) list" where
  "add_option_total metric stage ctx totals row =
     (let node = NODE_BUILDERS stage row ctx;
          key = nodeFilterKey (pn_kind node) (pn_id node);
          current = (case map_of totals key of Some r \<Rightarrow> r | None \<Rightarrow> \<lparr>rank_node = node, rank_value = 0\<rparr>)
      in AList.update key (current\<lparr>rank_value := rank_value current + metricValue (rowMetrics row) metric\<rparr>) totals)"

definition stage_options ::
    "FlowEnv \<Rightarrow> FlowQuotaDataItem list \<Rightarrow> FlowMetric \<Rightarrow> FlowNodeKind list \<Rightarrow> (jsstr \<times> jsstr) list \<Rightarrow> jsstr list option
       \<Rightarrow> FlowPathContext \<Rightarrow> FlowNodeFilter list option \<Rightarrow> FlowNodeKind \<Rightarrow> FlowNodeFilterOption list" where
  "stage_options env rows metric stages colors palette ctx selectedNodes stage =
     (let candidateRows = filterRowsByNodes rows (selectedNodeFiltersExceptKind selectedNodes stage) stages ctx;
          totals = foldl (add_option_total metric stage ctx) [] candidateRows
      in map (\<lambda>(key, rank).
           \<lparr>fo_value = pn_id (rank_node rank), fo_label = pn_label (rank_node rank),
            fo_valueLabel = formatNumber env (rank_value rank), fo_valueRaw = rank_value rank,
            fo_color = path_color env colors palette (rank_node rank), fo_kind = pn_kind (rank_node rank)\<rparr>) totals)"

definition stage_order :: "FlowNodeKind list \<Rightarrow> FlowNodeKind \<Rightarrow> rat" where
  "stage_order stages kind = (if kind \<in> set stages then of_nat (index_in kind stages) else 0)"

definition buildNodeFilterOptions ::
    "FlowEnv \<Rightarrow> FlowQuotaDataItem list \<Rightarrow> FlowMetric \<Rightarrow> FlowRole \<Rightarrow> FlowNodeKind list option \<Rightarrow> jsstr list option
       \<Rightarrow> FlowPathContext \<Rightarrow> FlowNodeFilter list option \<Rightarrow> FlowNodeFilterOption list" where
  "buildNodeFilterOptions env rows metric role visibleStages palette ctx selectedNodes =
     (let stages = resolveVisibleStages role visibleStages;
          colorIds = uniq (concat (map (\<lambda>row. map pn_id (flowPathForStages row stages ctx)) rows));
          colors = stableColorMap env (sort_by (localeCompare env) colorIds) palette;
          options = concat (map (stage_options env rows metric stages colors palette ctx selectedNodes) stages)
      in sort_by (\<lambda>a b. or_num (stage_order stages (fo_kind a) - stage_order stages (fo_kind b))
                     (or_num (fo_valueRaw b - fo_valueRaw a)
                       (or_num (localeCompare env (fo_label a) (fo_label b))
                         (localeCompare env (fo_value a) (fo_value b))))) options)"

definition EMPTY_FLOW_PATH_CONTEXT :: FlowPathContext where
  "EMPTY_FLOW_PATH_CONTEXT = \<lparr>ctx_deletedTokenLabel = None\<rparr>"

definition buildFlowFilterOptions ::
    "FlowEnv \<Rightarrow> FlowQuotaDataItem list \<Rightarrow> FlowMetric \<Rightarrow> jsstr list option \<Rightarrow> FlowRole \<Rightarrow> FlowNodeKind list option
       \<Rightarrow> FlowNodeFilter list option \<Rightarrow> FlowFilterOption list \<times> FlowNodeFilterOption list" where
  "buildFlowFilterOptions env rows metric palette role visibleStages selectedNodes =
     (buildUserFilterOptions env rows metric palette,
      buildNodeFilterOptions env rows metric role visibleStages palette EMPTY_FLOW_PATH_CONTEXT selectedNodes)"

record ProcessedFlowData =
  f_summary :: FlowMetrics
  f_flow :: DashboardFlowGraph
  f_users :: "FlowFilterOption list"
  f_nodes :: "FlowNodeFilterOption list"

definition buildDashboardFlowData ::
    "FlowEnv \<Rightarrow> FlowQuotaDataItem list \<Rightarrow> FlowMetric \<Rightarrow> FlowBuildOptions \<Rightarrow> ProcessedFlowData" where
  "buildDashboardFlowData env rows metric options =
     (let role = (case b_role options of Some r \<Rightarrow> r | None \<Rightarrow> DEFAULT_FLOW_ROLE);
          palette = b_colorPalette options;
          ctx = \<lparr>ctx_deletedTokenLabel = b_deletedTokenLabel options\<rparr>;
          stages = resolveVisibleStages role (b_visibleStages options);
          userFilteredRows = filterRows rows (b_selectedUsers options);
          filteredRows = filterRowsByNodes userFilteredRows (b_selectedNodes options) stages ctx
      in \<lparr>f_summary = buildSummary filteredRows,
          f_flow = buildFlowGraph env filteredRows metric role palette (b_visibleStages options) ctx options,
          f_users = buildUserFilterOptions env rows metric palette,
          f_nodes = buildNodeFilterOptions env userFilteredRows metric role (b_visibleStages options) palette ctx
                      (b_selectedNodes options)\<rparr>)"

end
