(* ===== verification/FlowProperties.thy ===== *)
theory FlowProperties
  imports FlowGraph
begin

text \<open>
  What the flow chart of the dashboard shows: metrics are conserved from the rows to the nodes of
  every stage and along the links, shares are fractions of the whole, the limit on nodes keeps the
  largest ones, node filters keep exactly the matching rows, and masked labels never appear.

  Several loops of the source add up metrics in a \<open>Map\<close>; the locale \<open>tally\<close> states what they have in
  common and holds the lemmas on sums.
\<close>

section \<open>Sorting and adding up in maps\<close>

lemma mset_insert_by [simp]: "mset (insert_by cmp x ys) = add_mset x (mset ys)"
  by (induction ys) auto

lemma mset_sort_by [simp]: "mset (sort_by cmp xs) = mset xs"
  by (induction xs) (simp_all add: sort_by_def)

lemma set_sort_by [simp]: "set (sort_by cmp xs) = set xs"
  by (rule mset_eq_setD) simp

lemma length_sort_by [simp]: "length (sort_by cmp xs) = length xs"
  by (rule mset_eq_length) simp

text \<open>A comparison that decides first by a value puts larger values first.\<close>

lemma sort_by_value:
  assumes "\<And>a b. cmp a b = or_num (f b - f a) (rest a b)"
  shows "sorted_wrt (\<lambda>a b. f b \<le> f a) (sort_by cmp xs)"
proof -
  have ins: "sorted_wrt (\<lambda>a b. f b \<le> f a) ys \<Longrightarrow> sorted_wrt (\<lambda>a b. f b \<le> f a) (insert_by cmp x ys)" for x ys
  proof (induction ys)
    case (Cons y ys)
    have set: "set (insert_by cmp x ys) = insert x (set ys)"
      by (metis mset_insert_by set_mset_add_mset_insert set_mset_mset)
    show ?case
    proof (cases "cmp x y \<le> 0")
      case True
      then have "f y \<le> f x" by (simp add: assms or_num_def split: if_splits)
      then show ?thesis using True Cons.prems by fastforce
    next
      case False
      then have "f x \<le> f y" by (simp add: assms or_num_def split: if_splits)
      then show ?thesis using False Cons set by auto
    qed
  qed simp
  show ?thesis by (induction xs) (simp_all add: sort_by_def ins)
qed

lemma map_of_in_set: "distinct (map fst m) \<Longrightarrow> map_of m k = Some v \<longleftrightarrow> (k, v) \<in> set m"
  by (rule map_of_eq_Some_iff)

lemma sum_update:
  fixes f :: "'k \<Rightarrow> 'v \<Rightarrow> rat"
  assumes "distinct (map fst m)"
  shows "(\<Sum>(k, v)\<leftarrow>AList.update k0 v0 m. f k v)
    = (\<Sum>(k, v)\<leftarrow>m. f k v) - (case map_of m k0 of None \<Rightarrow> 0 | Some v \<Rightarrow> f k0 v) + f k0 v0"
  using assms by (induction m) (auto split: option.splits)

locale tally =
  fixes step :: "('k \<times> 'v) list \<Rightarrow> 'e \<Rightarrow> ('k \<times> 'v) list"
    and key :: "'e \<Rightarrow> 'k" and fresh :: "'e \<Rightarrow> 'v" and add :: "'e \<Rightarrow> 'v \<Rightarrow> 'v"
    and measured :: "'v \<Rightarrow> rat" and weight :: "'e \<Rightarrow> rat"
  assumes step: "step m e = AList.update (key e) (add e (case map_of m (key e) of None \<Rightarrow> fresh e | Some v \<Rightarrow> v)) m"
    and fresh: "measured (fresh e) = 0"
    and add: "measured (add e v) = measured v + weight e"
begin

lemma distinct_keys: "distinct (map fst m) \<Longrightarrow> distinct (map fst (foldl step m es))"
  by (induction es arbitrary: m) (simp_all add: step distinct_update)

lemma keys: "fst ` set (foldl step m es) = fst ` set m \<union> key ` set es"
  by (induction es arbitrary: m) (auto simp: step update_keys dom_map_of_conv_image_fst [symmetric] update_conv' dest: equalityD1)

lemma sum_entries:
  assumes "distinct (map fst m)"
  shows "(\<Sum>(k, v)\<leftarrow>foldl step m es. if P k then measured v else 0)
    = (\<Sum>(k, v)\<leftarrow>m. if P k then measured v else 0) + (\<Sum>e\<leftarrow>es. if P (key e) then weight e else 0)"
  using assms
proof (induction es arbitrary: m)
  case (Cons e es)
  have d: "distinct (map fst (step m e))" using Cons.prems by (simp add: step distinct_update)
  have "(\<Sum>(k, v)\<leftarrow>step m e. if P k then measured v else 0)
      = (\<Sum>(k, v)\<leftarrow>m. if P k then measured v else 0) + (if P (key e) then weight e else 0)"
    unfolding step by (subst sum_update [OF Cons.prems]) (simp add: fresh add split: option.split)
  then show ?case using Cons.IH [OF d] by simp
qed simp

lemma entry_value:
  assumes "(k, v) \<in> set (foldl step [] es)"
  shows "measured v = (\<Sum>e\<leftarrow>es. if key e = k then weight e else 0)"
proof -
  let ?m = "foldl step [] es"
  have d: "distinct (map fst ?m)" by (simp add: distinct_keys)
  have "(\<Sum>(k', v)\<leftarrow>xs. if k' = k then measured v else 0) = (case map_of xs k of None \<Rightarrow> 0 | Some v \<Rightarrow> measured v)"
    if "distinct (map fst xs)" for xs
    using that by (induction xs) (auto split: option.splits simp: rev_image_eqI)
  from this [OF d] show ?thesis
    using sum_entries [of "[]" "\<lambda>k'. k' = k" es] assms d by simp
qed

lemma entries:
  assumes "\<And>e. e \<in> set es \<Longrightarrow> I (key e) (fresh e)"
    and "\<And>e v. e \<in> set es \<Longrightarrow> I (key e) v \<Longrightarrow> I (key e) (add e v)"
    and "\<And>k v. (k, v) \<in> set m \<Longrightarrow> I k v" and "distinct (map fst m)"
    and "(k, v) \<in> set (foldl step m es)"
  shows "I k v"
  using assms
proof (induction es arbitrary: m)
  case (Cons e es)
  have d: "distinct (map fst (step m e))" using Cons.prems(4) by (simp add: step distinct_update)
  have "I k' v'" if "(k', v') \<in> set (step m e)" for k' v'
  proof -
    have "map_of (step m e) k' = Some v'" using that d by (simp add: map_of_in_set)
    then have "k' = key e \<and> v' = add e (case map_of m (key e) of None \<Rightarrow> fresh e | Some v \<Rightarrow> v) \<or> map_of m k' = Some v'"
      by (auto simp: step update_conv' split: if_splits)
    then show ?thesis
      using Cons.prems(1-3) by (auto split: option.splits dest: map_of_SomeD)
  qed
  then show ?case using Cons.IH [of "step m e"] Cons.prems d by auto
qed simp

end

section \<open>Paths\<close>

definition kind_prefix :: "FlowNodeKind \<Rightarrow> jsstr" where
  "kind_prefix k = kind_text k @ [58]"

definition kind_id :: "FlowPathNode \<Rightarrow> bool" where
  "kind_id n \<longleftrightarrow> prefix (kind_prefix (pn_kind n)) (pn_id n)"

definition path_ok :: "FlowNodeKind list \<Rightarrow> FlowPathNode list \<Rightarrow> bool" where
  "path_ok stages path \<longleftrightarrow> map pn_kind path = stages \<and> (\<forall>n \<in> set path. kind_id n)"

text \<open>The kind of a node can be read off its identifier.\<close>

lemma kind_prefix_unique: "prefix (kind_prefix j) i \<Longrightarrow> prefix (kind_prefix k) i \<Longrightarrow> j = k"
proof -
  assume "prefix (kind_prefix j) i" "prefix (kind_prefix k) i"
  then have "prefix (kind_prefix j) (kind_prefix k) \<or> prefix (kind_prefix k) (kind_prefix j)"
    using prefix_same_cases by blast
  then show "j = k" by (cases j; cases k) (simp_all add: kind_prefix_def js_eval)
qed

lemma kind_of_id: "kind_id a \<Longrightarrow> kind_id b \<Longrightarrow> pn_id a = pn_id b \<Longrightarrow> pn_kind a = pn_kind b"
  unfolding kind_id_def using kind_prefix_unique by metis

lemma builder_kind [simp]: "pn_kind (NODE_BUILDERS k row ctx) = k"
  by (cases k) (simp_all add: userNode_def nodeNameNode_def tokenNode_def groupNode_def modelNode_def
      channelNode_def Let_def)

lemma builder_kind_id [simp]: "kind_id (NODE_BUILDERS k row ctx)"
  by (cases k) (simp_all add: kind_id_def kind_prefix_def userNode_def nodeNameNode_def tokenNode_def groupNode_def
      modelNode_def channelNode_def Let_def js_eval)

lemma other_kind [simp]: "pn_kind (otherFlowNode k l) = k" "kind_id (otherFlowNode k l)"
  by (simp_all add: otherFlowNode_def kind_id_def kind_prefix_def) (cases k; simp add: js_eval)

lemma stages_distinct [simp]: "distinct (resolveVisibleStages role visible)"
  by (cases role) (simp_all add: resolveVisibleStages_def Let_def split: option.split)

lemma stages_length: "2 \<le> length (resolveVisibleStages role visible)"
  by (cases role) (simp_all add: resolveVisibleStages_def Let_def MIN_FLOW_STAGES_def split: option.split)

lemma path_ok_stages: "path_ok stages (flowPathForStages row stages ctx)"
  by (simp add: path_ok_def flowPathForStages_def comp_def)

lemma path_ok_limited:
  "path_ok stages path \<Longrightarrow> applyTopNodeLimit path sets mode labeler = Some path' \<Longrightarrow> path_ok stages path'"
  by (auto simp: path_ok_def applyTopNodeLimit_def comp_def if_distrib [of pn_kind] split: option.splits if_splits
      cong: map_cong)

lemma prepared_ok: "p \<in> set (preparePaths env rows metric stages ctx options) \<Longrightarrow> path_ok stages (p_path p)"
  using path_ok_limited [OF path_ok_stages]
  by (auto simp: preparePaths_def List.map_filter_def prepared_path_def Let_def)

lemma path_ids_distinct:
  assumes "path_ok stages path" "distinct stages"
  shows "distinct (map pn_id path)"
proof -
  have "inj_on pn_kind (set path)" "distinct path"
    using assms by (auto simp: path_ok_def distinct_map)
  then show ?thesis
    using assms kind_of_id unfolding distinct_map inj_on_def path_ok_def by metis
qed

section \<open>Nodes and links as tallies\<close>

fun n_metric :: "FlowMetric \<Rightarrow> DashboardFlowNode \<Rightarrow> rat" where
  "n_metric MetricRequests n = n_requests n"
| "n_metric MetricTokens n = n_tokens n"
| "n_metric MetricQuota n = n_quota n"

fun l_metric :: "FlowMetric \<Rightarrow> DashboardFlowLink \<Rightarrow> rat" where
  "l_metric MetricRequests l = l_requests l"
| "l_metric MetricTokens l = l_tokens l"
| "l_metric MetricQuota l = l_quota l"

type_synonym node_event = "FlowPathNode \<times> PreparedFlowPath"
type_synonym link_event = "(FlowPathNode \<times> FlowPathNode) \<times> PreparedFlowPath"

definition node_step ::
    "(FlowPathNode \<Rightarrow> jsstr) \<Rightarrow> FlowMetric \<Rightarrow> (jsstr \<times> DashboardFlowNode) list \<Rightarrow> node_event
       \<Rightarrow> (jsstr \<times> DashboardFlowNode) list" where
  "node_step color metric m e =
     addNode m (fst e) (p_metrics (snd e)) metric (color (hd (p_path (snd e)))) (pn_id (hd (p_path (snd e))))"

definition fresh_node :: "(FlowPathNode \<Rightarrow> jsstr) \<Rightarrow> node_event \<Rightarrow> DashboardFlowNode" where
  "fresh_node color e =
     \<lparr>n_id = pn_id (fst e), n_label = pn_label (fst e), n_kind = pn_kind (fst e), n_value = 0, n_requests = 0,
      n_quota = 0, n_tokens = 0, n_color = color (hd (p_path (snd e))), n_colorKey = pn_id (hd (p_path (snd e))),
      n_highlighted = None, n_dimmed = None\<rparr>"

definition grow_node :: "FlowMetric \<Rightarrow> node_event \<Rightarrow> DashboardFlowNode \<Rightarrow> DashboardFlowNode" where
  "grow_node metric e n =
     (let metrics = p_metrics (snd e) in
      n\<lparr>n_value := n_value n + metricValue metrics metric, n_requests := n_requests n + m_requests metrics,
        n_quota := n_quota n + m_quota metrics, n_tokens := n_tokens n + m_tokens metrics\<rparr>)"

definition link_step ::
    "(FlowPathNode \<Rightarrow> jsstr) \<Rightarrow> FlowMetric \<Rightarrow> (jsstr \<times> DashboardFlowLink) list \<Rightarrow> link_event
       \<Rightarrow> (jsstr \<times> DashboardFlowLink) list" where
  "link_step color metric m e =
     addLink m (fst (fst e)) (snd (fst e)) (p_metrics (snd e)) metric (color (hd (p_path (snd e))))
       (pn_id (hd (p_path (snd e))))"

definition fresh_link :: "(FlowPathNode \<Rightarrow> jsstr) \<Rightarrow> link_event \<Rightarrow> DashboardFlowLink" where
  "fresh_link color e =
     (let c = color (hd (p_path (snd e))) in
      \<lparr>l_source = pn_id (fst (fst e)), l_target = pn_id (snd (fst e)), l_value = 0, l_requests = 0, l_quota = 0,
       l_tokens = 0, l_sourceLabel = pn_label (fst (fst e)), l_targetLabel = pn_label (snd (fst e)),
       l_color = c, l_linkColor = c, l_linkAlpha = 1, l_hoverColor = c,
       l_colorKey = pn_id (hd (p_path (snd e))), l_share = 0, l_highlighted = None, l_dimmed = None\<rparr>)"

definition grow_link :: "FlowMetric \<Rightarrow> link_event \<Rightarrow> DashboardFlowLink \<Rightarrow> DashboardFlowLink" where
  "grow_link metric e l =
     (let metrics = p_metrics (snd e) in
      l\<lparr>l_value := l_value l + metricValue metrics metric, l_requests := l_requests l + m_requests metrics,
        l_quota := l_quota l + m_quota metrics, l_tokens := l_tokens l + m_tokens metrics\<rparr>)"

definition link_key :: "link_event \<Rightarrow> jsstr" where
  "link_key e = pathLinkKey (fst (fst e)) (snd (fst e))"

lemma node_step_tally:
  "node_step color metric m e = AList.update (pn_id (fst e))
     (grow_node metric e (case map_of m (pn_id (fst e)) of None \<Rightarrow> fresh_node color e | Some v \<Rightarrow> v)) m"
  by (simp add: node_step_def addNode_def grow_node_def fresh_node_def Let_def split: option.split)

lemma link_step_tally:
  "link_step color metric m e = AList.update (link_key e)
     (grow_link metric e (case map_of m (link_key e) of None \<Rightarrow> fresh_link color e | Some v \<Rightarrow> v)) m"
  by (simp add: link_step_def addLink_def grow_link_def fresh_link_def link_key_def pathLinkKey_def Let_def
      split: option.split)

interpretation node_sum: tally "node_step color metric" "pn_id \<circ> fst" "fresh_node color" "grow_node metric"
    "n_metric metric'" "\<lambda>e. metricValue (p_metrics (snd e)) metric'" for color metric metric'
  by unfold_locales
    (simp_all add: node_step_tally, (cases metric'; simp add: fresh_node_def grow_node_def Let_def)+)

interpretation link_sum: tally "link_step color metric" link_key "fresh_link color" "grow_link metric"
    "l_metric metric'" "\<lambda>e. metricValue (p_metrics (snd e)) metric'" for color metric metric'
  by unfold_locales
    (simp_all add: link_step_tally, (cases metric'; simp add: fresh_link_def grow_link_def Let_def)+)

section \<open>The graph holds the tallies\<close>

definition node_events :: "PreparedFlowPath list \<Rightarrow> node_event list" where
  "node_events pp = concat (map (\<lambda>p. map (\<lambda>n. (n, p)) (p_path p)) pp)"

definition link_events :: "PreparedFlowPath list \<Rightarrow> link_event list" where
  "link_events pp = concat (map (\<lambda>p. map (\<lambda>e. (e, p)) (path_pairs (p_path p))) pp)"

text \<open>What masking, highlighting, shares and display colors leave alone.\<close>

definition node_core :: "DashboardFlowNode \<Rightarrow> DashboardFlowNode" where
  "node_core n = n\<lparr>n_label := [], n_highlighted := None, n_dimmed := None\<rparr>"

definition link_core :: "DashboardFlowLink \<Rightarrow> DashboardFlowLink" where
  "link_core l = l\<lparr>l_sourceLabel := [], l_targetLabel := [], l_linkColor := [], l_linkAlpha := 0,
     l_hoverColor := [], l_share := 0, l_highlighted := None, l_dimmed := None\<rparr>"

lemma foldl_concat_map: "foldl (\<lambda>m p. foldl f m (g p)) m ps = foldl f m (concat (map g ps))"
  by (induction ps arbitrary: m) simp_all

lemma add_path_nodes_steps: "add_path_nodes color metric m p = foldl (node_step color metric) m (map (\<lambda>n. (n, p)) (p_path p))"
  by (simp add: add_path_nodes_def node_step_def foldl_map split: list.split)

lemma add_path_links_steps:
  "add_path_links color metric m p = foldl (link_step color metric) m (map (\<lambda>e. (e, p)) (path_pairs (p_path p)))"
  by (simp add: add_path_links_def link_step_def foldl_map path_pairs_def case_prod_unfold split: list.split)

lemma nodes_fold: "foldl (add_path_nodes color metric) [] pp = foldl (node_step color metric) [] (node_events pp)"
  unfolding node_events_def foldl_concat_map [symmetric] by (simp add: add_path_nodes_steps [abs_def])

lemma links_fold: "foldl (add_path_links color metric) [] pp = foldl (link_step color metric) [] (link_events pp)"
  unfolding link_events_def foldl_concat_map [symmetric] by (simp add: add_path_links_steps [abs_def])

lemma node_core_mask: "map node_core (fst (maskFlowGraphLabels ns ls)) = map node_core ns"
  by (simp add: maskFlowGraphLabels_def Let_def node_core_def)

lemma link_core_mask_link: "link_core (mask_link m l) = link_core l"
  by (simp add: mask_link_def link_core_def Let_def split: option.split)

lemma link_core_mask: "map link_core (snd (maskFlowGraphLabels ns ls)) = map link_core ls"
  by (simp add: maskFlowGraphLabels_def Let_def link_core_mask_link)

lemma core_highlight:
  "map node_core (fst (applyFlowHighlights ns ls h)) = map node_core ns"
  "map link_core (snd (applyFlowHighlights ns ls h)) = map link_core ls"
  by (simp_all add: applyFlowHighlights_def node_core_def link_core_def highlight_node_def highlight_link_def Let_def
      split: option.split prod.split)

lemma link_core_display: "map link_core (assignLinkDisplayColors env ls) = map link_core ls"
  by (simp add: assignLinkDisplayColors_def Let_def link_core_def)

lemma link_core_share: "link_core (l\<lparr>l_share := x\<rparr>) = link_core l"
  by (simp add: link_core_def)

definition graph_color ::
    "FlowEnv \<Rightarrow> jsstr list option \<Rightarrow> PreparedFlowPath list \<Rightarrow> FlowPathNode \<Rightarrow> jsstr" where
  "graph_color env palette pp =
     path_color env (stableColorMap env (sort_by (localeCompare env) (root_ids pp)) palette) palette"

definition tallied_nodes ::
    "FlowEnv \<Rightarrow> jsstr list option \<Rightarrow> FlowMetric \<Rightarrow> PreparedFlowPath list \<Rightarrow> (jsstr \<times> DashboardFlowNode) list" where
  "tallied_nodes env palette metric pp = foldl (node_step (graph_color env palette pp) metric) [] (node_events pp)"

definition tallied_links ::
    "FlowEnv \<Rightarrow> jsstr list option \<Rightarrow> FlowMetric \<Rightarrow> PreparedFlowPath list \<Rightarrow> (jsstr \<times> DashboardFlowLink) list" where
  "tallied_links env palette metric pp = foldl (link_step (graph_color env palette pp) metric) [] (link_events pp)"

definition graph_paths ::
    "FlowEnv \<Rightarrow> FlowQuotaDataItem list \<Rightarrow> FlowMetric \<Rightarrow> FlowRole \<Rightarrow> FlowNodeKind list option \<Rightarrow> FlowPathContext
       \<Rightarrow> 'a FlowGraphOptions_scheme \<Rightarrow> PreparedFlowPath list" where
  "graph_paths env rows metric role visible ctx options =
     preparePaths env rows metric (resolveVisibleStages role visible) ctx options"

lemma graph_nodes_core:
  shows "image_mset node_core (mset (g_nodes (buildFlowGraph env rows metric role palette visible ctx options)))
    = mset (map node_core (map snd (tallied_nodes env palette metric (graph_paths env rows metric role visible ctx options))))"
  unfolding buildFlowGraph_def graph_paths_def [symmetric] graph_color_def [symmetric] nodes_fold tallied_nodes_def Let_def
  by (simp only: case_prod_unfold DashboardFlowGraph.simps mset_sort_by mset_map [symmetric] core_highlight)
    (cases "o_maskSensitive options"; simp only: if_True if_False fst_conv node_core_mask)

lemma graph_links_core:
  shows "image_mset link_core (mset (g_links (buildFlowGraph env rows metric role palette visible ctx options)))
    = mset (map link_core (map snd (tallied_links env palette metric (graph_paths env rows metric role visible ctx options))))"
proof -
  have s: "mset (map link_core (sort_by c ls)) = mset (map link_core ls)" for c ls by simp
  have sh: "map link_core (map (\<lambda>l. l\<lparr>l_share := f l\<rparr>) ls) = map link_core ls" for f ls
    by (simp add: link_core_share)
  show ?thesis
    unfolding buildFlowGraph_def graph_paths_def [symmetric] graph_color_def [symmetric] links_fold tallied_links_def Let_def
    by (simp only: case_prod_unfold DashboardFlowGraph.simps mset_map [symmetric] link_core_display sh s core_highlight)
      (cases "o_maskSensitive options"; simp only: if_True if_False snd_conv link_core_mask)
qed

text \<open>Sums over the graph are sums over the tallies.\<close>

lemma sum_list_mset: "mset xs = mset ys \<Longrightarrow> sum_list xs = sum_list (ys :: rat list)"
  by (metis sum_mset_sum_list)

lemma sum_graph_nodes:
  fixes F :: "DashboardFlowNode \<Rightarrow> rat"
  assumes "\<And>n. F (node_core n) = F n"
  shows "sum_list (map F (g_nodes (buildFlowGraph env rows metric role palette visible ctx options)))
    = (\<Sum>(k, n)\<leftarrow>tallied_nodes env palette metric (graph_paths env rows metric role visible ctx options). F n)"
proof -
  let ?g = "g_nodes (buildFlowGraph env rows metric role palette visible ctx options)"
  have "image_mset F (mset ?g) = image_mset F (image_mset node_core (mset ?g))"
    by (simp add: multiset.map_comp comp_def assms)
  then show ?thesis
    unfolding graph_nodes_core
    by (intro sum_list_mset) (simp add: case_prod_unfold multiset.map_comp comp_def assms)
qed

lemma sum_graph_links:
  fixes F :: "DashboardFlowLink \<Rightarrow> rat"
  assumes "\<And>n. F (link_core n) = F n"
  shows "sum_list (map F (g_links (buildFlowGraph env rows metric role palette visible ctx options)))
    = (\<Sum>(k, n)\<leftarrow>tallied_links env palette metric (graph_paths env rows metric role visible ctx options). F n)"
proof -
  let ?g = "g_links (buildFlowGraph env rows metric role palette visible ctx options)"
  have "image_mset F (mset ?g) = image_mset F (image_mset link_core (mset ?g))"
    by (simp add: multiset.map_comp comp_def assms)
  then show ?thesis
    unfolding graph_links_core
    by (intro sum_list_mset) (simp add: case_prod_unfold multiset.map_comp comp_def assms)
qed

section \<open>Conservation\<close>

lemma sum_indicator: "distinct xs \<Longrightarrow> (\<Sum>x\<leftarrow>xs. if x = y then w else 0) = (if y \<in> set xs then w else (0 :: rat))"
  by (induction xs) auto

lemma sum_indicator_map:
  assumes "distinct (map f xs)"
  shows "(\<Sum>x\<leftarrow>xs. if f x = y then w else 0) = (if y \<in> f ` set xs then w else (0 :: rat))"
  using sum_indicator [OF assms, of y w] by (simp add: comp_def)

lemma sum_concat_map: "(\<Sum>e\<leftarrow>concat (map g ps). f e) = (\<Sum>p\<leftarrow>ps. \<Sum>e\<leftarrow>g p. (f e :: rat))"
  by (induction ps) simp_all

lemma summary_sum: "metricValue (buildSummary rows) m = (\<Sum>row\<leftarrow>rows. metricValue (rowMetrics row) m)"
proof -
  have "metricValue (foldl summary_step a rows) m = metricValue a m + (\<Sum>row\<leftarrow>rows. metricValue (rowMetrics row) m)" for a
    by (induction rows arbitrary: a) (simp_all, cases m, simp_all add: summary_step_def Let_def)
  then show ?thesis by (cases m) (simp_all add: buildSummary_def)
qed

text \<open>Rows are lost only when overflowing nodes are hidden.\<close>

definition keeps_rows :: "'a FlowGraphOptions_scheme \<Rightarrow> bool" where
  "keeps_rows options \<longleftrightarrow> o_overflowMode options \<noteq> Some Hide \<or> normalizeTopNodeLimit (o_topNodeLimit options) = None"

lemma map_filter_all:
  "\<forall>x \<in> set xs. \<exists>y. f x = Some y \<and> g y = h x \<Longrightarrow> map g (List.map_filter f xs) = map h xs"
  by (induction xs) (auto simp: List.map_filter_def)

lemma paths_keep_metrics:
  assumes "keeps_rows options"
  shows "map p_metrics (graph_paths env rows metric role visible ctx options) = map rowMetrics rows"
  unfolding graph_paths_def preparePaths_def Let_def
proof (rule map_filter_all, rule ballI)
  fix row
  show "\<exists>y. prepared_path (resolveVisibleStages role visible) ctx
       (buildTopNodeSets env rows metric (resolveVisibleStages role visible)
         (normalizeTopNodeLimit (o_topNodeLimit options)) ctx) options row = Some y \<and> p_metrics y = rowMetrics row"
    using assms by (auto simp: keeps_rows_def prepared_path_def applyTopNodeLimit_def buildTopNodeSets_def
        DEFAULT_FLOW_OVERFLOW_MODE_def split: option.splits)
qed

lemma paths_total:
  assumes "keeps_rows options"
  shows "(\<Sum>p\<leftarrow>graph_paths env rows metric role visible ctx options. metricValue (p_metrics p) m)
    = metricValue (buildSummary rows) m"
proof -
  let ?pp = "graph_paths env rows metric role visible ctx options"
  have "(\<Sum>p\<leftarrow>?pp. metricValue (p_metrics p) m) = (\<Sum>q\<leftarrow>map p_metrics ?pp. metricValue q m)"
    by (simp add: comp_def)
  then show ?thesis unfolding paths_keep_metrics [OF assms] by (simp add: summary_sum comp_def)
qed

lemma tallied_node_facts:
  assumes "(i, n) \<in> set (tallied_nodes env palette metric pp)" "\<forall>p \<in> set pp. path_ok stages (p_path p)"
  shows "n_id n = i \<and> prefix (kind_prefix (n_kind n)) i \<and> n_kind n \<in> set stages \<and> n_value n = n_metric metric n"
proof (rule node_sum.entries [OF _ _ _ _ assms(1) [unfolded tallied_nodes_def],
        where I = "\<lambda>i n. n_id n = i \<and> prefix (kind_prefix (n_kind n)) i \<and> n_kind n \<in> set stages \<and> n_value n = n_metric metric n"])
  fix e assume "e \<in> set (node_events pp)"
  then have "fst e \<in> set (p_path (snd e))" "path_ok stages (p_path (snd e))"
    using assms(2) by (auto simp: node_events_def)
  then have "kind_id (fst e)" "pn_kind (fst e) \<in> set stages"
    by (auto simp: path_ok_def)
  then show "n_id (fresh_node c e) = (pn_id \<circ> fst) e \<and> prefix (kind_prefix (n_kind (fresh_node c e))) ((pn_id \<circ> fst) e)
      \<and> n_kind (fresh_node c e) \<in> set stages \<and> n_value (fresh_node c e) = n_metric metric (fresh_node c e)" for c
    by (cases metric) (simp_all add: fresh_node_def kind_id_def)
next
  fix e :: node_event and n
  assume "n_id n = (pn_id \<circ> fst) e \<and> prefix (kind_prefix (n_kind n)) ((pn_id \<circ> fst) e) \<and> n_kind n \<in> set stages
      \<and> n_value n = n_metric metric n"
  then show "n_id (grow_node metric e n) = (pn_id \<circ> fst) e
      \<and> prefix (kind_prefix (n_kind (grow_node metric e n))) ((pn_id \<circ> fst) e)
      \<and> n_kind (grow_node metric e n) \<in> set stages
      \<and> n_value (grow_node metric e n) = n_metric metric (grow_node metric e n)"
    by (cases metric) (simp_all add: grow_node_def Let_def)
qed simp_all

text \<open>The nodes of a stage together carry the metrics of all paths.\<close>

lemma stage_sum:
  assumes ok: "\<forall>p \<in> set pp. path_ok stages (p_path p)" and "distinct stages" "k \<in> set stages"
  shows "(\<Sum>(i, n)\<leftarrow>tallied_nodes env palette metric pp. if n_kind n = k then n_metric m n else 0)
    = (\<Sum>p\<leftarrow>pp. metricValue (p_metrics p) m)"
proof -
  let ?P = "prefix (kind_prefix k)"
  have kind: "n_kind n = k \<longleftrightarrow> ?P i" if "(i, n) \<in> set (tallied_nodes env palette metric pp)" for i n
    using tallied_node_facts [OF that ok] kind_prefix_unique by metis
  have "(\<Sum>(i, n)\<leftarrow>tallied_nodes env palette metric pp. if n_kind n = k then n_metric m n else 0)
      = (\<Sum>(i, n)\<leftarrow>tallied_nodes env palette metric pp. if ?P i then n_metric m n else 0)"
    by (rule arg_cong [where f = sum_list], rule map_cong [OF refl]) (clarsimp simp: kind)
  also have "\<dots> = (\<Sum>e\<leftarrow>node_events pp. if ?P (pn_id (fst e)) then metricValue (p_metrics (snd e)) m else 0)"
    unfolding tallied_nodes_def by (subst node_sum.sum_entries) simp_all
  also have "\<dots> = (\<Sum>p\<leftarrow>pp. \<Sum>n\<leftarrow>p_path p. if ?P (pn_id n) then metricValue (p_metrics p) m else 0)"
    by (simp add: node_events_def sum_concat_map comp_def cong: if_cong)
  also have "\<dots> = (\<Sum>p\<leftarrow>pp. metricValue (p_metrics p) m)"
  proof (rule arg_cong [where f = sum_list], rule map_cong [OF refl])
    fix p assume "p \<in> set pp"
    then have p: "path_ok stages (p_path p)" using ok by blast
    then have "(\<Sum>n\<leftarrow>p_path p. if ?P (pn_id n) then metricValue (p_metrics p) m else 0)
        = (\<Sum>n\<leftarrow>p_path p. if pn_kind n = k then metricValue (p_metrics p) m else 0)"
      by (intro arg_cong [where f = sum_list] map_cong [OF refl])
        (metis kind_id_def kind_prefix_unique path_ok_def)
    also have "\<dots> = metricValue (p_metrics p) m"
      using p assms(2,3) by (subst sum_indicator_map) (auto simp: path_ok_def)
    finally show "(\<Sum>n\<leftarrow>p_path p. if ?P (pn_id n) then metricValue (p_metrics p) m else 0) = metricValue (p_metrics p) m" .
  qed
  finally show ?thesis .
qed

text \<open>A node carries the metrics of the paths through it.\<close>

lemma node_sum_paths:
  assumes "(i, n) \<in> set (tallied_nodes env palette metric pp)"
    and ok: "\<forall>p \<in> set pp. path_ok stages (p_path p)" and "distinct stages"
  shows "n_metric m n = (\<Sum>p\<leftarrow>pp. if i \<in> pn_id ` set (p_path p) then metricValue (p_metrics p) m else 0)"
proof -
  have "n_metric m n = (\<Sum>e\<leftarrow>node_events pp. if pn_id (fst e) = i then metricValue (p_metrics (snd e)) m else 0)"
    using node_sum.entry_value [OF assms(1) [unfolded tallied_nodes_def], of m] by simp
  also have "\<dots> = (\<Sum>p\<leftarrow>pp. \<Sum>n\<leftarrow>p_path p. if pn_id n = i then metricValue (p_metrics p) m else 0)"
    by (simp add: node_events_def sum_concat_map comp_def cong: if_cong)
  also have "\<dots> = (\<Sum>p\<leftarrow>pp. if i \<in> pn_id ` set (p_path p) then metricValue (p_metrics p) m else 0)"
    using ok path_ids_distinct [OF _ assms(3)]
    by (intro arg_cong [where f = sum_list] map_cong [OF refl] sum_indicator_map) blast
  finally show ?thesis .
qed

section \<open>Links\<close>

text \<open>The key of a link joins two identifiers with a NUL unit; names without one keep links apart.\<close>

definition no_nul :: "FlowQuotaDataItem \<Rightarrow> bool" where
  "no_nul row \<longleftrightarrow> list_all (\<lambda>t. 0 \<notin> set (or_text t []))
     [username row, node_name row, use_group row, token_name row, channel_name row, model_name row]"

definition ids_ok :: "PreparedFlowPath list \<Rightarrow> bool" where
  "ids_ok pp \<longleftrightarrow> (\<forall>p \<in> set pp. \<forall>n \<in> set (p_path p). 0 \<notin> set (pn_id n))"

lemma num_text_no_nul [simp]: "0 \<notin> set (num_text q)"
proof -
  have d: "0 \<notin> set (nat_digits n)" for n using nat_digits_digit [of 0 n] by (auto simp: is_digit_def)
  have "0 \<notin> set (decimal_text m e)" for m e
  proof -
    have "hd (nat_digits m) \<noteq> 0" using hd_nat_digits_digit [of m] by (auto simp: is_digit_def)
    moreover have "0 \<notin> set (tl (nat_digits m))" using d [of m] by (cases "nat_digits m") auto
    ultimately show ?thesis
      using d by (auto simp: decimal_text_def Let_def dest: in_set_takeD in_set_dropD)
  qed
  then show ?thesis by (auto simp: num_text_def split: prod.splits)
qed

lemma or_text_no_nul: "0 \<notin> set (or_text t []) \<Longrightarrow> 0 \<notin> set d \<Longrightarrow> 0 \<notin> set (or_text t d)"
  by (auto simp: or_text_def split: option.splits if_splits)

lemma builder_no_nul: "no_nul row \<Longrightarrow> 0 \<notin> set (pn_id (NODE_BUILDERS k row ctx))"
  using or_text_no_nul
  by (cases k) (simp_all add: no_nul_def userNode_def nodeNameNode_def tokenNode_def groupNode_def modelNode_def
      channelNode_def Let_def js_eval)

lemma other_no_nul: "0 \<notin> set (pn_id (otherFlowNode k l))"
  by (cases k) (simp_all add: otherFlowNode_def js_eval)

lemma limited_nodes:
  "applyTopNodeLimit path sets mode labeler = Some path' \<Longrightarrow> n \<in> set path'
     \<Longrightarrow> n \<in> set path \<or> (\<exists>k. n = otherFlowNode k labeler)"
  by (auto simp: applyTopNodeLimit_def split: option.splits if_splits)

lemma paths_ids_ok:
  assumes "\<forall>row \<in> set rows. no_nul row"
  shows "ids_ok (graph_paths env rows metric role visible ctx options)"
  unfolding ids_ok_def
proof (intro ballI)
  fix p n assume "p \<in> set (graph_paths env rows metric role visible ctx options)" "n \<in> set (p_path p)"
  then obtain row sets mode where "row \<in> set rows"
      "applyTopNodeLimit (flowPathForStages row (resolveVisibleStages role visible) ctx) sets mode (o_otherNodeLabel options)
        = Some (p_path p)"
    unfolding graph_paths_def preparePaths_def prepared_path_def List.map_filter_def Let_def by auto
  then show "0 \<notin> set (pn_id n)"
    using limited_nodes [OF _ \<open>n \<in> set (p_path p)\<close>] assms builder_no_nul other_no_nul
    by (fastforce simp: flowPathForStages_def)
qed

lemma split_key: "0 \<notin> set s \<Longrightarrow> takeWhile (\<lambda>c. c \<noteq> 0) (s @ 0 # t) = s \<and> tl (dropWhile (\<lambda>c. c \<noteq> 0) (s @ 0 # t)) = t"
  for s :: jsstr
  by (induction s) auto

lemma pair_in_path: "(a, b) \<in> set (path_pairs path) \<Longrightarrow> a \<in> set path \<and> b \<in> set path"
  by (cases path) (auto simp: path_pairs_def dest: set_zip_leftD set_zip_rightD)

lemma link_event_nodes:
  "e \<in> set (link_events pp) \<Longrightarrow> snd e \<in> set pp \<and> fst (fst e) \<in> set (p_path (snd e)) \<and> snd (fst e) \<in> set (p_path (snd e))"
  by (auto simp: link_events_def dest: pair_in_path)

lemma tallied_link_facts:
  assumes "(k, l) \<in> set (tallied_links env palette metric pp)" "ids_ok pp"
  shows "k = l_source l @ 0 # l_target l \<and> 0 \<notin> set (l_source l) \<and> l_value l = l_metric metric l"
proof (rule link_sum.entries [OF _ _ _ _ assms(1) [unfolded tallied_links_def],
        where I = "\<lambda>k l. k = l_source l @ 0 # l_target l \<and> 0 \<notin> set (l_source l) \<and> l_value l = l_metric metric l"])
  fix e assume "e \<in> set (link_events pp)"
  then have "0 \<notin> set (pn_id (fst (fst e)))" using link_event_nodes assms(2) unfolding ids_ok_def by blast
  then show "link_key e = l_source (fresh_link c e) @ 0 # l_target (fresh_link c e) \<and> 0 \<notin> set (l_source (fresh_link c e))
      \<and> l_value (fresh_link c e) = l_metric metric (fresh_link c e)" for c
    by (cases metric) (simp_all add: fresh_link_def link_key_def pathLinkKey_def Let_def)
next
  fix e :: link_event and l
  assume "link_key e = l_source l @ 0 # l_target l \<and> 0 \<notin> set (l_source l) \<and> l_value l = l_metric metric l"
  then show "link_key e = l_source (grow_link metric e l) @ 0 # l_target (grow_link metric e l)
      \<and> 0 \<notin> set (l_source (grow_link metric e l)) \<and> l_value (grow_link metric e l) = l_metric metric (grow_link metric e l)"
    by (cases metric) (simp_all add: grow_link_def Let_def)
qed simp_all

text \<open>The links selected by their ends carry the metrics of the steps with such ends.\<close>

lemma links_sum:
  assumes "ids_ok pp"
  shows "(\<Sum>(k, l)\<leftarrow>tallied_links env palette metric pp. if Q (l_source l) (l_target l) then l_metric m l else 0)
    = (\<Sum>p\<leftarrow>pp. \<Sum>(a, b)\<leftarrow>path_pairs (p_path p). if Q (pn_id a) (pn_id b) then metricValue (p_metrics p) m else 0)"
proof -
  let ?P = "\<lambda>k. Q (takeWhile (\<lambda>c. c \<noteq> 0) k) (tl (dropWhile (\<lambda>c. c \<noteq> 0) k))"
  have ends: "?P k = Q (l_source l) (l_target l)" if "(k, l) \<in> set (tallied_links env palette metric pp)" for k l
    using tallied_link_facts [OF that assms] split_key by metis
  have event: "?P (link_key e) = Q (pn_id (fst (fst e))) (pn_id (snd (fst e)))" if "e \<in> set (link_events pp)" for e
    using link_event_nodes [OF that] assms split_key unfolding ids_ok_def link_key_def pathLinkKey_def by metis
  have "(\<Sum>(k, l)\<leftarrow>tallied_links env palette metric pp. if Q (l_source l) (l_target l) then l_metric m l else 0)
      = (\<Sum>(k, l)\<leftarrow>tallied_links env palette metric pp. if ?P k then l_metric m l else 0)"
    by (rule arg_cong [where f = sum_list], rule map_cong [OF refl]) (clarsimp simp only: ends split_conv)
  also have "\<dots> = (\<Sum>e\<leftarrow>link_events pp. if ?P (link_key e) then metricValue (p_metrics (snd e)) m else 0)"
    unfolding tallied_links_def by (subst link_sum.sum_entries) simp_all
  also have "\<dots> = (\<Sum>e\<leftarrow>link_events pp. if Q (pn_id (fst (fst e))) (pn_id (snd (fst e)))
      then metricValue (p_metrics (snd e)) m else 0)"
    by (rule arg_cong [where f = sum_list], rule map_cong [OF refl]) (simp only: event)
  also have "\<dots> = (\<Sum>p\<leftarrow>pp. \<Sum>(a, b)\<leftarrow>path_pairs (p_path p). if Q (pn_id a) (pn_id b) then metricValue (p_metrics p) m else 0)"
    by (simp add: link_events_def sum_concat_map comp_def case_prod_unfold cong: if_cong)
  finally show ?thesis .
qed

lemma sum_pairs_source:
  assumes "distinct (map f path)"
  shows "(\<Sum>(a, b)\<leftarrow>path_pairs path. if f a = i then w else 0) = (if i \<in> f ` set (butlast path) then w else (0 :: rat))"
proof -
  have "map fst (path_pairs path) = butlast path"
    by (cases path) (simp_all add: path_pairs_def map_fst_zip_take butlast_conv_take)
  moreover have "(\<Sum>(a, b)\<leftarrow>path_pairs path. if f a = i then w else 0) = (\<Sum>a\<leftarrow>map fst (path_pairs path). if f a = i then w else 0)"
    by (simp add: comp_def case_prod_unfold)
  ultimately show ?thesis
    using sum_indicator_map [of f "butlast path" i w] distinct_butlast [OF assms] by (simp add: map_butlast)
qed

lemma sum_pairs_target:
  assumes "distinct (map pn_id path)"
  shows "(\<Sum>(a, b)\<leftarrow>path_pairs path. if pn_id b = i then w else 0) = (if i \<in> pn_id ` set (tl path) then w else (0 :: rat))"
proof -
  have "map snd (path_pairs path) = tl path"
    by (simp add: path_pairs_def map_snd_zip_take)
  moreover have "(\<Sum>(a, b)\<leftarrow>path_pairs path. if pn_id b = i then w else 0) = (\<Sum>b\<leftarrow>map snd (path_pairs path). if pn_id b = i then w else 0)"
    by (simp add: comp_def case_prod_unfold)
  ultimately show ?thesis
    using sum_indicator_map [of pn_id "tl path" i w] distinct_tl [OF assms] by (simp only: map_tl)
qed

lemma path_inner:
  assumes "path_ok stages path" "prefix (kind_prefix k) i"
  shows "k \<noteq> last stages \<Longrightarrow> i \<in> pn_id ` set (butlast path) \<longleftrightarrow> i \<in> pn_id ` set path"
    and "k \<noteq> hd stages \<Longrightarrow> i \<in> pn_id ` set (tl path) \<longleftrightarrow> i \<in> pn_id ` set path"
proof -
  have kind: "pn_kind n = k" if "n \<in> set path" "pn_id n = i" for n
    using that assms kind_prefix_unique unfolding path_ok_def kind_id_def by metis
  show "i \<in> pn_id ` set (butlast path) \<longleftrightarrow> i \<in> pn_id ` set path" if "k \<noteq> last stages"
  proof (cases path rule: rev_cases)
    case (snoc ys y)
    then have "pn_kind y = last stages" using assms(1) by (auto simp: path_ok_def)
    then show ?thesis using snoc kind [of y] that by auto
  qed simp
  show "i \<in> pn_id ` set (tl path) \<longleftrightarrow> i \<in> pn_id ` set path" if "k \<noteq> hd stages"
  proof (cases path)
    case (Cons y ys)
    then have "pn_kind y = hd stages" using assms(1) by (auto simp: path_ok_def)
    then show ?thesis using Cons kind [of y] that by auto
  qed simp
qed

text \<open>What a node carries leaves it unless it is in the last stage, and entered it unless it is in the first.\<close>

lemma node_flow:
  assumes n: "(i, n) \<in> set (tallied_nodes env palette metric pp)"
    and ok: "\<forall>p \<in> set pp. path_ok stages (p_path p)" and "distinct stages" "ids_ok pp"
  shows "n_kind n \<noteq> last stages \<Longrightarrow>
      (\<Sum>(k, l)\<leftarrow>tallied_links env palette metric pp. if l_source l = i then l_metric m l else 0) = n_metric m n"
    and "n_kind n \<noteq> hd stages \<Longrightarrow>
      (\<Sum>(k, l)\<leftarrow>tallied_links env palette metric pp. if l_target l = i then l_metric m l else 0) = n_metric m n"
proof -
  have pre: "prefix (kind_prefix (n_kind n)) i" using tallied_node_facts [OF n ok] by simp
  show "(\<Sum>(k, l)\<leftarrow>tallied_links env palette metric pp. if l_source l = i then l_metric m l else 0) = n_metric m n"
    if "n_kind n \<noteq> last stages"
    unfolding node_sum_paths [OF n ok assms(3)] links_sum [OF assms(4), where Q = "\<lambda>s t. s = i"]
    by (intro arg_cong [where f = sum_list] map_cong [OF refl])
      (simp only: sum_pairs_source path_ids_distinct [OF bspec [OF ok] assms(3)] path_inner(1) [OF bspec [OF ok] pre that])
  show "(\<Sum>(k, l)\<leftarrow>tallied_links env palette metric pp. if l_target l = i then l_metric m l else 0) = n_metric m n"
    if "n_kind n \<noteq> hd stages"
    unfolding node_sum_paths [OF n ok assms(3)] links_sum [OF assms(4), where Q = "\<lambda>s t. t = i"]
    by (intro arg_cong [where f = sum_list] map_cong [OF refl])
      (simp only: sum_pairs_target path_ids_distinct [OF bspec [OF ok] assms(3)] path_inner(2) [OF bspec [OF ok] pre that])
qed

lemma graph_paths_ok: "\<forall>p \<in> set (graph_paths env rows metric role visible ctx options).
    path_ok (resolveVisibleStages role visible) (p_path p)"
  unfolding graph_paths_def using prepared_ok by blast

lemma graph_node_tallied:
  assumes "n \<in> set (g_nodes (buildFlowGraph env rows metric role palette visible ctx options))"
  obtains n' where "(n_id n, n') \<in> set (tallied_nodes env palette metric (graph_paths env rows metric role visible ctx options))"
    "node_core n' = node_core n"
proof -
  let ?T = "tallied_nodes env palette metric (graph_paths env rows metric role visible ctx options)"
  have "node_core n \<in># image_mset node_core (mset (g_nodes (buildFlowGraph env rows metric role palette visible ctx options)))"
    using assms by simp
  then obtain i n' where e: "(i, n') \<in> set ?T" "node_core n' = node_core n"
    unfolding graph_nodes_core by (auto simp del: mset_map)
  moreover have "n_id n' = n_id n" using arg_cong [OF e(2), of n_id] by (simp add: node_core_def)
  ultimately show thesis using tallied_node_facts [OF e(1) graph_paths_ok] that by auto
qed

lemma core_metrics [simp]:
  "n_metric m (node_core n) = n_metric m n" "n_kind (node_core n) = n_kind n" "n_id (node_core n) = n_id n"
  "n_value (node_core n) = n_value n"
  "l_metric m (link_core l) = l_metric m l" "l_source (link_core l) = l_source l" "l_target (link_core l) = l_target l"
  "l_value (link_core l) = l_value l"
  by (cases m; simp add: node_core_def link_core_def)+

section \<open>Shares\<close>

lemma stage_links_sum:
  assumes "ids_ok pp" and ok: "\<forall>p \<in> set pp. path_ok stages (p_path p)" and "distinct stages" "k \<in> set (butlast stages)"
    and Q: "\<And>p a. p \<in> set pp \<Longrightarrow> a \<in> set (p_path p) \<Longrightarrow> Q (pn_id a) \<longleftrightarrow> pn_kind a = k"
  shows "(\<Sum>(key, l)\<leftarrow>tallied_links env palette metric pp. if Q (l_source l) then l_metric m l else 0)
    = (\<Sum>p\<leftarrow>pp. metricValue (p_metrics p) m)"
  unfolding links_sum [OF assms(1), where Q = "\<lambda>s t. Q s"]
proof (rule arg_cong [where f = sum_list], rule map_cong [OF refl])
  fix p assume p: "p \<in> set pp"
  then have kinds: "map pn_kind (p_path p) = stages" using ok by (simp add: path_ok_def)
  have "(\<Sum>(a, b)\<leftarrow>path_pairs (p_path p). if Q (pn_id a) then metricValue (p_metrics p) m else 0)
      = (\<Sum>(a, b)\<leftarrow>path_pairs (p_path p). if pn_kind a = k then metricValue (p_metrics p) m else 0)"
    by (rule arg_cong [where f = sum_list], rule map_cong [OF refl]) (auto dest: pair_in_path simp: Q [OF p])
  also have "\<dots> = metricValue (p_metrics p) m"
    using kinds assms(3,4) by (subst sum_pairs_source) (auto simp: map_butlast [symmetric] simp flip: set_map)
  finally show "(\<Sum>(a, b)\<leftarrow>path_pairs (p_path p). if Q (pn_id a) then metricValue (p_metrics p) m else 0)
      = metricValue (p_metrics p) m" .
qed

lemma kind_of_path_id:
  assumes "\<forall>p \<in> set pp. path_ok stages (p_path p)" "p \<in> set pp" "a \<in> set (p_path p)"
  shows "prefix (kind_prefix k) (pn_id a) \<longleftrightarrow> pn_kind a = k"
  using assms kind_prefix_unique unfolding path_ok_def kind_id_def by metis

lemma in_root_ids:
  "i \<in> set (root_ids pp) \<longleftrightarrow> i \<noteq> [] \<and> (\<exists>q \<in> set pp. \<exists>r rs. p_path q = r # rs \<and> pn_id r = i)"
  by (induction pp) (auto simp: root_ids_def List.map_filter_simps split: list.splits)

lemma root_ids_kind:
  assumes ok: "\<forall>p \<in> set pp. path_ok stages (p_path p)" and "distinct stages" "p \<in> set pp" "a \<in> set (p_path p)"
  shows "pn_id a \<in> set (root_ids pp) \<longleftrightarrow> pn_kind a = hd stages"
proof
  assume "pn_id a \<in> set (root_ids pp)"
  then obtain q r rs where q: "q \<in> set pp" "p_path q = r # rs" "pn_id r = pn_id a"
    unfolding in_root_ids by blast
  then have "pn_kind r = hd stages" "kind_id r" using ok by (auto simp: path_ok_def)
  moreover have "kind_id a" using ok assms(3,4) by (auto simp: path_ok_def)
  ultimately show "pn_kind a = hd stages" using kind_of_id q(3) by metis
next
  assume k: "pn_kind a = hd stages"
  obtain r rs where r: "p_path p = r # rs" using assms(4) by (cases "p_path p") auto
  have kinds: "map pn_kind (p_path p) = stages" "kind_id a" using ok assms(3,4) by (auto simp: path_ok_def)
  then have "a = r" using k r assms(2,4) by (auto simp: image_iff) metis
  moreover have "pn_id a \<noteq> []" using kinds(2) by (auto simp: kind_id_def kind_prefix_def)
  ultimately show "pn_id a \<in> set (root_ids pp)"
    using r assms(3) unfolding in_root_ids by blast
qed

lemma graph_shares:
  fixes env rows metric role palette visible ctx and options :: "'a FlowGraphOptions_scheme"
  defines "g \<equiv> buildFlowGraph env rows metric role palette visible ctx options"
    and "pp \<equiv> graph_paths env rows metric role visible ctx options"
  defines "T \<equiv> sum_list (map (\<lambda>l. if l_source l \<in> set (root_ids pp) then l_value l else 0) (g_links g))"
  assumes "l \<in> set (g_links g)"
  shows "l_share l = (if T > 0 then l_value l / T else 0)"
proof -
  obtain ls where links: "g_links g = assignLinkDisplayColors env
      (map (\<lambda>link. link\<lparr>l_share := if sum_list (map l_value (filter (\<lambda>link. l_source link \<in> set (uniq (root_ids pp))) ls)) > 0
         then l_value link / sum_list (map l_value (filter (\<lambda>link. l_source link \<in> set (uniq (root_ids pp))) ls)) else 0\<rparr>) ls)"
    unfolding g_def buildFlowGraph_def pp_def graph_paths_def Let_def case_prod_unfold DashboardFlowGraph.simps by blast
  have "T = sum_list (map l_value (filter (\<lambda>link. l_source link \<in> set (uniq (root_ids pp))) ls))"
    unfolding T_def links by (simp add: assignLinkDisplayColors_def comp_def sum_list_map_filter' Let_def cong: if_cong)
  then show ?thesis
    using assms(4) unfolding links assignLinkDisplayColors_def Let_def by auto
qed

lemma graph_link_tallied:
  assumes "l \<in> set (g_links (buildFlowGraph env rows metric role palette visible ctx options))"
  obtains k l' where "(k, l') \<in> set (tallied_links env palette metric (graph_paths env rows metric role visible ctx options))"
    "link_core l' = link_core l"
proof -
  have "link_core l \<in># image_mset link_core (mset (g_links (buildFlowGraph env rows metric role palette visible ctx options)))"
    using assms by simp
  then show thesis unfolding graph_links_core using that by (auto simp del: mset_map)
qed

lemma graph_link_value:
  assumes "l \<in> set (g_links (buildFlowGraph env rows metric role palette visible ctx options))" "\<forall>row \<in> set rows. no_nul row"
  shows "l_value l = l_metric metric l"
proof -
  obtain k l' where l': "(k, l') \<in> set (tallied_links env palette metric (graph_paths env rows metric role visible ctx options))"
      "link_core l' = link_core l"
    using assms(1) by (rule graph_link_tallied)
  then have "l_value l' = l_metric metric l'" using tallied_link_facts paths_ids_ok [OF assms(2)] by blast
  then show ?thesis using arg_cong [OF l'(2), of l_value] arg_cong [OF l'(2), of "l_metric metric"] by simp
qed

text \<open>The links that leave a stage carry everything.\<close>

lemma graph_stage_links:
  assumes "keeps_rows options" "\<forall>row \<in> set rows. no_nul row" "k \<in> set (butlast (resolveVisibleStages role visible))"
  shows "sum_list (map (\<lambda>l. if prefix (kind_prefix k) (l_source l) then l_metric m l else 0)
      (g_links (buildFlowGraph env rows metric role palette visible ctx options))) = metricValue (buildSummary rows) m"
  by (subst sum_graph_links, simp,
      subst stage_links_sum [OF paths_ids_ok [OF assms(2)] graph_paths_ok stages_distinct assms(3) kind_of_path_id [OF graph_paths_ok]])
    (simp_all add: paths_total [OF assms(1)])

lemma graph_total:
  assumes "keeps_rows options" "\<forall>row \<in> set rows. no_nul row"
  shows "sum_list (map (\<lambda>l. if l_source l \<in> set (root_ids (graph_paths env rows metric role visible ctx options)) then l_value l else 0)
      (g_links (buildFlowGraph env rows metric role palette visible ctx options))) = metricValue (buildSummary rows) metric"
proof -
  let ?s = "resolveVisibleStages role visible" and ?r = "root_ids (graph_paths env rows metric role visible ctx options)"
  let ?g = "buildFlowGraph env rows metric role palette visible ctx options"
  have hd: "hd ?s \<in> set (butlast ?s)" using stages_length [of role visible]
    by (cases ?s; cases "tl ?s") auto
  have "map (\<lambda>l. if l_source l \<in> set ?r then l_value l else 0) (g_links ?g)
      = map (\<lambda>l. if l_source l \<in> set ?r then l_metric metric l else 0) (g_links ?g)"
    by (rule map_cong [OF refl]) (simp only: graph_link_value [OF _ assms(2)])
  then show ?thesis
    by (simp only:, subst sum_graph_links, simp,
        subst stage_links_sum [OF paths_ids_ok [OF assms(2)] graph_paths_ok stages_distinct hd
          root_ids_kind [OF graph_paths_ok stages_distinct]])
      (simp_all add: paths_total [OF assms(1)])
qed

lemma pair_source_inner: "(a, b) \<in> set (path_pairs path) \<Longrightarrow> a \<in> set (butlast path)"
proof -
  assume "(a, b) \<in> set (path_pairs path)"
  moreover have "map fst (path_pairs path) = butlast path"
    by (cases path) (simp_all add: path_pairs_def map_fst_zip_take butlast_conv_take)
  ultimately show ?thesis by (metis fst_conv image_eqI list.set_map)
qed

lemma tallied_link_bounds:
  assumes "(key, l) \<in> set (tallied_links env palette metric pp)"
    and ok: "\<forall>p \<in> set pp. path_ok stages (p_path p)" and nonneg: "\<forall>p \<in> set pp. 0 \<le> metricValue (p_metrics p) m"
  shows "0 \<le> l_metric m l \<and> (\<exists>k \<in> set (butlast stages). prefix (kind_prefix k) (l_source l))"
proof (rule link_sum.entries [OF _ _ _ _ assms(1) [unfolded tallied_links_def],
        where I = "\<lambda>key l. 0 \<le> l_metric m l \<and> (\<exists>k \<in> set (butlast stages). prefix (kind_prefix k) (l_source l))"])
  fix e assume "e \<in> set (link_events pp)"
  then obtain a b p where e: "e = ((a, b), p)" "p \<in> set pp" "(a, b) \<in> set (path_pairs (p_path p))"
    by (auto simp: link_events_def)
  then have "path_ok stages (p_path p)" "a \<in> set (butlast (p_path p))" using ok pair_source_inner by auto
  then have "pn_kind a \<in> set (butlast stages)" "prefix (kind_prefix (pn_kind a)) (pn_id a)"
    by (auto simp: path_ok_def kind_id_def map_butlast [symmetric] dest: in_set_butlastD)
  then show "0 \<le> l_metric m (fresh_link c e) \<and> (\<exists>k \<in> set (butlast stages). prefix (kind_prefix k) (l_source (fresh_link c e)))" for c
    by (cases m) (auto simp: fresh_link_def e(1) Let_def)
next
  fix e l assume "e \<in> set (link_events pp)"
    "0 \<le> l_metric m l \<and> (\<exists>k \<in> set (butlast stages). prefix (kind_prefix k) (l_source l))"
  moreover from this(1) have "0 \<le> metricValue (p_metrics (snd e)) m" using link_event_nodes nonneg by blast
  ultimately show "0 \<le> l_metric m (grow_link metric e l)
      \<and> (\<exists>k \<in> set (butlast stages). prefix (kind_prefix k) (l_source (grow_link metric e l)))"
    by (cases m) (auto simp: grow_link_def Let_def)
qed simp_all

lemma graph_link_bounds:
  assumes "l \<in> set (g_links (buildFlowGraph env rows metric role palette visible ctx options))"
    "keeps_rows options" "\<forall>row \<in> set rows. 0 \<le> metricValue (rowMetrics row) m"
  shows "0 \<le> l_metric m l" "\<exists>k \<in> set (butlast (resolveVisibleStages role visible)). prefix (kind_prefix k) (l_source l)"
proof -
  let ?pp = "graph_paths env rows metric role visible ctx options"
  obtain k l' where l': "(k, l') \<in> set (tallied_links env palette metric ?pp)" "link_core l' = link_core l"
    using assms(1) by (rule graph_link_tallied)
  have "p_metrics p \<in> rowMetrics ` set rows" if "p \<in> set ?pp" for p
    using paths_keep_metrics [OF assms(2)] that by (metis image_eqI list.set_map)
  then have "\<forall>p \<in> set ?pp. 0 \<le> metricValue (p_metrics p) m" using assms(3) by fastforce
  then have "0 \<le> l_metric m l' \<and> (\<exists>k \<in> set (butlast (resolveVisibleStages role visible)). prefix (kind_prefix k) (l_source l'))"
    by (rule tallied_link_bounds [OF l'(1) graph_paths_ok])
  moreover have "l_metric m l' = l_metric m l" "l_source l' = l_source l"
    using arg_cong [OF l'(2), of "l_metric m"] arg_cong [OF l'(2), of l_source] by simp_all
  ultimately show "0 \<le> l_metric m l" "\<exists>k \<in> set (butlast (resolveVisibleStages role visible)). prefix (kind_prefix k) (l_source l)"
    by simp_all
qed

lemma member_le_sum: "x \<in> set xs \<Longrightarrow> \<forall>y \<in> set xs. 0 \<le> y \<Longrightarrow> x \<le> sum_list (xs :: rat list)"
  by (induction xs) (auto simp: sum_list_nonneg add_increasing)

section \<open>Node filters\<close>

text \<open>Grouping by kind: the map holds for each kind the identifiers added under it.\<close>

definition group_step ::
    "('e \<Rightarrow> FlowNodeKind) \<Rightarrow> ('e \<Rightarrow> jsstr) \<Rightarrow> (FlowNodeKind \<times> jsstr list) list \<Rightarrow> 'e \<Rightarrow> (FlowNodeKind \<times> jsstr list) list" where
  "group_step f h m x = AList.update (f x) (add_to_set (or_empty (map_of m (f x))) (h x)) m"

lemma set_add_to_set [simp]: "set (add_to_set xs x) = insert x (set xs)"
  by (auto simp: add_to_set_def)

lemma group_lookup:
  "set (or_empty (map_of (foldl (group_step f h) m xs) k)) = set (or_empty (map_of m k)) \<union> h ` {x \<in> set xs. f x = k}"
  "map_of (foldl (group_step f h) m xs) k = None \<longleftrightarrow> map_of m k = None \<and> (\<forall>x \<in> set xs. f x \<noteq> k)"
  by (induction xs arbitrary: m) (auto simp: group_step_def update_conv' or_empty_def)

lemma group_distinct: "distinct (map fst m) \<Longrightarrow> distinct (map fst (foldl (group_step f h) m xs))"
  by (induction xs arbitrary: m) (simp_all add: group_step_def distinct_update)

lemma filters_grouped:
  "normalizeSelectedNodeFilters sel stages = foldl (group_step nf_kind nf_id) [] (filter (\<lambda>f. nf_kind f \<in> set stages) (or_empty sel))"
proof -
  have "foldl (add_filter stages) m fs = foldl (group_step nf_kind nf_id) m (filter (\<lambda>f. nf_kind f \<in> set stages) fs)" for m fs
    by (induction fs arbitrary: m) (simp_all add: add_filter_def group_step_def)
  then show ?thesis by (simp add: normalizeSelectedNodeFilters_def)
qed

lemma path_grouped: "foldl add_path_node [] path = foldl (group_step pn_kind pn_id) [] path"
  by (simp add: add_path_node_def [abs_def] group_step_def [abs_def])

lemma matches_iff:
  "pathMatchesNodeFilters (flowPathForStages row stages ctx) (normalizeSelectedNodeFilters sel stages) \<longleftrightarrow>
     (\<forall>k \<in> set stages. (\<exists>f \<in> set (or_empty sel). nf_kind f = k) \<longrightarrow>
        (\<exists>f \<in> set (or_empty sel). nf_kind f = k \<and> nf_id f = pn_id (NODE_BUILDERS k row ctx)))"
proof -
  define fs where "fs = normalizeSelectedNodeFilters sel stages"
  define ps where "ps = foldl add_path_node [] (flowPathForStages row stages ctx)"
  have d: "distinct (map fst fs)" by (simp add: fs_def filters_grouped group_distinct)
  have f_none: "map_of fs k = None \<longleftrightarrow> \<not> (k \<in> set stages \<and> (\<exists>f \<in> set (or_empty sel). nf_kind f = k))" for k
    unfolding fs_def filters_grouped group_lookup by auto
  have f_ids: "set ids = nf_id ` {f \<in> set (or_empty sel). nf_kind f = k}" if "map_of fs k = Some ids" for k ids
    using group_lookup(1) [of nf_kind nf_id "[]" "filter (\<lambda>f. nf_kind f \<in> set stages) (or_empty sel)" k] that f_none [of k]
    by (auto simp: fs_def filters_grouped or_empty_def)
  have p_ids: "\<exists>ids. map_of ps k = Some ids \<and> set ids = {pn_id (NODE_BUILDERS k row ctx)}" if "k \<in> set stages" for k
    using group_lookup [of pn_kind pn_id "[]" "flowPathForStages row stages ctx" k] that
    by (cases "map_of ps k") (auto simp: ps_def path_grouped or_empty_def flowPathForStages_def)
  have found: "(case map_of ps k of None \<Rightarrow> False | Some pids \<Rightarrow> list_ex (\<lambda>i. i \<in> set pids) ids)
      \<longleftrightarrow> (\<exists>pids. map_of ps k = Some pids \<and> (\<exists>i \<in> set ids. i \<in> set pids))" for k ids
    by (cases "map_of ps k") (auto simp: list_ex_iff)
  have "pathMatchesNodeFilters (flowPathForStages row stages ctx) fs \<longleftrightarrow>
      (\<forall>k ids. map_of fs k = Some ids \<longrightarrow> (\<exists>pids. map_of ps k = Some pids \<and> (\<exists>i \<in> set ids. i \<in> set pids)))"
    unfolding pathMatchesNodeFilters_def ps_def [symmetric] Let_def found map_of_eq_Some_iff [OF d]
    by (auto simp: list_all_iff)
  also have "\<dots> \<longleftrightarrow> (\<forall>k \<in> set stages. (\<exists>f \<in> set (or_empty sel). nf_kind f = k) \<longrightarrow>
        (\<exists>f \<in> set (or_empty sel). nf_kind f = k \<and> nf_id f = pn_id (NODE_BUILDERS k row ctx)))" (is "?A \<longleftrightarrow> ?B")
  proof
    assume a: ?A
    show ?B
    proof (intro ballI impI)
      fix k assume k: "k \<in> set stages" "\<exists>f \<in> set (or_empty sel). nf_kind f = k"
      then have "map_of fs k \<noteq> None" unfolding f_none by blast
      then obtain ids where ids: "map_of fs k = Some ids" by blast
      then obtain pids i where i: "map_of ps k = Some pids" "i \<in> set ids" "i \<in> set pids" using a by blast
      obtain qids where q: "map_of ps k = Some qids" "set qids = {pn_id (NODE_BUILDERS k row ctx)}"
        using p_ids [OF k(1)] by blast
      then have "i = pn_id (NODE_BUILDERS k row ctx)" using i(1,3) by simp
      moreover obtain f where "f \<in> set (or_empty sel)" "nf_kind f = k" "i = nf_id f"
        using i(2) unfolding f_ids [OF ids] by (elim imageE CollectE conjE)
      ultimately show "\<exists>f \<in> set (or_empty sel). nf_kind f = k \<and> nf_id f = pn_id (NODE_BUILDERS k row ctx)"
        by (intro bexI [of _ f] conjI) simp_all
    qed
  next
    assume b: ?B
    show ?A
    proof (intro allI impI)
      fix k ids assume ids: "map_of fs k = Some ids"
      then have "map_of fs k \<noteq> None" by simp
      then have k: "k \<in> set stages" "\<exists>f \<in> set (or_empty sel). nf_kind f = k" unfolding f_none by blast+
      obtain pids where pids: "map_of ps k = Some pids" "set pids = {pn_id (NODE_BUILDERS k row ctx)}"
        using p_ids [OF k(1)] by blast
      have "pn_id (NODE_BUILDERS k row ctx) \<in> nf_id ` {f \<in> set (or_empty sel). nf_kind f = k}"
        using mp [OF bspec [OF b k(1)] k(2)] by (metis (mono_tags, lifting) image_eqI mem_Collect_eq)
      then show "\<exists>pids. map_of ps k = Some pids \<and> (\<exists>i \<in> set ids. i \<in> set pids)"
        using pids f_ids [OF ids] by blast
    qed
  qed
  finally show ?thesis unfolding fs_def .
qed

section \<open>Properties of the chart\<close>

text \<open>A comparison of code units and an empty color table, and two rows, for the concrete instances below.\<close>

definition unit_compare :: "jsstr \<Rightarrow> jsstr \<Rightarrow> rat" where
  "unit_compare a b = (if a = b then 0 else if lexordp (<) a b then - 1 else 1)"

definition sample_env :: FlowEnv where
  "sample_env = \<lparr>localeCompare = unit_compare, formatNumber = num_text, schemes_before = [],
     scheme_last = \<lparr>maxDomainLength = None, scheme_colors = []\<rparr>\<rparr>"

definition sample_row :: "rat \<Rightarrow> string \<Rightarrow> string \<Rightarrow> rat \<Rightarrow> FlowQuotaDataItem" where
  "sample_row user name model q =
     \<lparr>user_id = Some user, username = Some (js name), node_name = None, use_group = Some (js ''default''),
      token_id = None, token_name = None, channel_id = Some 1, channel_name = None, model_name = Some (js model),
      token_used = Some 10, count_used = Some 1, quota_used = Some q\<rparr>"

definition sample_rows :: "FlowQuotaDataItem list" where
  "sample_rows = [sample_row 1 ''ann'' ''m1'' 5, sample_row 2 ''bob'' ''m2'' 7, sample_row 1 ''ann'' ''m2'' 2]"

definition sample_options :: FlowGraphOptions where
  "sample_options = \<lparr>o_topNodeLimit = Some 1, o_overflowMode = None, o_otherNodeLabel = None, o_activeNode = None,
     o_activeLink = None, o_maskSensitive = True\<rparr>"

lemma sample_keeps: "keeps_rows sample_options"
  by (simp add: keeps_rows_def sample_options_def)

lemma sample_no_nul: "\<forall>row \<in> set sample_rows. no_nul row"
  by (simp add: sample_rows_def sample_row_def no_nul_def or_text_def) (simp add: js_eval)

lemma sample_metrics:
  "rowMetrics (sample_row u n m q) = \<lparr>m_quota = q, m_tokens = 10, m_requests = 1\<rparr>"
  by (simp add: rowMetrics_def sample_row_def numberValue_def)

lemma sample_values:
  "\<forall>row \<in> set sample_rows. 0 \<le> metricValue (rowMetrics row) MetricQuota" "metricValue (buildSummary sample_rows) MetricQuota = 14"
  unfolding summary_sum by (simp_all add: sample_rows_def sample_metrics)

lemmas sample_facts = sample_keeps sample_no_nul sample_values

text \<open>
  C22: The flow chart conserves every metric. When overflowing nodes are aggregated, or there is no limit, the nodes
  of each visible stage together carry exactly the quota, tokens and requests of the summary. What enters a node over
  its links is what the node carries, unless it is in the first stage, and what leaves it is the same, unless it is in
  the last stage. The displayed value of a node is the chosen metric. Names must not contain the NUL unit that
  separates the two ends in the key of a link.
\<close>

theorem flow_is_conserved:
  assumes "keeps_rows options" "\<forall>row \<in> set rows. no_nul row"
  shows "let g = buildFlowGraph env rows metric role palette visible ctx options;
             stages = resolveVisibleStages role visible
         in (\<forall>k \<in> set stages. \<forall>m.
               sum_list (map (n_metric m) (filter (\<lambda>n. n_kind n = k) (g_nodes g))) = metricValue (buildSummary rows) m)
          \<and> (\<forall>n \<in> set (g_nodes g). \<forall>m.
               (n_kind n \<noteq> last stages \<longrightarrow>
                  sum_list (map (l_metric m) (filter (\<lambda>l. l_source l = n_id n) (g_links g))) = n_metric m n)
             \<and> (n_kind n \<noteq> hd stages \<longrightarrow>
                  sum_list (map (l_metric m) (filter (\<lambda>l. l_target l = n_id n) (g_links g))) = n_metric m n)
             \<and> n_value n = n_metric metric n)"
proof -
  let ?g = "buildFlowGraph env rows metric role palette visible ctx options"
  let ?pp = "graph_paths env rows metric role visible ctx options"
  let ?s = "resolveVisibleStages role visible"
  note ids = paths_ids_ok [OF assms(2)]
  have stage: "sum_list (map (n_metric m) (filter (\<lambda>n. n_kind n = k) (g_nodes ?g))) = metricValue (buildSummary rows) m"
    if "k \<in> set ?s" for k m
    unfolding sum_list_map_filter'
    by (subst sum_graph_nodes, simp) (simp only: stage_sum [OF graph_paths_ok stages_distinct that] paths_total [OF assms(1)])
  have node: "(n_kind n \<noteq> last ?s \<longrightarrow> sum_list (map (l_metric m) (filter (\<lambda>l. l_source l = n_id n) (g_links ?g))) = n_metric m n)
      \<and> (n_kind n \<noteq> hd ?s \<longrightarrow> sum_list (map (l_metric m) (filter (\<lambda>l. l_target l = n_id n) (g_links ?g))) = n_metric m n)
      \<and> n_value n = n_metric metric n"
    if "n \<in> set (g_nodes ?g)" for n m
  proof -
    obtain n' where n': "(n_id n, n') \<in> set (tallied_nodes env palette metric ?pp)" "node_core n' = node_core n"
      using \<open>n \<in> set (g_nodes ?g)\<close> by (rule graph_node_tallied)
    have "n_kind n' = n_kind n" "n_metric m n' = n_metric m n" "n_metric metric n' = n_metric metric n" "n_value n' = n_value n"
      using arg_cong [OF n'(2), of n_kind] arg_cong [OF n'(2), of "n_metric m"] arg_cong [OF n'(2), of "n_metric metric"]
        arg_cong [OF n'(2), of n_value] by simp_all
    then show ?thesis
      unfolding sum_list_map_filter'
      using node_flow [OF n'(1) graph_paths_ok stages_distinct ids, of m] tallied_node_facts [OF n'(1) graph_paths_ok]
      by (subst (1 2) sum_graph_links) simp_all
  qed
  show ?thesis unfolding Let_def using stage node by blast
qed

theorem flow_is_conserved_witness:
  "sum_list (map (n_metric MetricQuota) (filter (\<lambda>n. n_kind n = KUser)
       (g_nodes (buildFlowGraph sample_env sample_rows MetricTokens RoleAdmin None None EMPTY_FLOW_PATH_CONTEXT sample_options)))) = 14"
proof -
  have "KUser \<in> set (resolveVisibleStages RoleAdmin None)" by (simp add: resolveVisibleStages_def)
  then show ?thesis
    using flow_is_conserved [OF sample_facts(1,2), of sample_env MetricTokens RoleAdmin None None EMPTY_FLOW_PATH_CONTEXT]
      sample_facts(4) unfolding Let_def by metis
qed

text \<open>
  Filtering by selected nodes keeps exactly the matching rows, in order: for every visible stage for which some node
  is selected, the node of the row at that stage is one of the selected ones; selections for stages that are not
  visible have no effect.
\<close>

theorem node_filters_are_exact:
  "filterRowsByNodes rows selectedNodes stages ctx =
     filter (\<lambda>row. \<forall>k \<in> set stages. (\<exists>f \<in> set (or_empty selectedNodes). nf_kind f = k) \<longrightarrow>
        (\<exists>f \<in> set (or_empty selectedNodes). nf_kind f = k \<and> nf_id f = pn_id (NODE_BUILDERS k row ctx))) rows"
proof -
  have "pathMatchesNodeFilters p []" for p by (simp add: pathMatchesNodeFilters_def)
  then have "filterRowsByNodes rows selectedNodes stages ctx = filter (\<lambda>row. pathMatchesNodeFilters
      (flowPathForStages row stages ctx) (normalizeSelectedNodeFilters selectedNodes stages)) rows"
    by (simp add: filterRowsByNodes_def Let_def)
  then show ?thesis by (simp only: matches_iff)
qed

theorem node_filters_are_exact_witness:
  "filterRowsByNodes sample_rows (Some [\<lparr>nf_kind = KModel, nf_id = js ''model:m2''\<rparr>, \<lparr>nf_kind = KToken, nf_id = []\<rparr>])
     [KUser, KModel] EMPTY_FLOW_PATH_CONTEXT = tl sample_rows"
  unfolding node_filters_are_exact
  by (simp add: or_empty_def sample_rows_def sample_row_def modelNode_def or_text_def Let_def) (simp add: js_eval)

text \<open>
  The shares of the links are fractions of the whole. When no rows are hidden and the chosen metric is never
  negative, the share of a link is its value divided by the total of the summary, lies between zero and one, and the
  shares of the links that leave one stage sum to one as soon as the total is positive; with a total of zero every
  share is zero.
\<close>

theorem flow_shares_are_fractions:
  assumes "keeps_rows options" "\<forall>row \<in> set rows. no_nul row" "\<forall>row \<in> set rows. 0 \<le> metricValue (rowMetrics row) metric"
  shows "let g = buildFlowGraph env rows metric role palette visible ctx options;
             T = metricValue (buildSummary rows) metric
         in (\<forall>l \<in> set (g_links g). l_share l = (if T > 0 then l_value l / T else 0) \<and> 0 \<le> l_share l \<and> l_share l \<le> 1)
          \<and> (T > 0 \<longrightarrow> (\<forall>k \<in> set (butlast (resolveVisibleStages role visible)).
               sum_list (map l_share (filter (\<lambda>l. prefix (kind_prefix k) (l_source l)) (g_links g))) = 1))"
proof -
  let ?g = "buildFlowGraph env rows metric role palette visible ctx options" and ?T = "metricValue (buildSummary rows) metric"
  let ?P = "\<lambda>k l. prefix (kind_prefix k) (l_source l)"
  have share: "l_share l = (if ?T > 0 then l_value l / ?T else 0)" if "l \<in> set (g_links ?g)" for l
    using graph_shares [OF that] unfolding graph_total [OF assms(1,2)] .
  note bounds = graph_link_bounds [OF _ assms(1,3)]
  have stage: "sum_list (map (\<lambda>l. if ?P k l then l_value l else 0) (g_links ?g)) = ?T"
    if "k \<in> set (butlast (resolveVisibleStages role visible))" for k
  proof -
    have "map (\<lambda>l. if ?P k l then l_value l else 0) (g_links ?g) = map (\<lambda>l. if ?P k l then l_metric metric l else 0) (g_links ?g)"
      by (rule map_cong [OF refl]) (simp only: graph_link_value [OF _ assms(2)])
    then show ?thesis by (simp only: graph_stage_links [OF assms(1,2) that])
  qed
  have le: "l_value l \<le> ?T" if l: "l \<in> set (g_links ?g)" for l
  proof -
    obtain k where k: "k \<in> set (butlast (resolveVisibleStages role visible))" "?P k l" using bounds(2) [OF l] by blast
    have "l_value l \<in> set (map (\<lambda>l. if ?P k l then l_value l else 0) (g_links ?g))" using k(2) l by force
    then have "l_value l \<le> sum_list (map (\<lambda>l. if ?P k l then l_value l else 0) (g_links ?g))"
      by (rule member_le_sum) (use bounds(1) graph_link_value [OF _ assms(2)] in force)
    then show ?thesis unfolding stage [OF k(1)] .
  qed
  have one: "sum_list (map l_share (filter (?P k) (g_links ?g))) = 1"
    if "?T > 0" "k \<in> set (butlast (resolveVisibleStages role visible))" for k
  proof -
    have "sum_list (map l_share (filter (?P k) (g_links ?g))) = sum_list (map (\<lambda>l. (if ?P k l then l_value l else 0) / ?T) (g_links ?g))"
      unfolding sum_list_map_filter'
      by (rule arg_cong [where f = sum_list], rule map_cong [OF refl]) (simp add: share that(1))
    also have "\<dots> = ?T / ?T" unfolding divide_inverse sum_list_mult_const stage [OF that(2)] ..
    finally show ?thesis using that(1) by simp
  qed
  have "0 \<le> l_share l \<and> l_share l \<le> 1" if l: "l \<in> set (g_links ?g)" for l
    using share [OF l] bounds(1) [OF l] le [OF l] graph_link_value [OF l assms(2)] by (auto split: if_splits)
  then show ?thesis unfolding Let_def using share one by blast
qed

theorem flow_shares_are_fractions_witness:
  "sum_list (map l_share (filter (\<lambda>l. prefix (kind_prefix KUser) (l_source l))
     (g_links (buildFlowGraph sample_env sample_rows MetricQuota RoleAdmin None None EMPTY_FLOW_PATH_CONTEXT sample_options)))) = 1"
proof -
  have "KUser \<in> set (butlast (resolveVisibleStages RoleAdmin None))" by (simp add: resolveVisibleStages_def)
  moreover have "metricValue (buildSummary sample_rows) MetricQuota > 0" unfolding sample_values by simp
  ultimately show ?thesis
    using flow_shares_are_fractions [OF sample_facts(1,2,3), of sample_env RoleAdmin None None EMPTY_FLOW_PATH_CONTEXT]
    unfolding Let_def by metis
qed

end
