(* ===== verification/GoText.thy ===== *)
theory GoText
  imports Prelude
begin

text \<open>
  The part of Go's standard library that the modelled server code uses on texts. A Go string is
  modelled like a JavaScript string, as a list of code units; the functions below look only at
  characters that are one unit in both encodings, or replace such a character as a whole.
\<close>

text \<open>\<open>unicode.IsSpace\<close> and \<open>strings.TrimSpace\<close>.\<close>

definition go_space :: "jschar \<Rightarrow> bool" where
  "go_space c \<longleftrightarrow> (9 \<le> c \<and> c \<le> 13) \<or> c = 32 \<or> c = 133 \<or> c = 160 \<or> c = 5760 \<or> (8192 \<le> c \<and> c \<le> 8202)
     \<or> c = 8232 \<or> c = 8233 \<or> c = 8239 \<or> c = 8287 \<or> c = 12288"

definition TrimSpace :: "jsstr \<Rightarrow> jsstr" where
  "TrimSpace s = rev (dropWhile go_space (rev (dropWhile go_space s)))"

text \<open>\<open>strconv.Atoi\<close> on 64 bits: an optional sign and decimal digits, an error outside the range.\<close>

definition Atoi :: "jsstr \<Rightarrow> int option" where
  "Atoi s =
     (let (neg, ds) = (case s of
            [] \<Rightarrow> (False, [])
          | c # cs \<Rightarrow> if c = 45 then (True, cs) else if c = 43 then (False, cs) else (False, s))
      in if ds = [] \<or> \<not> list_all is_digit ds then None
         else let v = (if neg then - int (digits_val ds) else int (digits_val ds)) in
              if - (2 ^ 63) \<le> v \<and> v < 2 ^ 63 then Some v else None)"

definition Itoa :: "int \<Rightarrow> jsstr" where
  "Itoa i = int_text i"

lemma TrimSpace_id:
  assumes "\<forall>c \<in> set s. \<not> go_space c"
  shows "TrimSpace s = s"
proof -
  have d: "dropWhile go_space t = t" if "\<forall>c \<in> set t. \<not> go_space c" for t
    using that by (cases t) simp_all
  show ?thesis using d [of s] d [of "rev s"] assms by (simp add: TrimSpace_def)
qed

lemma go_space_blank: "go_space c \<Longrightarrow> \<not> is_digit c \<and> c \<noteq> 45 \<and> c \<noteq> 44"
  by (auto simp: go_space_def is_digit_def)

lemma Atoi_digits:
  assumes "int n < 2 ^ 63"
  shows "Atoi (nat_digits n) = Some (int n)"
proof -
  obtain c cs where c: "nat_digits n = c # cs" by (cases "nat_digits n") simp_all
  then have "is_digit c" using nat_digits_digit [of c n] by simp
  then have "c \<noteq> 45" "c \<noteq> 43" by (auto simp: is_digit_def)
  moreover have "list_all is_digit (nat_digits n)" by (simp add: list_all_iff nat_digits_digit)
  ultimately show ?thesis
    using assms digits_val_nat_digits [of n] c by (simp add: Atoi_def)
qed

end
