(* ===== verification/QuotaMath.thy ===== *)
theory QuotaMath
  imports GoText
begin





text \<open>Go's conversion \<open>int(value)\<close> truncates toward zero.\<close>

definition trunc_int :: "rat \<Rightarrow> int" where
  "trunc_int x = (if x \<ge> 0 then floor x else ceiling x)"










section \<open>The conversions stay in range\<close>

lemma trunc_int_of_int [simp]: "trunc_int (of_int i) = i"
  by (simp add: trunc_int_def)









end
