(* ===== verification/QuotaStore.thy ===== *)
theory QuotaStore
  imports GoText "HOL-Library.AList"
begin

text \<open>
  The balances of users and tokens in the server's database and the operations that change them
  (\<open>model/user.go\<close>, \<open>model/token.go\<close>), with the batched updates of \<open>model/utils.go\<close>.

  The database is a set of tables of rows. Every statement may fail: \<open>faults\<close> says for each statement, by its number,
  whether it fails and with which error; a failed statement changes nothing. Redis holds arbitrary copies of the
  balances. The updates of these copies, which run in the background and only log their errors, are not modelled:
  no theorem assumes anything of the copies. Quota is an unbounded integer: the amounts of one request come from the
  conversions of \<open>QuotaMath\<close>, which keep them in 32 bits, and the server computes with 64.
\<close>

type_synonym goerr = jsstr

section \<open>The tables\<close>

record TokenRow =
  TokenRowId :: int
  TokenRowKey :: jsstr
  RemainQuota :: int
  UsedQuota :: int

record UserSubscription =
  SubId :: int
  SubUserId :: int
  PlanId :: int
  AmountTotal :: int
  AmountUsed :: int
  StartTime :: int
  EndTime :: int
  SubStatus :: jsstr
  LastResetTime :: int
  NextResetTime :: int
  AllowWalletOverflow :: bool

record SubscriptionPreConsumeRecord =
  RecordSubId :: int
  RecordUserId :: int
  RecordPreConsumed :: int
  RecordStatus :: jsstr

record Store =
  users :: "(int \<times> int) list"
  tokenRows :: "TokenRow list"
  subscriptions :: "UserSubscription list"
  preConsumeRecords :: "(jsstr \<times> SubscriptionPreConsumeRecord) list"
  userCache :: "(int \<times> int) list"
  tokenCache :: "(jsstr \<times> int) list"
  BatchUpdateEnabled :: bool
  batchUserQuota :: "(int \<times> int) list"
  batchTokenQuota :: "(int \<times> int) list"
  faults :: "nat \<Rightarrow> goerr option"
  ticks :: nat

text \<open>One statement: it fails as the database decides, or changes the tables by \<open>f\<close>.\<close>

definition tick :: "Store \<Rightarrow> goerr option \<times> Store" where
  "tick w = (faults w (ticks w), w\<lparr>ticks := Suc (ticks w)\<rparr>)"

definition exec :: "(Store \<Rightarrow> Store) \<Rightarrow> Store \<Rightarrow> goerr option \<times> Store" where
  "exec f w = (case tick w of (Some e, w') \<Rightarrow> (Some e, w') | (None, w') \<Rightarrow> (None, f w'))"

definition err_negative :: goerr where
  "err_negative = js ''quota '' @ [19981, 33021, 20026, 36127, 25968, 65281]"

definition err_not_found :: goerr where
  "err_not_found = js ''record not found''"

section \<open>Batched updates\<close>

definition addNewRecord :: "int \<Rightarrow> int \<Rightarrow> (int \<times> int) list \<Rightarrow> (int \<times> int) list" where
  "addNewRecord rid value store =
     (case map_of store rid of
        None \<Rightarrow> AList.update rid value store
      | Some v \<Rightarrow> AList.update rid (v + value) store)"

section \<open>User balances\<close>

definition add_user_quota :: "int \<Rightarrow> int \<Rightarrow> Store \<Rightarrow> Store" where
  "add_user_quota rid q w = w\<lparr>users := map (\<lambda>(i, x). if i = rid then (i, x + q) else (i, x)) (users w)\<rparr>"

definition increaseUserQuota :: "int \<Rightarrow> int \<Rightarrow> Store \<Rightarrow> goerr option \<times> Store" where
  "increaseUserQuota rid quota w = exec (add_user_quota rid quota) w"

definition decreaseUserQuota :: "int \<Rightarrow> int \<Rightarrow> Store \<Rightarrow> goerr option \<times> Store" where
  "decreaseUserQuota rid quota w = exec (add_user_quota rid (- quota)) w"

definition IncreaseUserQuota :: "bool \<Rightarrow> int \<Rightarrow> int \<Rightarrow> Store \<Rightarrow> goerr option \<times> Store" where
  "IncreaseUserQuota db rid quota w =
     (if quota < 0 then (Some err_negative, w)
      else if \<not> db \<and> BatchUpdateEnabled w
           then (None, w\<lparr>batchUserQuota := addNewRecord rid quota (batchUserQuota w)\<rparr>)
           else increaseUserQuota rid quota w)"

definition DecreaseUserQuota :: "bool \<Rightarrow> int \<Rightarrow> int \<Rightarrow> Store \<Rightarrow> goerr option \<times> Store" where
  "DecreaseUserQuota db rid quota w =
     (if quota < 0 then (Some err_negative, w)
      else if \<not> db \<and> BatchUpdateEnabled w
           then (None, w\<lparr>batchUserQuota := addNewRecord rid (- quota) (batchUserQuota w)\<rparr>)
           else decreaseUserQuota rid quota w)"

definition DeltaUpdateUserQuota :: "int \<Rightarrow> int \<Rightarrow> Store \<Rightarrow> goerr option \<times> Store" where
  "DeltaUpdateUserQuota rid delta w =
     (if delta = 0 then (None, w)
      else if delta > 0 then IncreaseUserQuota False rid delta w
      else DecreaseUserQuota False rid (- delta) w)"

text \<open>A cached balance is used when there is one; a user without a row has the balance 0.\<close>

definition GetUserQuota :: "int \<Rightarrow> bool \<Rightarrow> Store \<Rightarrow> (goerr + int) \<times> Store" where
  "GetUserQuota rid fromDB w =
     (case (if fromDB then None else map_of (userCache w) rid) of
        Some quota \<Rightarrow> (Inr quota, w)
      | None \<Rightarrow> (case tick w of
           (Some e, w') \<Rightarrow> (Inl e, w')
         | (None, w') \<Rightarrow> (Inr (case map_of (users w) rid of None \<Rightarrow> 0 | Some q \<Rightarrow> q), w')))"

section \<open>Token balances\<close>

definition add_token_quota :: "int \<Rightarrow> int \<Rightarrow> Store \<Rightarrow> Store" where
  "add_token_quota rid q w =
     w\<lparr>tokenRows := map (\<lambda>t. if TokenRowId t = rid
         then t\<lparr>RemainQuota := RemainQuota t + q, UsedQuota := UsedQuota t - q\<rparr> else t) (tokenRows w)\<rparr>"

definition increaseTokenQuota :: "int \<Rightarrow> int \<Rightarrow> Store \<Rightarrow> goerr option \<times> Store" where
  "increaseTokenQuota rid quota w = exec (add_token_quota rid quota) w"

definition decreaseTokenQuota :: "int \<Rightarrow> int \<Rightarrow> Store \<Rightarrow> goerr option \<times> Store" where
  "decreaseTokenQuota rid quota w = exec (add_token_quota rid (- quota)) w"

definition IncreaseTokenQuota :: "int \<Rightarrow> int \<Rightarrow> Store \<Rightarrow> goerr option \<times> Store" where
  "IncreaseTokenQuota rid quota w =
     (if quota < 0 then (Some err_negative, w)
      else if BatchUpdateEnabled w
           then (None, w\<lparr>batchTokenQuota := addNewRecord rid quota (batchTokenQuota w)\<rparr>)
           else increaseTokenQuota rid quota w)"

definition DecreaseTokenQuota :: "int \<Rightarrow> int \<Rightarrow> Store \<Rightarrow> goerr option \<times> Store" where
  "DecreaseTokenQuota rid quota w =
     (if quota < 0 then (Some err_negative, w)
      else if BatchUpdateEnabled w
           then (None, w\<lparr>batchTokenQuota := addNewRecord rid (- quota) (batchTokenQuota w)\<rparr>)
           else decreaseTokenQuota rid quota w)"

text \<open>The remaining quota of the token with a key, the only field the modelled code reads of it.\<close>

definition GetTokenByKey :: "jsstr \<Rightarrow> bool \<Rightarrow> Store \<Rightarrow> (goerr + int) \<times> Store" where
  "GetTokenByKey key fromDB w =
     (case (if fromDB then None else map_of (tokenCache w) key) of
        Some q \<Rightarrow> (Inr q, w)
      | None \<Rightarrow> (case tick w of
           (Some e, w') \<Rightarrow> (Inl e, w')
         | (None, w') \<Rightarrow> (case find (\<lambda>t. TokenRowKey t = key) (tokenRows w) of
             None \<Rightarrow> (Inl err_not_found, w')
           | Some t \<Rightarrow> (Inr (RemainQuota t), w'))))"

section \<open>Writing the batch\<close>

text \<open>
  The stores of used quota, request counts and channel quotas, which are statistics, are not modelled. A failed
  statement is logged and its amount is lost.
\<close>

fun flush_tokens :: "(int \<times> int) list \<Rightarrow> Store \<Rightarrow> Store" where
  "flush_tokens [] w = w"
| "flush_tokens ((key, value) # rest) w = flush_tokens rest (snd (increaseTokenQuota key value w))"

definition updateUserQuota :: "int \<Rightarrow> int \<Rightarrow> Store \<Rightarrow> Store" where
  "updateUserQuota rid quota w = (if quota = 0 then w else snd (exec (add_user_quota rid quota) w))"

fun flush_users :: "(int \<times> int) list \<Rightarrow> Store \<Rightarrow> Store" where
  "flush_users [] w = w"
| "flush_users ((key, value) # rest) w = flush_users rest (updateUserQuota key value w)"

definition batchUpdate :: "Store \<Rightarrow> Store" where
  "batchUpdate w =
     (if batchUserQuota w = [] \<and> batchTokenQuota w = [] then w
      else flush_users (batchUserQuota w) (flush_tokens (batchTokenQuota w)
             (w\<lparr>batchUserQuota := [], batchTokenQuota := []\<rparr>)))"

section \<open>What the operations do to a balance\<close>

definition pending :: "(int \<times> int) list \<Rightarrow> int \<Rightarrow> int" where
  "pending store rid = (case map_of store rid of None \<Rightarrow> 0 | Some v \<Rightarrow> v)"

text \<open>The balance of a user or token: the row together with what is still to be written to it.\<close>

definition user_funds :: "Store \<Rightarrow> int \<Rightarrow> int option" where
  "user_funds w rid = map_option (\<lambda>q. q + pending (batchUserQuota w) rid) (map_of (users w) rid)"

definition token_funds :: "Store \<Rightarrow> int \<Rightarrow> int option" where
  "token_funds w rid = map_option (\<lambda>t. RemainQuota t + pending (batchTokenQuota w) rid)
     (find (\<lambda>t. TokenRowId t = rid) (tokenRows w))"

text \<open>A column of balances that is changed by relative updates only.\<close>

locale quota_column =
  fixes funds :: "Store \<Rightarrow> int \<Rightarrow> int option"
    and inc :: "int \<Rightarrow> int \<Rightarrow> Store \<Rightarrow> goerr option \<times> Store"
    and dec :: "int \<Rightarrow> int \<Rightarrow> Store \<Rightarrow> goerr option \<times> Store"
  assumes inc_ok: "inc rid q w = (None, w') \<Longrightarrow>
      0 \<le> q \<and> funds w' i = (if i = rid then map_option (\<lambda>x. x + q) (funds w i) else funds w i)"
    and inc_err: "inc rid q w = (Some e, w') \<Longrightarrow> funds w' = funds w"
    and dec_ok: "dec rid q w = (None, w') \<Longrightarrow>
      0 \<le> q \<and> funds w' i = (if i = rid then map_option (\<lambda>x. x - q) (funds w i) else funds w i)"
    and dec_err: "dec rid q w = (Some e, w') \<Longrightarrow> funds w' = funds w"
begin

text \<open>Taking \<open>delta\<close> from a balance, or giving back \<open>- delta\<close>.\<close>

lemma adjusted:
  assumes "(if delta > 0 then dec rid delta w else inc rid (- delta) w) = (None, w')"
  shows "funds w' i = (if i = rid then map_option (\<lambda>x. x - delta) (funds w i) else funds w i)"
  using assms inc_ok [of rid "- delta" w w' i] dec_ok [of rid delta w w' i] by (auto split: if_splits)

lemma not_adjusted:
  assumes "(if delta > 0 then dec rid delta w else inc rid (- delta) w) = (Some e, w')"
  shows "funds w' = funds w"
  using assms inc_err [of rid "- delta" w e w'] dec_err [of rid delta w e w'] by (auto split: if_splits)

end

lemma pending_add: "pending (addNewRecord rid v store) i = (if i = rid then pending store i + v else pending store i)"
  by (auto simp: pending_def addNewRecord_def update_conv' split: option.splits)

lemma map_of_add: "map_of (map (\<lambda>(i, x). if i = rid then (i, x + q) else (i, x)) us) i
    = (if i = rid then map_option (\<lambda>x. x + q) (map_of us i) else map_of us i)"
  by (induction us) auto

lemma find_add:
  assumes "\<And>t. TokenRowId (f t) = TokenRowId t"
  shows "find (\<lambda>t. TokenRowId t = i) (map (\<lambda>t. if TokenRowId t = rid then f t else t) ts)
    = (if i = rid then map_option f (find (\<lambda>t. TokenRowId t = i) ts) else find (\<lambda>t. TokenRowId t = i) ts)"
  by (induction ts) (auto simp: assms)

lemma tick_simps [simp]:
  "tick w = (e, w') \<longleftrightarrow> e = faults w (ticks w) \<and> w' = w\<lparr>ticks := Suc (ticks w)\<rparr>"
  by (auto simp: tick_def)

lemma exec_cases:
  "exec f w = (None, w') \<longleftrightarrow> faults w (ticks w) = None \<and> w' = f (w\<lparr>ticks := Suc (ticks w)\<rparr>)"
  "exec f w = (Some e, w') \<longleftrightarrow> faults w (ticks w) = Some e \<and> w' = w\<lparr>ticks := Suc (ticks w)\<rparr>"
  by (auto simp: exec_def tick_def split: option.splits)

lemma user_funds_add: "user_funds (add_user_quota rid q w) i = (if i = rid then map_option (\<lambda>x. x + q) (user_funds w i) else user_funds w i)"
  by (simp add: user_funds_def add_user_quota_def map_of_add option.map_comp comp_def algebra_simps)

lemma token_funds_add: "token_funds (add_token_quota rid q w) i = (if i = rid then map_option (\<lambda>x. x + q) (token_funds w i) else token_funds w i)"
  by (simp add: token_funds_def add_token_quota_def find_add option.map_comp comp_def algebra_simps)

lemma funds_ticks [simp]:
  "user_funds (w\<lparr>ticks := n\<rparr>) = user_funds w" "token_funds (w\<lparr>ticks := n\<rparr>) = token_funds w"
  by (simp_all add: user_funds_def token_funds_def fun_eq_iff)

lemma user_funds_pending: "user_funds (w\<lparr>batchUserQuota := addNewRecord rid q (batchUserQuota w)\<rparr>) i
    = (if i = rid then map_option (\<lambda>x. x + q) (user_funds w i) else user_funds w i)"
  by (simp add: user_funds_def pending_add option.map_comp comp_def algebra_simps)

lemma token_funds_pending: "token_funds (w\<lparr>batchTokenQuota := addNewRecord rid q (batchTokenQuota w)\<rparr>) i
    = (if i = rid then map_option (\<lambda>x. x + q) (token_funds w i) else token_funds w i)"
  by (simp add: token_funds_def pending_add option.map_comp comp_def algebra_simps)

lemmas user_ops = IncreaseUserQuota_def DecreaseUserQuota_def increaseUserQuota_def decreaseUserQuota_def
lemmas token_ops = IncreaseTokenQuota_def DecreaseTokenQuota_def increaseTokenQuota_def decreaseTokenQuota_def

interpretation wallet: quota_column user_funds "IncreaseUserQuota db" "DecreaseUserQuota db"
  by unfold_locales (auto simp: user_ops exec_cases user_funds_add user_funds_pending split: if_splits)

interpretation token: quota_column token_funds IncreaseTokenQuota DecreaseTokenQuota
  by unfold_locales (auto simp: token_ops exec_cases token_funds_add token_funds_pending split: if_splits)

text \<open>Operations on one kind of balance leave the other tables alone.\<close>

lemma user_frame:
  "IncreaseUserQuota db rid q w = (e, w') \<Longrightarrow> token_funds w' = token_funds w \<and> subscriptions w' = subscriptions w
     \<and> preConsumeRecords w' = preConsumeRecords w \<and> faults w' = faults w"
  "DecreaseUserQuota db rid q w = (e, w') \<Longrightarrow> token_funds w' = token_funds w \<and> subscriptions w' = subscriptions w
     \<and> preConsumeRecords w' = preConsumeRecords w \<and> faults w' = faults w"
  by (auto simp: user_ops exec_def tick_def add_user_quota_def token_funds_def fun_eq_iff split: if_splits option.splits)

lemma token_frame:
  "IncreaseTokenQuota rid q w = (e, w') \<Longrightarrow> user_funds w' = user_funds w \<and> subscriptions w' = subscriptions w
     \<and> preConsumeRecords w' = preConsumeRecords w \<and> faults w' = faults w"
  "DecreaseTokenQuota rid q w = (e, w') \<Longrightarrow> user_funds w' = user_funds w \<and> subscriptions w' = subscriptions w
     \<and> preConsumeRecords w' = preConsumeRecords w \<and> faults w' = faults w"
  by (auto simp: token_ops exec_def tick_def add_token_quota_def user_funds_def fun_eq_iff split: if_splits option.splits)

lemma read_frame:
  "GetUserQuota rid db w = (r, w') \<Longrightarrow> \<exists>n. w' = w\<lparr>ticks := n\<rparr>"
  "GetTokenByKey key db w = (r2, w') \<Longrightarrow> \<exists>n. w' = w\<lparr>ticks := n\<rparr>"
  by (auto simp: GetUserQuota_def GetTokenByKey_def tick_def split: option.splits if_splits intro: exI [of _ "ticks w"])

section \<open>Writing the batch keeps the balances\<close>

lemma batch_keys_distinct: "distinct (map fst store) \<Longrightarrow> distinct (map fst (addNewRecord rid v store))"
  by (auto simp: addNewRecord_def distinct_update split: option.splits)

lemma pending_Cons: "distinct (map fst ((k, v) # b)) \<Longrightarrow> pending ((k, v) # b) i = pending b i + (if i = k then v else 0)"
  using map_of_eq_None_iff [of b k] by (auto simp: pending_def)

definition quiet :: "Store \<Rightarrow> bool" where
  "quiet w \<longleftrightarrow> (\<forall>n \<ge> ticks w. faults w n = None)"

lemma quiet_exec: "quiet w \<Longrightarrow> exec f w = (None, f (w\<lparr>ticks := Suc (ticks w)\<rparr>))"
  by (simp add: quiet_def exec_def tick_def)

lemma quiet_add [simp]:
  "quiet (add_user_quota rid q (w\<lparr>ticks := Suc (ticks w)\<rparr>)) = quiet (w\<lparr>ticks := Suc (ticks w)\<rparr>)"
  "quiet (add_token_quota rid q (w\<lparr>ticks := Suc (ticks w)\<rparr>)) = quiet (w\<lparr>ticks := Suc (ticks w)\<rparr>)"
  by (simp_all add: quiet_def add_user_quota_def add_token_quota_def)

lemma quiet_Suc: "quiet w \<Longrightarrow> quiet (w\<lparr>ticks := Suc (ticks w)\<rparr>)"
  by (simp add: quiet_def)

lemma flush_users_funds:
  assumes "quiet w" "distinct (map fst b)"
  shows "user_funds (flush_users b w) i = map_option (\<lambda>x. x + pending b i) (user_funds w i)"
  using assms
proof (induction b arbitrary: w)
  case Nil
  then show ?case by (simp add: pending_def option.map_ident)
next
  case (Cons kv b)
  obtain k v where [simp]: "kv = (k, v)" by (cases kv)
  have "quiet (updateUserQuota k v w)"
    using Cons.prems(1) by (simp add: updateUserQuota_def quiet_exec quiet_Suc)
  moreover have "user_funds (updateUserQuota k v w) i = (if i = k then map_option (\<lambda>x. x + v) (user_funds w i) else user_funds w i)"
    using Cons.prems(1) by (simp add: updateUserQuota_def quiet_exec user_funds_add option.map_ident)
  ultimately show ?case
    using Cons.IH [of "updateUserQuota k v w"] Cons.prems(2) pending_Cons [of k v b i]
    by (simp add: option.map_comp comp_def algebra_simps)
qed

lemma flush_tokens_funds:
  assumes "quiet w" "distinct (map fst b)"
  shows "token_funds (flush_tokens b w) i = map_option (\<lambda>x. x + pending b i) (token_funds w i) \<and> quiet (flush_tokens b w)"
  using assms
proof (induction b arbitrary: w)
  case Nil
  then show ?case by (simp add: pending_def option.map_ident)
next
  case (Cons kv b)
  obtain k v where [simp]: "kv = (k, v)" by (cases kv)
  have "quiet (snd (increaseTokenQuota k v w))"
    using Cons.prems(1) by (simp add: increaseTokenQuota_def quiet_exec quiet_Suc)
  moreover have "token_funds (snd (increaseTokenQuota k v w)) i = (if i = k then map_option (\<lambda>x. x + v) (token_funds w i) else token_funds w i)"
    using Cons.prems(1) by (simp add: increaseTokenQuota_def quiet_exec token_funds_add)
  ultimately show ?case
    using Cons.IH [of "snd (increaseTokenQuota k v w)"] Cons.prems(2) pending_Cons [of k v b i]
    by (simp add: option.map_comp comp_def algebra_simps)
qed

lemma flush_columns:
  "users (flush_tokens b w) = users w \<and> batchUserQuota (flush_tokens b w) = batchUserQuota w \<and> batchTokenQuota (flush_tokens b w) = batchTokenQuota w"
  "tokenRows (flush_users b w) = tokenRows w \<and> batchUserQuota (flush_users b w) = batchUserQuota w \<and> batchTokenQuota (flush_users b w) = batchTokenQuota w"
  by (induction b arbitrary: w)
    (auto simp: increaseTokenQuota_def updateUserQuota_def exec_def tick_def add_token_quota_def add_user_quota_def split: option.splits)

text \<open>
  C24: writing the batched updates changes no balance. When no statement fails, every user and every token has the same
  balance afterwards, counting what was still to be written before, and nothing is left to be written.
\<close>

theorem batch_update_keeps_balances:
  assumes "quiet w" "distinct (map fst (batchUserQuota w))" "distinct (map fst (batchTokenQuota w))"
  shows "user_funds (batchUpdate w) = user_funds w \<and> token_funds (batchUpdate w) = token_funds w
    \<and> batchUserQuota (batchUpdate w) = [] \<and> batchTokenQuota (batchUpdate w) = []"
proof (cases "batchUserQuota w = [] \<and> batchTokenQuota w = []")
  case False
  let ?w0 = "w\<lparr>batchUserQuota := [], batchTokenQuota := []\<rparr>"
  let ?w1 = "flush_tokens (batchTokenQuota w) ?w0"
  let ?w2 = "flush_users (batchUserQuota w) ?w1"
  have w2: "batchUpdate w = ?w2" using False by (simp add: batchUpdate_def)
  have q: "quiet ?w0" using assms(1) by (simp add: quiet_def)
  note t = flush_tokens_funds [OF q assms(3)]
  note u = flush_users_funds [OF conjunct2 [OF t] assms(2)]
  have e: "users ?w1 = users w" "batchUserQuota ?w1 = []" "batchUserQuota ?w2 = []" "batchTokenQuota ?w1 = []" "batchTokenQuota ?w2 = []"
    "tokenRows ?w2 = tokenRows ?w1"
    using flush_columns by simp_all
  have "user_funds ?w2 i = user_funds w i" for i
    unfolding u by (simp add: user_funds_def e pending_def [of "[]"] option.map_comp comp_def)
  moreover have "token_funds ?w2 i = token_funds ?w1 i" for i by (simp add: token_funds_def e)
  moreover have "token_funds ?w1 i = token_funds w i" for i
    unfolding conjunct1 [OF t] by (simp add: token_funds_def pending_def [of "[]"] option.map_comp comp_def)
  ultimately show ?thesis by (simp add: w2 e fun_eq_iff)
qed (simp add: batchUpdate_def)

definition demo_store :: Store where
  "demo_store =
     \<lparr>users = [(1, 1000)], tokenRows = [\<lparr>TokenRowId = 7, TokenRowKey = js ''k'', RemainQuota = 500, UsedQuota = 0\<rparr>],
      subscriptions = [], preConsumeRecords = [], userCache = [], tokenCache = [], BatchUpdateEnabled = False,
      batchUserQuota = [], batchTokenQuota = [], faults = (\<lambda>_. None), ticks = 0\<rparr>"

theorem batch_update_keeps_balances_witness:
  "user_funds (demo_store\<lparr>batchUserQuota := [(1, - 30)]\<rparr>) 1 = Some 970
   \<and> user_funds (batchUpdate (demo_store\<lparr>batchUserQuota := [(1, - 30)]\<rparr>)) 1 = Some 970"
  using batch_update_keeps_balances [of "demo_store\<lparr>batchUserQuota := [(1, - 30)]\<rparr>"]
  by (simp add: quiet_def demo_store_def user_funds_def pending_def)

end
