(* ===== verification/SubscriptionStore.thy ===== *)
theory SubscriptionStore
  imports QuotaStore "HOL-Library.Product_Lexorder"
begin

text \<open>
  The quota of subscriptions (\<open>model/subscription.go\<close>): taking an amount for a request, adjusting it, giving it back,
  and the periodic reset. A database transaction collects its writes and applies them when it commits; the statements
  in it and the commit itself may fail, and then nothing of it is written.
\<close>

section \<open>Plans and resets\<close>

record SubscriptionPlan =
  QuotaResetPeriod :: jsstr
  QuotaResetCustomSeconds :: int

text \<open>
  What the operations read from outside the tables: the time, the plans (from a cache or their own table), and the
  calendar of the server's time zone, which gives the start of the next day, week or month after a moment.
\<close>

record SubEnv =
  now :: int
  planRead :: "int \<Rightarrow> goerr + SubscriptionPlan"
  planInfo :: "int \<Rightarrow> (int \<times> jsstr) option"
  calendar :: "jsstr \<Rightarrow> int \<Rightarrow> int"

definition NormalizeResetPeriod :: "jsstr \<Rightarrow> jsstr" where
  "NormalizeResetPeriod period =
     (if TrimSpace period \<in> {js ''daily'', js ''weekly'', js ''monthly'', js ''custom''} then TrimSpace period else js ''never'')"

definition wrap64 :: "int \<Rightarrow> int" where
  "wrap64 x = (x + 2 ^ 63) mod 2 ^ 64 - 2 ^ 63"

definition calcNextResetTime :: "SubEnv \<Rightarrow> SubscriptionPlan \<Rightarrow> int \<Rightarrow> int \<Rightarrow> int" where
  "calcNextResetTime env plan endUnix base =
     (let period = NormalizeResetPeriod (QuotaResetPeriod plan) in
      if period = js ''never'' then 0
      else if period = js ''custom'' \<and> QuotaResetCustomSeconds plan \<le> 0 then 0
      else let next = (if period = js ''custom''
                       then base + wrap64 (QuotaResetCustomSeconds plan * 1000000000) div 1000000000
                       else calendar env period base)
           in if endUnix > 0 \<and> next > endUnix then 0 else next)"

text \<open>The loop that moves the reset time past now; the third result says whether it moved.\<close>

fun reset_loop :: "nat \<Rightarrow> (int \<Rightarrow> int) \<Rightarrow> int \<Rightarrow> int \<Rightarrow> int \<Rightarrow> bool \<Rightarrow> int \<times> int \<times> bool" where
  "reset_loop 0 calc n base next advanced = (base, next, advanced)"
| "reset_loop (Suc fuel) calc n base next advanced =
     (if next > 0 \<and> next \<le> n then reset_loop fuel calc n next (calc next) True else (base, next, advanced))"

definition save_sub :: "UserSubscription \<Rightarrow> Store \<Rightarrow> Store" where
  "save_sub sub w = w\<lparr>subscriptions := map (\<lambda>s. if SubId s = SubId sub then sub else s) (subscriptions w)\<rparr>"

text \<open>The error, the subscription, the write of the transaction, and the store after the statement.\<close>

definition maybeResetUserSubscriptionWithPlanTx ::
    "SubEnv \<Rightarrow> UserSubscription \<Rightarrow> SubscriptionPlan \<Rightarrow> Store \<Rightarrow> goerr option \<times> UserSubscription \<times> (Store \<Rightarrow> Store) \<times> Store" where
  "maybeResetUserSubscriptionWithPlanTx env sub plan w =
     (if NextResetTime sub > 0 \<and> NextResetTime sub > now env then (None, sub, id, w)
      else if NormalizeResetPeriod (QuotaResetPeriod plan) = js ''never'' then (None, sub, id, w)
      else let base0 = (if LastResetTime sub \<le> 0 then StartTime sub else LastResetTime sub);
               calc = calcNextResetTime env plan (EndTime sub);
               (base, next, advanced) = reset_loop (Suc (nat (now env))) calc (now env) base0 (calc base0) False
           in if \<not> advanced then
                (if NextResetTime sub = 0 \<and> next > 0 then
                   (let sub' = sub\<lparr>NextResetTime := next, LastResetTime := base\<rparr>; (e, w') = tick w
                    in (e, sub', save_sub sub', w'))
                 else (None, sub, id, w))
              else
                (let sub' = sub\<lparr>AmountUsed := 0, LastResetTime := base, NextResetTime := next\<rparr>; (e, w') = tick w
                 in (e, sub', save_sub sub', w')))"

section \<open>Transactions\<close>

definition transaction :: "(Store \<Rightarrow> (goerr + 'a) \<times> (Store \<Rightarrow> Store) \<times> Store) \<Rightarrow> Store \<Rightarrow> (goerr + 'a) \<times> Store" where
  "transaction body w =
     (case body w of
        (Inl e, writes, w') \<Rightarrow> (Inl e, w')
      | (Inr x, writes, w') \<Rightarrow> (case tick w' of (Some e, w'') \<Rightarrow> (Inl e, w'') | (None, w'') \<Rightarrow> (Inr x, writes w'')))"

section \<open>Taking an amount for a request\<close>

record SubscriptionPreConsumeResult =
  UserSubscriptionId :: int
  PreConsumed :: int
  ResAmountTotal :: int
  AmountUsedBefore :: int
  AmountUsedAfter :: int

definition err_refunded :: goerr where
  "err_refunded = js ''subscription pre-consume already refunded''"

definition err_no_active :: goerr where
  "err_no_active = js ''no active subscription''"

definition active_subscriptions :: "SubEnv \<Rightarrow> int \<Rightarrow> Store \<Rightarrow> UserSubscription list" where
  "active_subscriptions env userId w =
     sort_key (\<lambda>s. (EndTime s, SubId s))
       (filter (\<lambda>s. SubUserId s = userId \<and> SubStatus s = js ''active'' \<and> EndTime s > now env) (subscriptions w))"

definition save_record :: "jsstr \<Rightarrow> SubscriptionPreConsumeRecord \<Rightarrow> Store \<Rightarrow> Store" where
  "save_record requestId r w = w\<lparr>preConsumeRecords := AList.update requestId r (preConsumeRecords w)\<rparr>"

text \<open>The record of a request is unique: creating a second one fails.\<close>

definition create_record :: "jsstr \<Rightarrow> Store \<Rightarrow> goerr option \<times> Store" where
  "create_record requestId w =
     (case tick w of
        (Some e, w') \<Rightarrow> (Some e, w')
      | (None, w') \<Rightarrow> (if map_of (preConsumeRecords w) requestId = None then None else Some (js ''duplicated key not allowed''), w'))"

definition consume_candidate :: "jsstr \<Rightarrow> int \<Rightarrow> int \<Rightarrow> UserSubscription \<Rightarrow> (Store \<Rightarrow> Store) \<Rightarrow> Store
    \<Rightarrow> (goerr + SubscriptionPreConsumeResult) \<times> (Store \<Rightarrow> Store) \<times> Store" where
  "consume_candidate requestId userId amount sub writes w =
     (case create_record requestId w of
        (Some e, w1) \<Rightarrow>
          (case tick w1 of
             (Some e2, w2) \<Rightarrow> (Inl e, writes, w2)
           | (None, w2) \<Rightarrow>
               (case map_of (preConsumeRecords w2) requestId of
                  None \<Rightarrow> (Inl e, writes, w2)
                | Some dup \<Rightarrow>
                    if RecordStatus dup = js ''refunded'' then (Inl err_refunded, writes, w2)
                    else (Inr \<lparr>UserSubscriptionId = SubId sub, PreConsumed = RecordPreConsumed dup, ResAmountTotal = AmountTotal sub,
                               AmountUsedBefore = AmountUsed sub, AmountUsedAfter = AmountUsed sub\<rparr>, writes, w2)))
      | (None, w1) \<Rightarrow>
          let sub' = sub\<lparr>AmountUsed := AmountUsed sub + amount\<rparr>;
              writes1 = save_record requestId \<lparr>RecordSubId = SubId sub, RecordUserId = userId, RecordPreConsumed = amount,
                                               RecordStatus = js ''consumed''\<rparr> \<circ> writes
          in (case tick w1 of
                (Some e, w2) \<Rightarrow> (Inl e, writes1, w2)
              | (None, w2) \<Rightarrow>
                  (Inr \<lparr>UserSubscriptionId = SubId sub, PreConsumed = amount, ResAmountTotal = AmountTotal sub,
                        AmountUsedBefore = AmountUsed sub, AmountUsedAfter = AmountUsed sub'\<rparr>,
                   save_sub sub' \<circ> writes1, w2)))"

fun consume_from :: "SubEnv \<Rightarrow> jsstr \<Rightarrow> int \<Rightarrow> int \<Rightarrow> UserSubscription list \<Rightarrow> (Store \<Rightarrow> Store) \<Rightarrow> Store
    \<Rightarrow> (goerr + SubscriptionPreConsumeResult) \<times> (Store \<Rightarrow> Store) \<times> Store" where
  "consume_from env requestId userId amount [] writes w =
     (Inl (js ''subscription quota insufficient, need='' @ Itoa amount), writes, w)"
| "consume_from env requestId userId amount (candidate # rest) writes w =
     (case planRead env (PlanId candidate) of
        Inl e \<Rightarrow> (Inl e, writes, w)
      | Inr plan \<Rightarrow>
          (case maybeResetUserSubscriptionWithPlanTx env candidate plan w of
             (Some e, sub, wr, w1) \<Rightarrow> (Inl e, writes, w1)
           | (None, sub, wr, w1) \<Rightarrow>
               if AmountTotal sub > 0 \<and> AmountTotal sub - AmountUsed sub < amount
               then consume_from env requestId userId amount rest (wr \<circ> writes) w1
               else consume_candidate requestId userId amount sub (wr \<circ> writes) w1))"

definition preconsume_tx :: "SubEnv \<Rightarrow> jsstr \<Rightarrow> int \<Rightarrow> int \<Rightarrow> Store
    \<Rightarrow> (goerr + SubscriptionPreConsumeResult) \<times> (Store \<Rightarrow> Store) \<times> Store" where
  "preconsume_tx env requestId userId amount w =
     (case tick w of
        (Some e, w1) \<Rightarrow> (Inl e, id, w1)
      | (None, w1) \<Rightarrow>
          (case map_of (preConsumeRecords w1) requestId of
             Some existing \<Rightarrow>
               if RecordStatus existing = js ''refunded'' then (Inl err_refunded, id, w1)
               else (case tick w1 of
                       (Some e, w2) \<Rightarrow> (Inl e, id, w2)
                     | (None, w2) \<Rightarrow>
                         (case find (\<lambda>s. SubId s = RecordSubId existing) (subscriptions w2) of
                            None \<Rightarrow> (Inl err_not_found, id, w2)
                          | Some sub \<Rightarrow>
                              (Inr \<lparr>UserSubscriptionId = SubId sub, PreConsumed = RecordPreConsumed existing, ResAmountTotal = AmountTotal sub,
                                    AmountUsedBefore = AmountUsed sub, AmountUsedAfter = AmountUsed sub\<rparr>, id, w2)))
           | None \<Rightarrow>
               (case tick w1 of
                  (Some e, w2) \<Rightarrow> (Inl err_no_active, id, w2)
                | (None, w2) \<Rightarrow>
                    let subs = active_subscriptions env userId w2
                    in if subs = [] then (Inl err_no_active, id, w2)
                       else consume_from env requestId userId amount subs id w2)))"

definition PreConsumeUserSubscription :: "SubEnv \<Rightarrow> jsstr \<Rightarrow> int \<Rightarrow> int \<Rightarrow> Store \<Rightarrow> (goerr + SubscriptionPreConsumeResult) \<times> Store" where
  "PreConsumeUserSubscription env requestId userId amount w =
     (if userId \<le> 0 then (Inl (js ''invalid userId''), w)
      else if TrimSpace requestId = [] then (Inl (js ''requestId is empty''), w)
      else if amount \<le> 0 then (Inl (js ''amount must be > 0''), w)
      else transaction (preconsume_tx env requestId userId amount) w)"

section \<open>Adjusting and giving back\<close>

definition delta_tx :: "int \<Rightarrow> int \<Rightarrow> Store \<Rightarrow> (goerr + unit) \<times> (Store \<Rightarrow> Store) \<times> Store" where
  "delta_tx subId delta w =
     (case tick w of
        (Some e, w1) \<Rightarrow> (Inl e, id, w1)
      | (None, w1) \<Rightarrow>
          (case find (\<lambda>s. SubId s = subId) (subscriptions w1) of
             None \<Rightarrow> (Inl err_not_found, id, w1)
           | Some sub \<Rightarrow>
               let newUsed = (if AmountUsed sub + delta < 0 then 0 else AmountUsed sub + delta)
               in if AmountTotal sub > 0 \<and> newUsed > AmountTotal sub
                  then (Inl (js ''subscription used exceeds total, used='' @ Itoa newUsed @ js '' total='' @ Itoa (AmountTotal sub)), id, w1)
                  else (case tick w1 of
                          (Some e, w2) \<Rightarrow> (Inl e, id, w2)
                        | (None, w2) \<Rightarrow> (Inr (), save_sub (sub\<lparr>AmountUsed := newUsed\<rparr>), w2))))"

definition as_error :: "(goerr + unit) \<times> Store \<Rightarrow> goerr option \<times> Store" where
  "as_error r = (case r of (Inl e, w) \<Rightarrow> (Some e, w) | (Inr u, w) \<Rightarrow> (None, w))"

definition PostConsumeUserSubscriptionDelta :: "int \<Rightarrow> int \<Rightarrow> Store \<Rightarrow> goerr option \<times> Store" where
  "PostConsumeUserSubscriptionDelta subId delta w =
     (if subId \<le> 0 then (Some (js ''invalid userSubscriptionId''), w)
      else if delta = 0 then (None, w)
      else as_error (transaction (delta_tx subId delta) w))"

text \<open>The adjustment inside this transaction is a transaction of its own, on another connection.\<close>

definition refund_tx :: "jsstr \<Rightarrow> Store \<Rightarrow> (goerr + unit) \<times> (Store \<Rightarrow> Store) \<times> Store" where
  "refund_tx requestId w =
     (case tick w of
        (Some e, w1) \<Rightarrow> (Inl e, id, w1)
      | (None, w1) \<Rightarrow>
          (case map_of (preConsumeRecords w1) requestId of
             None \<Rightarrow> (Inl err_not_found, id, w1)
           | Some r \<Rightarrow>
               if RecordStatus r = js ''refunded'' then (Inr (), id, w1)
               else let save = (\<lambda>w2. case tick w2 of
                          (Some e, w3) \<Rightarrow> (Inl e, id, w3)
                        | (None, w3) \<Rightarrow> (Inr (), save_record requestId (r\<lparr>RecordStatus := js ''refunded''\<rparr>), w3))
                    in if RecordPreConsumed r \<le> 0 then save w1
                       else (case PostConsumeUserSubscriptionDelta (RecordSubId r) (- RecordPreConsumed r) w1 of
                               (Some e, w2) \<Rightarrow> (Inl e, id, w2)
                             | (None, w2) \<Rightarrow> save w2)))"

definition RefundSubscriptionPreConsume :: "jsstr \<Rightarrow> Store \<Rightarrow> goerr option \<times> Store" where
  "RefundSubscriptionPreConsume requestId w =
     (if TrimSpace requestId = [] then (Some (js ''requestId is empty''), w)
      else as_error (transaction (refund_tx requestId) w))"

section \<open>Queries and the reset task\<close>

definition HasActiveUserSubscription :: "SubEnv \<Rightarrow> int \<Rightarrow> Store \<Rightarrow> (goerr + bool) \<times> Store" where
  "HasActiveUserSubscription env userId w =
     (if userId \<le> 0 then (Inl (js ''invalid userId''), w)
      else case tick w of
             (Some e, w') \<Rightarrow> (Inl e, w')
           | (None, w') \<Rightarrow> (Inr (list_ex (\<lambda>s. SubUserId s = userId \<and> SubStatus s = js ''active'' \<and> EndTime s > now env) (subscriptions w)), w'))"

definition UserActiveSubscriptionsAllowWalletOverflow :: "SubEnv \<Rightarrow> int \<Rightarrow> Store \<Rightarrow> (goerr + bool) \<times> Store" where
  "UserActiveSubscriptionsAllowWalletOverflow env userId w =
     (if userId \<le> 0 then (Inl (js ''invalid userId''), w)
      else case tick w of
             (Some e, w') \<Rightarrow> (Inl e, w')
           | (None, w') \<Rightarrow> (Inr (\<not> list_ex (\<lambda>s. SubUserId s = userId \<and> SubStatus s = js ''active'' \<and> EndTime s > now env
                                              \<and> \<not> AllowWalletOverflow s) (subscriptions w)), w'))"

definition reset_due :: "SubEnv \<Rightarrow> UserSubscription \<Rightarrow> bool" where
  "reset_due env s \<longleftrightarrow> NextResetTime s > 0 \<and> NextResetTime s \<le> now env"

text \<open>The transaction of one subscription; the result says whether a subscription was found to reset.\<close>

definition reset_tx :: "SubEnv \<Rightarrow> SubscriptionPlan \<Rightarrow> int \<Rightarrow> Store \<Rightarrow> (goerr + bool) \<times> (Store \<Rightarrow> Store) \<times> Store" where
  "reset_tx env plan subId w =
     (case tick w of
        (Some e, w1) \<Rightarrow> (Inr False, id, w1)
      | (None, w1) \<Rightarrow>
          (case find (\<lambda>s. SubId s = subId \<and> reset_due env s) (subscriptions w1) of
             None \<Rightarrow> (Inr False, id, w1)
           | Some locked \<Rightarrow>
               (case maybeResetUserSubscriptionWithPlanTx env locked plan w1 of
                  (Some e, sub, wr, w2) \<Rightarrow> (Inl e, id, w2)
                | (None, sub, wr, w2) \<Rightarrow> (Inr True, wr, w2))))"

text \<open>The number of resets, which the task only logs, is not modelled.\<close>

fun reset_each :: "SubEnv \<Rightarrow> UserSubscription list \<Rightarrow> Store \<Rightarrow> goerr option \<times> Store" where
  "reset_each env [] w = (None, w)"
| "reset_each env (sub # rest) w =
     (case planRead env (PlanId sub) of
        Inl e \<Rightarrow> reset_each env rest w
      | Inr plan \<Rightarrow>
          (case transaction (reset_tx env plan (SubId sub)) w of
             (Inl e, w1) \<Rightarrow> (Some e, w1)
           | (Inr counted, w1) \<Rightarrow> reset_each env rest w1))"

definition ResetDueSubscriptions :: "SubEnv \<Rightarrow> int \<Rightarrow> Store \<Rightarrow> goerr option \<times> Store" where
  "ResetDueSubscriptions env limit w =
     (let l = (if limit \<le> 0 then 200 else limit) in
      case tick w of
        (Some e, w1) \<Rightarrow> (Some e, w1)
      | (None, w1) \<Rightarrow>
          reset_each env (take (nat l) (sort_key NextResetTime
            (filter (\<lambda>s. reset_due env s \<and> SubStatus s = js ''active'') (subscriptions w1)))) w1)"

end
