(* ===== verification/SubscriptionProperties.thy ===== *)
theory SubscriptionProperties
  imports SubscriptionStore
begin

text \<open>
  What the operations on subscriptions keep, and what they do to the used amount. The locale
  \<open>subscription_property\<close> collects what a property of the tables needs so that every operation keeps it.
\<close>

section \<open>The reset loop\<close>

lemma reset_loop_done:
  assumes "\<And>b. calc b > b \<or> calc b \<le> 0" "next > 0 \<Longrightarrow> nat (n + 1 - next) \<le> fuel" "reset_loop fuel calc n base next adv = (b, x, a)"
  shows "\<not> (x > 0 \<and> x \<le> n)"
  using assms(2,3)
proof (induction fuel arbitrary: base "next" adv)
  case (Suc fuel)
  have "nat (n + 1 - calc next) \<le> fuel" if "calc next > 0" "next > 0" "next \<le> n"
    using assms(1) [of "next"] Suc.prems(1) that by linarith
  with Suc show ?case by (auto split: if_splits)
qed auto

lemma maybeReset_result:
  "maybeResetUserSubscriptionWithPlanTx env sub plan w = (None, sub, id, w)
   \<or> (\<exists>sub' a b. maybeResetUserSubscriptionWithPlanTx env sub plan w
         = (faults w (ticks w), sub', save_sub sub', w\<lparr>ticks := Suc (ticks w)\<rparr>)
       \<and> (sub' = sub\<lparr>LastResetTime := a, NextResetTime := b\<rparr> \<or> sub' = sub\<lparr>AmountUsed := 0, LastResetTime := a, NextResetTime := b\<rparr>))"
proof -
  let ?calc = "calcNextResetTime env plan (EndTime sub)"
  let ?base = "if LastResetTime sub \<le> 0 then StartTime sub else LastResetTime sub"
  obtain b x a where l: "reset_loop (Suc (nat (now env))) ?calc (now env) ?base (?calc ?base) False = (b, x, a)" by (metis prod_cases3)
  have swap: "sub\<lparr>NextResetTime := x, LastResetTime := b\<rparr> = sub\<lparr>LastResetTime := b, NextResetTime := x\<rparr>" by simp
  note d = maybeResetUserSubscriptionWithPlanTx_def Let_def l tick_def
  show ?thesis
  proof (cases "NextResetTime sub > 0 \<and> NextResetTime sub > now env \<or> NormalizeResetPeriod (QuotaResetPeriod plan) = js ''never''
      \<or> \<not> a \<and> \<not> (NextResetTime sub = 0 \<and> x > 0)")
    case True
    then have "maybeResetUserSubscriptionWithPlanTx env sub plan w = (None, sub, id, w)" unfolding d prod.case by auto
    then show ?thesis by blast
  next
    case False
    let ?s = "if a then sub\<lparr>AmountUsed := 0, LastResetTime := b, NextResetTime := x\<rparr> else sub\<lparr>LastResetTime := b, NextResetTime := x\<rparr>"
    have "maybeResetUserSubscriptionWithPlanTx env sub plan w = (faults w (ticks w), ?s, save_sub ?s, w\<lparr>ticks := Suc (ticks w)\<rparr>)"
      using False unfolding d prod.case by (cases a) (auto simp: swap)
    then show ?thesis by (intro disjI2 exI [of _ ?s] exI [of _ b] exI [of _ x]) simp
  qed
qed

lemma preconsume_tx_cases:
  assumes "preconsume_tx env requestId userId amount w = (r, wr, w1)"
  shows "wr = id \<and> (\<exists>n. w1 = w\<lparr>ticks := n\<rparr>)
    \<or> map_of (preConsumeRecords w) requestId = None
      \<and> consume_from env requestId userId amount (active_subscriptions env userId w) id (w\<lparr>ticks := Suc (Suc (ticks w))\<rparr>) = (r, wr, w1)"
proof -
  have "active_subscriptions env userId (w\<lparr>ticks := n\<rparr>) = active_subscriptions env userId w" for n
    by (simp add: active_subscriptions_def)
  then show ?thesis
    using assms by (auto simp: preconsume_tx_def tick_def Let_def split: option.splits if_splits)
qed

section \<open>Properties every operation keeps\<close>

text \<open>The used amount is not negative and not above the total; a total of 0 stands for no limit.\<close>

definition sub_ok :: "UserSubscription \<Rightarrow> bool" where
  "sub_ok s \<longleftrightarrow> 0 \<le> AmountUsed s \<and> (AmountTotal s > 0 \<longrightarrow> AmountUsed s \<le> AmountTotal s)"

locale subscription_property =
  fixes inv :: "Store \<Rightarrow> bool" and good :: "UserSubscription \<Rightarrow> bool"
  assumes inv_ticks: "inv (w\<lparr>ticks := n\<rparr>) = inv w"
    and inv_save: "inv w \<Longrightarrow> good s \<Longrightarrow> inv (save_sub s w)"
    and inv_record: "inv w \<Longrightarrow> inv (save_record q r w)"
    and stored_good: "inv w \<Longrightarrow> s \<in> set (subscriptions w) \<Longrightarrow> good s"
    and good_used: "good s \<Longrightarrow> (sub_ok s \<Longrightarrow> sub_ok (s\<lparr>AmountUsed := x\<rparr>)) \<Longrightarrow> good (s\<lparr>AmountUsed := x\<rparr>)"
    and good_times: "good s \<Longrightarrow> good (s\<lparr>LastResetTime := a, NextResetTime := b\<rparr>)"
begin

lemma transaction_keeps:
  assumes "inv w" "\<And>r wr w'. body w = (r, wr, w') \<Longrightarrow> inv w' \<and> (\<forall>v. inv v \<longrightarrow> inv (wr v))" "transaction body w = (r, w')"
  shows "inv w'"
proof -
  obtain r0 wr w1 where b: "body w = (r0, wr, w1)" by (cases "body w")
  with assms(2) have "inv w1" "\<And>v. inv v \<Longrightarrow> inv (wr v)" by blast+
  then show ?thesis
    using assms(3) b by (auto simp: transaction_def tick_def inv_ticks split: sum.splits option.splits)
qed

lemma maybeReset_keeps:
  assumes "inv w" "good sub" "maybeResetUserSubscriptionWithPlanTx env sub plan w = (e, sub', wr, w')"
  shows "inv w'" "good sub'" "inv v \<Longrightarrow> inv (wr v)"
proof -
  have "good (sub\<lparr>AmountUsed := 0\<rparr>)" using assms(2) by (rule good_used) (simp add: sub_ok_def)
  then have z: "good (sub\<lparr>AmountUsed := 0, LastResetTime := a, NextResetTime := b\<rparr>)" for a b by (rule good_times)
  from maybeReset_result [of env sub plan w] assms(3)
  consider "sub' = sub" "wr = id" "w' = w"
    | a b where "wr = save_sub sub'" "w' = w\<lparr>ticks := Suc (ticks w)\<rparr>" "sub' = sub\<lparr>LastResetTime := a, NextResetTime := b\<rparr>"
    | a b where "wr = save_sub sub'" "w' = w\<lparr>ticks := Suc (ticks w)\<rparr>" "sub' = sub\<lparr>AmountUsed := 0, LastResetTime := a, NextResetTime := b\<rparr>"
    by auto
  then have "inv w' \<and> good sub' \<and> (inv v \<longrightarrow> inv (wr v))"
  proof cases
    case 1
    with assms show ?thesis by simp
  next
    case 2
    with assms good_times [OF assms(2)] inv_save show ?thesis by (simp add: inv_ticks)
  next
    case 3
    with assms z inv_save show ?thesis by (simp add: inv_ticks)
  qed
  then show "inv w'" "good sub'" "inv v \<Longrightarrow> inv (wr v)" by auto
qed

lemma consume_candidate_keeps:
  assumes "inv w" "good sub" "amount > 0" "AmountTotal sub > 0 \<Longrightarrow> AmountUsed sub + amount \<le> AmountTotal sub" "\<And>v. inv v \<Longrightarrow> inv (writes v)"
    "consume_candidate requestId userId amount sub writes w = (r, wr, w')"
  shows "inv w' \<and> (\<forall>v. inv v \<longrightarrow> inv (wr v))"
proof -
  have "good (sub\<lparr>AmountUsed := AmountUsed sub + amount\<rparr>)"
    using assms(2) by (rule good_used) (use assms(3,4) in \<open>auto simp: sub_ok_def\<close>)
  then show ?thesis
    using assms(1,5,6) inv_save inv_record
    by (auto simp: consume_candidate_def create_record_def tick_def Let_def inv_ticks split: option.splits if_splits)
qed

lemma consume_from_keeps:
  assumes "inv w" "\<forall>s \<in> set subs. good s" "amount > 0" "\<And>v. inv v \<Longrightarrow> inv (writes v)"
    "consume_from env requestId userId amount subs writes w = (r, wr, w')"
  shows "inv w' \<and> (\<forall>v. inv v \<longrightarrow> inv (wr v))"
  using assms
proof (induction subs arbitrary: writes w)
  case (Cons c rest)
  show ?case
  proof (cases "planRead env (PlanId c)")
    case (Inl e)
    with Cons.prems show ?thesis by auto
  next
    case (Inr plan)
    obtain e sub wr1 w1 where m: "maybeResetUserSubscriptionWithPlanTx env c plan w = (e, sub, wr1, w1)"
      by (cases "maybeResetUserSubscriptionWithPlanTx env c plan w")
    have k: "inv w1" "good sub" "\<And>v. inv v \<Longrightarrow> inv (wr1 v)"
      using maybeReset_keeps [OF Cons.prems(1) _ m] Cons.prems(2) by auto
    then have k': "inv v \<Longrightarrow> inv ((wr1 \<circ> writes) v)" for v using Cons.prems(4) by simp
    show ?thesis
    proof (cases e)
      case (Some err)
      with Inr m k Cons.prems show ?thesis by auto
    next
      case None
      show ?thesis
      proof (cases "AmountTotal sub > 0 \<and> AmountTotal sub - AmountUsed sub < amount")
        case True
        with Inr m None Cons.prems(5) have c: "consume_from env requestId userId amount rest (wr1 \<circ> writes) w1 = (r, wr, w')"
          by simp
        show ?thesis by (rule Cons.IH [OF k(1) _ Cons.prems(3) k' c]) (use Cons.prems(2) in auto)
      next
        case False
        with Inr m None Cons.prems(5) have c: "consume_candidate requestId userId amount sub (wr1 \<circ> writes) w1 = (r, wr, w')"
          by auto
        show ?thesis by (rule consume_candidate_keeps [OF k(1,2) Cons.prems(3) _ k' c]) (use False in auto)
      qed
    qed
  qed
qed auto

lemma preconsume_keeps:
  assumes "inv w" "PreConsumeUserSubscription env requestId userId amount w = (r, w')"
  shows "inv w'"
proof (cases "userId \<le> 0 \<or> TrimSpace requestId = [] \<or> amount \<le> 0")
  case True
  with assms show ?thesis by (auto simp: PreConsumeUserSubscription_def split: if_splits)
next
  case False
  then have t: "transaction (preconsume_tx env requestId userId amount) w = (r, w')" and a: "amount > 0"
    using assms(2) by (auto simp: PreConsumeUserSubscription_def)
  have body: "inv w1 \<and> (\<forall>v. inv v \<longrightarrow> inv (wr v))" if b: "preconsume_tx env requestId userId amount w = (r1, wr, w1)" for r1 wr w1
  proof -
    let ?w2 = "w\<lparr>ticks := Suc (Suc (ticks w))\<rparr>"
    have i: "inv ?w2" using assms(1) by (simp add: inv_ticks)
    have g: "\<forall>s \<in> set (active_subscriptions env userId w). good s"
      using stored_good [OF assms(1)] by (simp add: active_subscriptions_def)
    from preconsume_tx_cases [OF b] show ?thesis
    proof
      assume "wr = id \<and> (\<exists>n. w1 = w\<lparr>ticks := n\<rparr>)"
      with assms(1) show ?thesis by (auto simp: inv_ticks)
    next
      assume "map_of (preConsumeRecords w) requestId = None
        \<and> consume_from env requestId userId amount (active_subscriptions env userId w) id ?w2 = (r1, wr, w1)"
      then have c: "consume_from env requestId userId amount (active_subscriptions env userId w) id ?w2 = (r1, wr, w1)" by simp
      show ?thesis by (rule consume_from_keeps [OF i g a _ c]) simp
    qed
  qed
  show ?thesis by (rule transaction_keeps [OF assms(1) body t])
qed

lemma find_good: "inv w \<Longrightarrow> find P (subscriptions w) = Some s \<Longrightarrow> good s"
  using stored_good by (auto simp: find_Some_iff)

lemma delta_keeps:
  assumes "inv w" "PostConsumeUserSubscriptionDelta subId delta w = (e, w')"
  shows "inv w'"
proof (cases "subId \<le> 0 \<or> delta = 0")
  case True
  with assms show ?thesis by (auto simp: PostConsumeUserSubscriptionDelta_def split: if_splits)
next
  case False
  obtain r where t: "transaction (delta_tx subId delta) w = (r, w')"
    using assms(2) False by (auto simp: PostConsumeUserSubscriptionDelta_def as_error_def split: prod.splits sum.splits)
  have body: "inv w1 \<and> (\<forall>v. inv v \<longrightarrow> inv (wr v))" if b: "delta_tx subId delta w = (r1, wr, w1)" for r1 wr w1
  proof (cases "find (\<lambda>s. SubId s = subId) (subscriptions w)")
    case None
    with b assms(1) show ?thesis by (auto simp: delta_tx_def tick_def inv_ticks split: option.splits)
  next
    case (Some sub)
    have g: "AmountTotal sub > 0 \<longrightarrow> x \<le> AmountTotal sub \<Longrightarrow> 0 \<le> x \<Longrightarrow> good (sub\<lparr>AmountUsed := x\<rparr>)" for x
      by (rule good_used [OF find_good [OF assms(1) Some]]) (simp add: sub_ok_def)
    show ?thesis
      using b Some assms(1) inv_save [OF _ g]
      by (auto simp: delta_tx_def tick_def Let_def inv_ticks split: option.splits if_splits)
  qed
  show ?thesis by (rule transaction_keeps [OF assms(1) body t])
qed

lemma refund_keeps:
  assumes "inv w" "RefundSubscriptionPreConsume requestId w = (e, w')"
  shows "inv w'"
proof (cases "TrimSpace requestId = []")
  case True
  with assms show ?thesis by (auto simp: RefundSubscriptionPreConsume_def)
next
  case False
  obtain r where t: "transaction (refund_tx requestId) w = (r, w')"
    using assms(2) False by (auto simp: RefundSubscriptionPreConsume_def as_error_def split: prod.splits sum.splits)
  let ?w1 = "w\<lparr>ticks := Suc (ticks w)\<rparr>"
  have w1: "inv ?w1" using assms(1) by (simp add: inv_ticks)
  have body: "inv w2 \<and> (\<forall>v. inv v \<longrightarrow> inv (wr v))" if b: "refund_tx requestId w = (r1, wr, w2)" for r1 wr w2
    using b assms(1) delta_keeps [OF w1] inv_record
    by (auto simp: refund_tx_def tick_def Let_def inv_ticks split: option.splits if_splits prod.splits)
  show ?thesis by (rule transaction_keeps [OF assms(1) body t])
qed

lemma reset_tx_keeps:
  assumes "inv w" "reset_tx env plan subId w = (r, wr, w')"
  shows "inv w' \<and> (\<forall>v. inv v \<longrightarrow> inv (wr v))"
proof (cases "find (\<lambda>s. SubId s = subId \<and> reset_due env s) (subscriptions w)")
  case None
  with assms show ?thesis by (auto simp: reset_tx_def tick_def inv_ticks split: option.splits)
next
  case (Some locked)
  obtain e sub wr1 w1 where m: "maybeResetUserSubscriptionWithPlanTx env locked plan (w\<lparr>ticks := Suc (ticks w)\<rparr>) = (e, sub, wr1, w1)"
    by (metis prod_cases4)
  have "inv (w\<lparr>ticks := Suc (ticks w)\<rparr>)" using assms(1) by (simp add: inv_ticks)
  from maybeReset_keeps [OF this find_good [OF assms(1) Some] m] show ?thesis
    using assms Some m by (auto simp: reset_tx_def tick_def inv_ticks split: option.splits)
qed

lemma reset_each_keeps: "inv w \<Longrightarrow> reset_each env subs w = (e, w') \<Longrightarrow> inv w'"
proof (induction subs arbitrary: w)
  case (Cons sub rest)
  show ?case
  proof (cases "planRead env (PlanId sub)")
    case (Inl e)
    with Cons show ?thesis by simp
  next
    case (Inr plan)
    have body: "inv w2 \<and> (\<forall>v. inv v \<longrightarrow> inv (wr v))" if b: "reset_tx env plan (SubId sub) w = (r1, wr, w2)" for r1 wr w2
      by (rule reset_tx_keeps [OF Cons.prems(1) b])
    obtain r1 w1 where t: "transaction (reset_tx env plan (SubId sub)) w = (r1, w1)" by fastforce
    have "inv w1" by (rule transaction_keeps [OF Cons.prems(1) body t])
    with t Inr Cons show ?thesis by (auto split: sum.splits)
  qed
qed simp

lemma reset_keeps: "inv w \<Longrightarrow> ResetDueSubscriptions env limit w = (e, w') \<Longrightarrow> inv w'"
  by (auto simp: ResetDueSubscriptions_def tick_def Let_def inv_ticks split: option.splits
      intro: reset_each_keeps [of "w\<lparr>ticks := Suc (ticks w)\<rparr>"])

end

interpretation cap: subscription_property "\<lambda>w. list_all sub_ok (subscriptions w)" sub_ok
  by unfold_locales (auto simp: save_sub_def save_record_def list_all_iff sub_ok_def)

interpretation frame: subscription_property "\<lambda>w. user_funds w = f \<and> token_funds w = t \<and> faults w = fs" "\<lambda>_. True" for f t fs
  by unfold_locales (auto simp: save_sub_def save_record_def user_funds_def token_funds_def fun_eq_iff)

interpretation ids: subscription_property "\<lambda>w. map SubId (subscriptions w) = is" "\<lambda>_. True" for "is"
  by unfold_locales (auto simp: save_sub_def save_record_def)

section \<open>A subscription is never overdrawn\<close>

text \<open>Any operation on subscriptions, with whatever result.\<close>

inductive sub_step :: "Store \<Rightarrow> Store \<Rightarrow> bool" where
  consume: "PreConsumeUserSubscription env requestId userId amount w = (r, w') \<Longrightarrow> sub_step w w'"
| delta: "PostConsumeUserSubscriptionDelta subId delta w = (e, w') \<Longrightarrow> sub_step w w'"
| refund: "RefundSubscriptionPreConsume requestId w = (e, w') \<Longrightarrow> sub_step w w'"
| reset: "ResetDueSubscriptions env limit w = (e, w') \<Longrightarrow> sub_step w w'"

lemma sub_step_cap: "sub_step w w' \<Longrightarrow> list_all sub_ok (subscriptions w) \<Longrightarrow> list_all sub_ok (subscriptions w')"
  by (induction rule: sub_step.induct) (auto dest: cap.preconsume_keeps cap.delta_keeps cap.refund_keeps cap.reset_keeps)

text \<open>
  C14: no sequence of operations on subscriptions overdraws one. Whatever amounts are taken, adjusted, given back or
  reset, for whatever requests, and whichever statements and commits of the database fail, the used amount of every
  subscription stays between 0 and its total.
\<close>

theorem subscriptions_never_overdrawn:
  assumes "sub_step\<^sup>*\<^sup>* w w'" "list_all sub_ok (subscriptions w)"
  shows "list_all sub_ok (subscriptions w')"
  using assms by (induction rule: rtranclp_induct) (auto dest: sub_step_cap)

definition demo_sub :: UserSubscription where
  "demo_sub = \<lparr>SubId = 3, SubUserId = 1, PlanId = 2, AmountTotal = 100, AmountUsed = 10, StartTime = 0, EndTime = 1000,
     SubStatus = js ''active'', LastResetTime = 0, NextResetTime = 0, AllowWalletOverflow = True\<rparr>"

definition demo_sub_env :: SubEnv where
  "demo_sub_env = \<lparr>now = 50, planRead = (\<lambda>_. Inr \<lparr>QuotaResetPeriod = js ''never'', QuotaResetCustomSeconds = 0\<rparr>),
     planInfo = (\<lambda>_. None), calendar = (\<lambda>p b. b + 86400)\<rparr>"

lemma demo_delta:
  "PostConsumeUserSubscriptionDelta 3 40 (demo_store\<lparr>subscriptions := [demo_sub]\<rparr>)
     = (None, demo_store\<lparr>subscriptions := [demo_sub\<lparr>AmountUsed := 50\<rparr>], ticks := 3\<rparr>)"
  by (simp add: PostConsumeUserSubscriptionDelta_def as_error_def transaction_def delta_tx_def tick_def demo_store_def demo_sub_def save_sub_def)

theorem subscriptions_never_overdrawn_witness:
  "list_all sub_ok (subscriptions (snd (PostConsumeUserSubscriptionDelta 3 40 (demo_store\<lparr>subscriptions := [demo_sub]\<rparr>))))"
proof -
  have "sub_step\<^sup>*\<^sup>* (demo_store\<lparr>subscriptions := [demo_sub]\<rparr>) (demo_store\<lparr>subscriptions := [demo_sub\<lparr>AmountUsed := 50\<rparr>], ticks := 3\<rparr>)"
    using sub_step.delta [OF demo_delta] by blast
  from subscriptions_never_overdrawn [OF this] show ?thesis by (simp add: demo_delta) (simp add: demo_sub_def sub_ok_def)
qed

section \<open>A request is charged once\<close>

lemma saved_sub_found:
  assumes "SubId sub \<in> set (map SubId (subscriptions w))"
  shows "find (\<lambda>s. SubId s = SubId sub) (subscriptions (save_sub sub w)) = Some sub"
proof -
  have "SubId sub \<in> set (map SubId ss) \<Longrightarrow>
    find (\<lambda>s. SubId s = SubId sub) (map (\<lambda>s. if SubId s = SubId sub then sub else s) ss) = Some sub" for ss
    by (induction ss) auto
  with assms show ?thesis by (simp add: save_sub_def)
qed

lemma save_sub_ids: "map SubId (subscriptions (save_sub s w)) = map SubId (subscriptions w)"
  by (auto simp: save_sub_def)

lemma maybeReset_id:
  "maybeResetUserSubscriptionWithPlanTx env sub plan w = (e, sub', wr, w') \<Longrightarrow> SubId sub' = SubId sub \<and> preConsumeRecords w' = preConsumeRecords w"
  using maybeReset_result [of env sub plan w] by auto

lemma same_ticks: "w = w\<lparr>ticks := ticks w\<rparr>" for w :: Store
  by simp

text \<open>A successful transaction ends by writing the record and then the subscription it took the amount from.\<close>

lemma consume_from_writes:
  assumes "consume_from env q userId amount subs writes w = (Inr res, wr, w')" "map_of (preConsumeRecords w) q = None"
  shows "\<exists>sub r writes'. wr = save_sub (sub\<lparr>AmountUsed := AmountUsed sub + amount\<rparr>) \<circ> (save_record q r \<circ> writes')
    \<and> SubId sub \<in> set (map SubId subs)
    \<and> r = \<lparr>RecordSubId = SubId sub, RecordUserId = userId, RecordPreConsumed = amount, RecordStatus = js ''consumed''\<rparr>
    \<and> UserSubscriptionId res = SubId sub \<and> PreConsumed res = amount \<and> AmountUsedBefore res = AmountUsed sub"
  using assms
proof (induction subs arbitrary: writes w)
  case (Cons c rest)
  obtain plan where p: "planRead env (PlanId c) = Inr plan" using Cons.prems(1) by (auto split: sum.splits)
  obtain e sub wr1 w1 where m: "maybeResetUserSubscriptionWithPlanTx env c plan w = (e, sub, wr1, w1)" by (metis prod_cases4)
  with p Cons.prems(1) have [simp]: "e = None" by (auto split: option.splits)
  have i: "SubId sub = SubId c" "map_of (preConsumeRecords w1) q = None" using maybeReset_id [OF m] Cons.prems(2) by simp_all
  show ?case
  proof (cases "AmountTotal sub > 0 \<and> AmountTotal sub - AmountUsed sub < amount")
    case True
    with p m Cons.prems(1) have "consume_from env q userId amount rest (wr1 \<circ> writes) w1 = (Inr res, wr, w')" by simp
    then obtain s r writes' where "wr = save_sub (s\<lparr>AmountUsed := AmountUsed s + amount\<rparr>) \<circ> (save_record q r \<circ> writes')"
      "SubId s \<in> set (map SubId rest)"
      "r = \<lparr>RecordSubId = SubId s, RecordUserId = userId, RecordPreConsumed = amount, RecordStatus = js ''consumed''\<rparr>"
      "UserSubscriptionId res = SubId s \<and> PreConsumed res = amount \<and> AmountUsedBefore res = AmountUsed s"
      using Cons.IH [OF _ i(2)] by blast
    then show ?thesis by (intro exI [of _ s] exI [of _ r] exI [of _ writes']) (simp add: comp_def)
  next
    case False
    with p m Cons.prems(1) have "consume_candidate q userId amount sub (wr1 \<circ> writes) w1 = (Inr res, wr, w')" by auto
    then show ?thesis
      by (intro exI [of _ sub] exI [of _ "wr1 \<circ> writes"]
          exI [of _ "\<lparr>RecordSubId = SubId sub, RecordUserId = userId, RecordPreConsumed = amount, RecordStatus = js ''consumed''\<rparr>"])
        (use i in \<open>auto simp: consume_candidate_def create_record_def tick_def Let_def split: option.splits\<close>)
  qed
qed simp

lemma consume_from_used:
  assumes "consume_from env q userId amount subs writes w = (Inr res, wr, w')" "map_of (preConsumeRecords w) q = None"
  shows "AmountUsedAfter res = AmountUsedBefore res + amount" "list_all sub_ok subs \<Longrightarrow> 0 \<le> AmountUsedBefore res"
proof -
  have "AmountUsedAfter res = AmountUsedBefore res + amount \<and> (list_all sub_ok subs \<longrightarrow> 0 \<le> AmountUsedBefore res)"
    using assms
  proof (induction subs arbitrary: writes w)
    case (Cons c rest)
    obtain plan where p: "planRead env (PlanId c) = Inr plan" using Cons.prems(1) by (auto split: sum.splits)
    obtain e sub wr1 w1 where m: "maybeResetUserSubscriptionWithPlanTx env c plan w = (e, sub, wr1, w1)" by (metis prod_cases4)
    with p Cons.prems(1) have [simp]: "e = None" by (auto split: option.splits)
    have i: "map_of (preConsumeRecords w1) q = None" using maybeReset_id [OF m] Cons.prems(2) by simp
    have k: "sub_ok c \<Longrightarrow> 0 \<le> AmountUsed sub" using maybeReset_result [of env c plan w] m by (auto simp: sub_ok_def)
    show ?case
    proof (cases "AmountTotal sub > 0 \<and> AmountTotal sub - AmountUsed sub < amount")
      case True
      with p m Cons.prems(1) have "consume_from env q userId amount rest (wr1 \<circ> writes) w1 = (Inr res, wr, w')" by simp
      from Cons.IH [OF this i] show ?thesis by simp
    next
      case False
      with p m Cons.prems(1) have "consume_candidate q userId amount sub (wr1 \<circ> writes) w1 = (Inr res, wr, w')" by auto
      with i k show ?thesis by (auto simp: consume_candidate_def create_record_def tick_def Let_def split: option.splits)
    qed
  qed simp
  then show "AmountUsedAfter res = AmountUsedBefore res + amount" "list_all sub_ok subs \<Longrightarrow> 0 \<le> AmountUsedBefore res" by auto
qed

lemma transaction_committed:
  assumes "transaction body w = (Inr x, w')"
  obtains wr w1 where "body w = (Inr x, wr, w1)" "w' = wr (w1\<lparr>ticks := Suc (ticks w1)\<rparr>)"
  using assms by (auto simp: transaction_def tick_def split: sum.splits option.splits prod.splits)

lemma preconsume_committed:
  assumes "map_of (preConsumeRecords w) q = None" "PreConsumeUserSubscription env q userId amount w = (Inr res, w1)"
  obtains s where "find (\<lambda>s. SubId s = UserSubscriptionId res) (subscriptions w1) = Some s" "AmountUsed s = AmountUsedBefore res + amount"
    "PreConsumed res = amount" "SubId s = UserSubscriptionId res"
    "map_of (preConsumeRecords w1) q = Some \<lparr>RecordSubId = UserSubscriptionId res, RecordUserId = userId,
       RecordPreConsumed = amount, RecordStatus = js ''consumed''\<rparr>"
proof -
  have t: "transaction (preconsume_tx env q userId amount) w = (Inr res, w1)" and a: "amount > 0"
    using assms(2) by (auto simp: PreConsumeUserSubscription_def split: if_splits)
  from t obtain wr w2 where b: "preconsume_tx env q userId amount w = (Inr res, wr, w2)" and w1: "w1 = wr (w2\<lparr>ticks := Suc (ticks w2)\<rparr>)"
    by (rule transaction_committed)
  have c: "consume_from env q userId amount (active_subscriptions env userId w) id (w\<lparr>ticks := Suc (Suc (ticks w))\<rparr>) = (Inr res, wr, w2)"
    using b assms(1) by (auto simp: preconsume_tx_def tick_def Let_def active_subscriptions_def split: option.splits if_splits)
  obtain sub r writes where s: "wr = save_sub (sub\<lparr>AmountUsed := AmountUsed sub + amount\<rparr>) \<circ> (save_record q r \<circ> writes)"
    "SubId sub \<in> set (map SubId (active_subscriptions env userId w))"
    "r = \<lparr>RecordSubId = SubId sub, RecordUserId = userId, RecordPreConsumed = amount, RecordStatus = js ''consumed''\<rparr>"
    "UserSubscriptionId res = SubId sub" "PreConsumed res = amount" "AmountUsedBefore res = AmountUsed sub"
    using consume_from_writes [OF c] assms(1) by auto
  let ?s = "sub\<lparr>AmountUsed := AmountUsed sub + amount\<rparr>" and ?v = "save_record q r (writes (w2\<lparr>ticks := Suc (ticks w2)\<rparr>))"
  have w1': "w1 = save_sub ?s ?v" using s(1) w1 by simp
  have "map SubId (subscriptions w1) = map SubId (subscriptions w)" by (rule ids.preconsume_keeps [OF refl assms(2)])
  then have "map SubId (subscriptions ?v) = map SubId (subscriptions w)" unfolding w1' save_sub_ids .
  moreover have "SubId sub \<in> set (map SubId (subscriptions w))" using s(2) by (auto simp: active_subscriptions_def)
  ultimately have "find (\<lambda>x. SubId x = SubId ?s) (subscriptions w1) = Some ?s"
    unfolding w1' by (intro saved_sub_found) simp
  moreover have "map_of (preConsumeRecords w1) q = Some r" by (simp add: w1' save_sub_def save_record_def update_conv')
  ultimately show thesis using s by (intro that [of ?s]) simp_all
qed

lemma preconsume_used:
  assumes "map_of (preConsumeRecords w) q = None" "PreConsumeUserSubscription env q userId amount w = (Inr res, w1)"
  shows "AmountUsedAfter res = AmountUsedBefore res + amount" "list_all sub_ok (subscriptions w) \<Longrightarrow> 0 \<le> AmountUsedBefore res"
proof -
  have t: "transaction (preconsume_tx env q userId amount) w = (Inr res, w1)"
    using assms(2) by (auto simp: PreConsumeUserSubscription_def split: if_splits)
  from t obtain wr w2 where b: "preconsume_tx env q userId amount w = (Inr res, wr, w2)" by (rule transaction_committed)
  have c: "consume_from env q userId amount (active_subscriptions env userId w) id (w\<lparr>ticks := Suc (Suc (ticks w))\<rparr>) = (Inr res, wr, w2)"
    using b assms(1) by (auto simp: preconsume_tx_def tick_def Let_def active_subscriptions_def split: option.splits if_splits)
  have "list_all sub_ok (subscriptions w) \<Longrightarrow> list_all sub_ok (active_subscriptions env userId w)"
    by (auto simp: active_subscriptions_def list_all_iff)
  then show "AmountUsedAfter res = AmountUsedBefore res + amount" "list_all sub_ok (subscriptions w) \<Longrightarrow> 0 \<le> AmountUsedBefore res"
    using consume_from_used [OF c] assms(1) by simp_all
qed

section \<open>A failed transaction takes nothing\<close>

lemma consume_from_ticks: "consume_from env q userId amount subs writes w = (r, wr, w') \<Longrightarrow> \<exists>n. w' = w\<lparr>ticks := n\<rparr>"
proof (induction subs arbitrary: writes w)
  case Nil
  then show ?case by (auto intro: exI [of _ "ticks w"])
next
  case (Cons c rest)
  show ?case
  proof (cases "planRead env (PlanId c)")
    case (Inl e)
    with Cons.prems show ?thesis by (auto intro: exI [of _ "ticks w"])
  next
    case (Inr plan)
    obtain e sub wr1 w1 where m: "maybeResetUserSubscriptionWithPlanTx env c plan w = (e, sub, wr1, w1)" by (metis prod_cases4)
    then obtain n where n: "w1 = w\<lparr>ticks := n\<rparr>" using maybeReset_result [of env c plan w] by (metis Pair_inject same_ticks)
    consider "w' = w1" | "consume_from env q userId amount rest (wr1 \<circ> writes) w1 = (r, wr, w')"
      | "consume_candidate q userId amount sub (wr1 \<circ> writes) w1 = (r, wr, w')"
      using Cons.prems Inr m by (auto split: option.splits if_splits)
    then show ?thesis
    proof cases
      case 1
      with n show ?thesis by blast
    next
      case 2
      from Cons.IH [OF this] n show ?thesis by auto
    next
      case 3
      with n show ?thesis by (auto simp: consume_candidate_def create_record_def tick_def Let_def split: option.splits if_splits)
    qed
  qed
qed

lemma preconsume_failed:
  assumes "PreConsumeUserSubscription env q userId amount w = (Inl e, w')"
  shows "subscriptions w' = subscriptions w"
proof -
  obtain r wr w1 where b: "preconsume_tx env q userId amount w = (r, wr, w1)" by (metis prod_cases3)
  have "subscriptions w1 = subscriptions w"
    using preconsume_tx_cases [OF b] consume_from_ticks [of env q userId amount _ id _ r wr w1] by fastforce
  with b assms show ?thesis
    by (auto simp: PreConsumeUserSubscription_def transaction_def tick_def split: if_splits sum.splits option.splits)
qed

lemma preconsume_tx_again:
  assumes "map_of (preConsumeRecords w) q = Some r" "preconsume_tx env q userId amount w = (res, wr, w')"
  shows "wr = id \<and> subscriptions w' = subscriptions w"
    "res = Inr x \<Longrightarrow> PreConsumed x = RecordPreConsumed r \<and> UserSubscriptionId x = RecordSubId r"
proof -
  show "wr = id \<and> subscriptions w' = subscriptions w"
    using preconsume_tx_cases [OF assms(2)] assms(1) by auto
  assume "res = Inr x"
  with assms(2) show "PreConsumed x = RecordPreConsumed r \<and> UserSubscriptionId x = RecordSubId r"
    by (simp add: preconsume_tx_def tick_def assms(1) split: option.splits if_splits) (auto simp: find_Some_iff)
qed

lemma preconsume_again:
  assumes "map_of (preConsumeRecords w) q = Some r" "PreConsumeUserSubscription env q userId amount w = (res, w')"
  shows "subscriptions w' = subscriptions w"
    "res = Inr x \<Longrightarrow> PreConsumed x = RecordPreConsumed r \<and> UserSubscriptionId x = RecordSubId r"
proof -
  obtain r0 wr w1 where b: "preconsume_tx env q userId amount w = (r0, wr, w1)" by (metis prod_cases3)
  note again = preconsume_tx_again [OF assms(1) b]
  show "subscriptions w' = subscriptions w"
    using again(1) b assms(2) by (auto simp: PreConsumeUserSubscription_def transaction_def tick_def split: if_splits sum.splits option.splits)
  assume "res = Inr x"
  then have "r0 = Inr x"
    using b assms(2) by (auto simp: PreConsumeUserSubscription_def transaction_def tick_def split: if_splits sum.splits option.splits)
  then show "PreConsumed x = RecordPreConsumed r \<and> UserSubscriptionId x = RecordSubId r" by (rule again(2))
qed

text \<open>
  C15: a request takes its amount from one subscription, once. After the first call for the request succeeded, the
  subscription it reports has used exactly the amount more than before (or than after the reset that was due), and
  another call for the same request, at any time, of any user and for any amount, takes nothing from any subscription
  and, if it succeeds, reports the same subscription and amount.
\<close>

theorem request_is_charged_once:
  assumes "map_of (preConsumeRecords w) q = None" "PreConsumeUserSubscription env q userId amount w = (Inr res, w1)"
    "PreConsumeUserSubscription env' q userId' amount' w1 = (r2, w2)"
  shows "PreConsumed res = amount
    \<and> map_option AmountUsed (find (\<lambda>s. SubId s = UserSubscriptionId res) (subscriptions w1)) = Some (AmountUsedBefore res + amount)
    \<and> subscriptions w2 = subscriptions w1
    \<and> (\<forall>res2. r2 = Inr res2 \<longrightarrow> PreConsumed res2 = amount \<and> UserSubscriptionId res2 = UserSubscriptionId res)"
proof -
  from assms(1,2) obtain s where s: "find (\<lambda>s. SubId s = UserSubscriptionId res) (subscriptions w1) = Some s"
    "AmountUsed s = AmountUsedBefore res + amount" "PreConsumed res = amount" "SubId s = UserSubscriptionId res"
    "map_of (preConsumeRecords w1) q = Some \<lparr>RecordSubId = UserSubscriptionId res, RecordUserId = userId,
       RecordPreConsumed = amount, RecordStatus = js ''consumed''\<rparr>"
    by (rule preconsume_committed)
  note again = preconsume_again [OF s(5) assms(3)]
  have u: "map_option AmountUsed (find (\<lambda>s. SubId s = UserSubscriptionId res) (subscriptions w1)) = Some (AmountUsedBefore res + amount)"
    unfolding s(1) by (simp add: s(2))
  have "PreConsumed x = amount \<and> UserSubscriptionId x = UserSubscriptionId res" if "r2 = Inr x" for x
    using again(2) [OF that] by simp
  then have "\<forall>res2. r2 = Inr res2 \<longrightarrow> PreConsumed res2 = amount \<and> UserSubscriptionId res2 = UserSubscriptionId res" by (intro allI impI)
  with u s(3) again(1) show ?thesis by (intro conjI)
qed

lemma demo_preconsume:
  "PreConsumeUserSubscription demo_sub_env (js ''r'') 1 20 (demo_store\<lparr>subscriptions := [demo_sub]\<rparr>)
    = (Inr \<lparr>UserSubscriptionId = 3, PreConsumed = 20, ResAmountTotal = 100, AmountUsedBefore = 10, AmountUsedAfter = 30\<rparr>,
       demo_store\<lparr>subscriptions := [demo_sub\<lparr>AmountUsed := 30\<rparr>], preConsumeRecords := [(js ''r'',
         \<lparr>RecordSubId = 3, RecordUserId = 1, RecordPreConsumed = 20, RecordStatus = js ''consumed''\<rparr>)], ticks := 5\<rparr>)"
  by (simp add: PreConsumeUserSubscription_def transaction_def preconsume_tx_def tick_def demo_store_def demo_sub_def demo_sub_env_def
      active_subscriptions_def maybeResetUserSubscriptionWithPlanTx_def NormalizeResetPeriod_def consume_candidate_def
      create_record_def save_record_def save_sub_def TrimSpace_def go_space_def js_eval)

theorem request_is_charged_once_witness:
  "subscriptions (snd (PreConsumeUserSubscription demo_sub_env (js ''r'') 1 20
     (snd (PreConsumeUserSubscription demo_sub_env (js ''r'') 1 20 (demo_store\<lparr>subscriptions := [demo_sub]\<rparr>)))))
   = [demo_sub\<lparr>AmountUsed := 30\<rparr>]"
proof -
  have n: "map_of (preConsumeRecords (demo_store\<lparr>subscriptions := [demo_sub]\<rparr>)) (js ''r'') = None" by (simp add: demo_store_def)
  from request_is_charged_once [OF n demo_preconsume, OF surjective_pairing, of demo_sub_env 1 20] show ?thesis
    by (simp add: demo_preconsume)
qed

end
