(* ===== verification/ServerStatusCodes.thy ===== *)
theory ServerStatusCodes
  imports StatusCodes GoText
begin

text \<open>
  The server side of the status code rules (\<open>setting/operation_setting/status_code_ranges.go\<close>): reading the
  option, deciding by it whether a channel is disabled or a request retried (\<open>controller/relay.go\<close>,
  \<open>shouldRetry\<close>), and that the rules entered in the console arrive there unchanged.
\<close>

section \<open>Reading the option\<close>

record ServerCodeRange =
  Start :: int
  End :: int

definition parseHTTPStatusCodeToken :: "jsstr \<Rightarrow> ServerCodeRange option" where
  "parseHTTPStatusCodeToken tok =
     (let token = filter (\<lambda>c. c \<noteq> 32) (TrimSpace tok) in
      if token = [] then None
      else if includesStr token [45] then
        (case split1 45 token of
           [a, b] \<Rightarrow>
             (if a = [] \<or> b = [] then None
              else case Atoi a of
                None \<Rightarrow> None
              | Some start \<Rightarrow>
                  (case Atoi b of
                     None \<Rightarrow> None
                   | Some stop \<Rightarrow>
                       if start > stop then None
                       else if start < 100 \<or> stop > 599 then None
                       else Some \<lparr>Start = start, End = stop\<rparr>))
         | _ \<Rightarrow> None)
      else case Atoi token of
             None \<Rightarrow> None
           | Some code \<Rightarrow> if code < 100 \<or> code > 599 then None else Some \<lparr>Start = code, End = code\<rparr>)"

definition merge_range :: "ServerCodeRange list \<Rightarrow> ServerCodeRange \<Rightarrow> ServerCodeRange list" where
  "merge_range merged r =
     (let l = last merged in
      if Start r \<le> End l + 1
      then (if End r > End l then butlast merged @ [l\<lparr>End := End r\<rparr>] else merged)
      else merged @ [r])"

definition server_segments :: "jsstr \<Rightarrow> jsstr list" where
  "server_segments input =
     filter (\<lambda>seg. seg \<noteq> []) (map TrimSpace (split1 44 (map (\<lambda>c. if c = 65292 then 44 else c) input)))"

text \<open>The error carries the rejected segments.\<close>

definition ParseHTTPStatusCodeRanges :: "jsstr \<Rightarrow> jsstr list + ServerCodeRange list" where
  "ParseHTTPStatusCodeRanges raw =
     (let input = TrimSpace raw in
      if input = [] then Inr []
      else let segments = server_segments input;
               invalid = filter (\<lambda>seg. parseHTTPStatusCodeToken seg = None) segments;
               rs = List.map_filter parseHTTPStatusCodeToken segments
           in if invalid \<noteq> [] then Inl invalid
              else case sort_key (\<lambda>r. (Start r, End r)) rs of
                     [] \<Rightarrow> Inr []
                   | r # rest \<Rightarrow> Inr (foldl merge_range [r] rest))"

definition range_text :: "ServerCodeRange \<Rightarrow> jsstr" where
  "range_text r = (if Start r = End r then Itoa (Start r) else Itoa (Start r) @ [45] @ Itoa (End r))"

definition statusCodeRangesToString :: "ServerCodeRange list \<Rightarrow> jsstr" where
  "statusCodeRangesToString rs = (if rs = [] then [] else join [44] (map range_text rs))"

section \<open>Deciding by the option\<close>

record StatusCodeSettings =
  AutomaticDisableStatusCodeRanges :: "ServerCodeRange list"
  AutomaticRetryStatusCodeRanges :: "ServerCodeRange list"

definition initial_settings :: StatusCodeSettings where
  "initial_settings =
     \<lparr>AutomaticDisableStatusCodeRanges = [\<lparr>Start = 401, End = 401\<rparr>],
      AutomaticRetryStatusCodeRanges =
        [\<lparr>Start = 100, End = 199\<rparr>, \<lparr>Start = 300, End = 399\<rparr>, \<lparr>Start = 401, End = 407\<rparr>, \<lparr>Start = 409, End = 499\<rparr>,
         \<lparr>Start = 500, End = 503\<rparr>, \<lparr>Start = 505, End = 523\<rparr>, \<lparr>Start = 525, End = 599\<rparr>]\<rparr>"

fun match_ranges :: "ServerCodeRange list \<Rightarrow> int \<Rightarrow> bool" where
  "match_ranges [] code = False"
| "match_ranges (r # rs) code = (if code < Start r then False else if code \<le> End r then True else match_ranges rs code)"

definition shouldMatchStatusCodeRanges :: "ServerCodeRange list \<Rightarrow> int \<Rightarrow> bool" where
  "shouldMatchStatusCodeRanges rs code = (if code < 100 \<or> code > 599 then False else match_ranges rs code)"

definition AutomaticDisableStatusCodesFromString :: "jsstr \<Rightarrow> StatusCodeSettings \<Rightarrow> jsstr list option \<times> StatusCodeSettings" where
  "AutomaticDisableStatusCodesFromString s st =
     (case ParseHTTPStatusCodeRanges s of
        Inl err \<Rightarrow> (Some err, st)
      | Inr rs \<Rightarrow> (None, st\<lparr>AutomaticDisableStatusCodeRanges := rs\<rparr>))"

definition AutomaticRetryStatusCodesFromString :: "jsstr \<Rightarrow> StatusCodeSettings \<Rightarrow> jsstr list option \<times> StatusCodeSettings" where
  "AutomaticRetryStatusCodesFromString s st =
     (case ParseHTTPStatusCodeRanges s of
        Inl err \<Rightarrow> (Some err, st)
      | Inr rs \<Rightarrow> (None, st\<lparr>AutomaticRetryStatusCodeRanges := rs\<rparr>))"

definition AutomaticDisableStatusCodesToString :: "StatusCodeSettings \<Rightarrow> jsstr" where
  "AutomaticDisableStatusCodesToString st = statusCodeRangesToString (AutomaticDisableStatusCodeRanges st)"

definition AutomaticRetryStatusCodesToString :: "StatusCodeSettings \<Rightarrow> jsstr" where
  "AutomaticRetryStatusCodesToString st = statusCodeRangesToString (AutomaticRetryStatusCodeRanges st)"

definition ShouldDisableByStatusCode :: "StatusCodeSettings \<Rightarrow> int \<Rightarrow> bool" where
  "ShouldDisableByStatusCode st code = shouldMatchStatusCodeRanges (AutomaticDisableStatusCodeRanges st) code"

definition IsAlwaysSkipRetryStatusCode :: "int \<Rightarrow> bool" where
  "IsAlwaysSkipRetryStatusCode code \<longleftrightarrow> code \<in> {504, 524}"

definition IsAlwaysSkipRetryCode :: "jsstr \<Rightarrow> bool" where
  "IsAlwaysSkipRetryCode errorCode \<longleftrightarrow> errorCode = js ''bad_response_body''"

definition ShouldRetryByStatusCode :: "StatusCodeSettings \<Rightarrow> int \<Rightarrow> bool" where
  "ShouldRetryByStatusCode st code =
     (if IsAlwaysSkipRetryStatusCode code then False
      else shouldMatchStatusCodeRanges (AutomaticRetryStatusCodeRanges st) code)"

record NewAPIError =
  errorCode :: jsstr
  errorStatusCode :: int
  skipRetry :: bool

definition IsChannelError :: "NewAPIError option \<Rightarrow> bool" where
  "IsChannelError err = (case err of None \<Rightarrow> False | Some e \<Rightarrow> startsWith (errorCode e) (js ''channel:''))"

definition IsSkipRetryError :: "NewAPIError option \<Rightarrow> bool" where
  "IsSkipRetryError err = (case err of None \<Rightarrow> False | Some e \<Rightarrow> skipRetry e)"

text \<open>
  \<open>affinityFailure\<close> and \<open>specificChannel\<close> are what the request context says about channel affinity and a channel
  chosen by the caller.
\<close>

definition shouldRetry :: "StatusCodeSettings \<Rightarrow> bool \<Rightarrow> bool \<Rightarrow> NewAPIError option \<Rightarrow> int \<Rightarrow> bool" where
  "shouldRetry st affinityFailure specificChannel openaiErr retryTimes =
     (case openaiErr of
        None \<Rightarrow> False
      | Some e \<Rightarrow>
          if affinityFailure then False
          else if IsChannelError openaiErr then True
          else if IsSkipRetryError openaiErr then False
          else if retryTimes \<le> 0 then False
          else if specificChannel then False
          else let code = errorStatusCode e in
               if code \<ge> 200 \<and> code < 300 then False
               else if code < 100 \<or> code > 599 then True
               else if IsAlwaysSkipRetryCode (errorCode e) then False
               else ShouldRetryByStatusCode st code)"

section \<open>From the console to the server\<close>

definition to_server :: "StatusCodeRange \<Rightarrow> ServerCodeRange" where
  "to_server r = \<lparr>Start = int (range_start r), End = int (range_end r)\<rparr>"

lemma token_no_go_space: "c \<in> set (range_token r) \<Longrightarrow> \<not> go_space c"
  using token_char go_space_blank by blast

lemma server_token:
  assumes "valid_range r"
  shows "parseHTTPStatusCodeToken (range_token r) = Some (to_server r)"
proof -
  have clean: "filter (\<lambda>c. c \<noteq> 32) (TrimSpace (range_token r)) = range_token r"
    using token_no_go_space token_chars(1)
    by (subst TrimSpace_id) (auto simp: filter_id_conv is_space_def)
  have bounds: "100 \<le> range_start r" "range_end r \<le> 599" "range_start r \<le> range_end r"
    using assms by (auto simp: valid_range_def)
  have atoi: "Atoi (nat_digits (range_start r)) = Some (int (range_start r))" "Atoi (nat_digits (range_end r)) = Some (int (range_end r))"
    using bounds by (simp_all add: Atoi_digits)
  show ?thesis
  proof (cases "range_start r = range_end r")
    case True
    then show ?thesis
      using atoi bounds clean
      by (simp add: parseHTTPStatusCodeToken_def range_token_def includes_char digits_no_minus to_server_def)
  next
    case False
    have "split1 45 (nat_digits (range_start r) @ 45 # nat_digits (range_end r)) = [nat_digits (range_start r), nat_digits (range_end r)]"
      by (simp add: split1_append split1_single digits_no_minus)
    then show ?thesis
      using atoi bounds clean False
      by (simp add: parseHTTPStatusCodeToken_def range_token_def includes_char to_server_def)
  qed
qed

lemma server_segments_join:
  assumes "rs \<noteq> []"
  shows "server_segments (join [44] (map range_token rs)) = map range_token rs"
proof -
  have "map (\<lambda>c. if c = 65292 then 44 else c) (join [44] (map range_token rs)) = join [44] (map range_token rs)"
    using join_chars [of 65292 44 "map range_token rs"] token_chars(3) by (intro map_idI) auto
  moreover have "split1 44 (join [44] (map range_token rs)) = map range_token rs"
    using assms token_chars(2) by (intro split1_join) auto
  moreover have "map TrimSpace (map range_token rs) = map range_token rs"
    using token_no_go_space by (simp add: TrimSpace_id)
  ultimately show ?thesis by (simp add: server_segments_def del: map_map)
qed

lemma server_merge_step: "merged \<noteq> [] \<Longrightarrow> merge_range (map to_server merged) (to_server r) = map to_server (merge_step merged r)"
  by (cases merged rule: rev_cases) (auto simp: merge_range_def merge_step_def to_server_def Let_def)

lemma merge_step_ne: "merge_step merged r \<noteq> []"
  by (simp add: merge_step_def)

lemma server_merge_fold:
  "merged \<noteq> [] \<Longrightarrow> foldl merge_range (map to_server merged) (map to_server rs) = map to_server (foldl merge_step merged rs)"
  by (induction rs arbitrary: merged) (simp_all add: server_merge_step merge_step_ne)

lemma server_insort:
  "insort_key (\<lambda>r. (Start r, End r)) (to_server r) (map to_server rs)
    = map to_server (insort_key (\<lambda>r. (range_start r, range_end r)) r rs)"
  by (induction rs) (auto simp: to_server_def less_eq_prod_def less_prod_def)

lemma server_sort:
  "sort_key (\<lambda>r. (Start r, End r)) (map to_server rs) = map to_server (sort_key (\<lambda>r. (range_start r, range_end r)) rs)"
  by (induction rs) (simp_all add: server_insort)

lemma server_merge:
  "(case sort_key (\<lambda>r. (Start r, End r)) (map to_server rs) of [] \<Rightarrow> Inr [] | r # rest \<Rightarrow> Inr (foldl merge_range [r] rest))
    = Inr (map to_server (mergeRanges rs))"
proof (cases "sort_key (\<lambda>r. (range_start r, range_end r)) rs")
  case Nil
  then have "length (sort_key (\<lambda>r. (range_start r, range_end r)) rs) = 0" by simp
  then show ?thesis by (simp add: mergeRanges_def)
next
  case (Cons r rest)
  then have "rs \<noteq> []" by auto
  with Cons show ?thesis using server_merge_fold [of "[r]" rest] by (simp add: server_sort mergeRanges_def merge_step_def)
qed

lemma server_token_valid:
  assumes "parseHTTPStatusCodeToken tok = Some r"
  obtains n where "r = to_server n" "valid_range n"
proof -
  have "100 \<le> Start r \<and> Start r \<le> End r \<and> End r \<le> 599"
    using assms by (auto simp: parseHTTPStatusCodeToken_def Let_def split: if_splits list.splits option.splits)
  then show thesis
    by (intro that [of "\<lparr>range_start = nat (Start r), range_end = nat (End r)\<rparr>"]) (auto simp: to_server_def valid_range_def)
qed

lemma server_tokens_valid:
  "\<exists>ns. List.map_filter parseHTTPStatusCodeToken segs = map to_server ns \<and> (\<forall>n \<in> set ns. valid_range n)"
proof (induction segs)
  case Nil
  then show ?case by (intro exI [of _ "[]"]) (simp add: List.map_filter_simps)
next
  case (Cons seg segs)
  then obtain ns where ns: "List.map_filter parseHTTPStatusCodeToken segs = map to_server ns" "\<forall>n \<in> set ns. valid_range n" by blast
  show ?case
  proof (cases "parseHTTPStatusCodeToken seg")
    case None
    with ns show ?thesis by (intro exI [of _ ns]) (simp add: List.map_filter_simps)
  next
    case (Some r)
    then obtain n where "r = to_server n" "valid_range n" by (rule server_token_valid)
    with Some ns show ?thesis by (intro exI [of _ "n # ns"]) (simp add: List.map_filter_simps)
  qed
qed

lemma server_tokens:
  assumes "\<forall>r \<in> set rs. valid_range r"
  shows "List.map_filter parseHTTPStatusCodeToken (map range_token rs) = map to_server rs"
    "filter (\<lambda>seg. parseHTTPStatusCodeToken seg = None) (map range_token rs) = []"
  using assms by (induction rs) (auto simp: List.map_filter_simps server_token)

lemma server_reads_normalized:
  assumes "canonical rs" "\<forall>r \<in> set rs. valid_range r"
  shows "ParseHTTPStatusCodeRanges (join [44] (map range_token rs)) = Inr (map to_server rs)"
proof (cases "rs = []")
  case True
  then show ?thesis by (simp add: ParseHTTPStatusCodeRanges_def TrimSpace_def)
next
  case False
  let ?text = "join [44] (map range_token rs)"
  have "\<forall>c \<in> set ?text. \<not> go_space c"
    using join_chars [of _ 44 "map range_token rs"] token_no_go_space by (fastforce simp: go_space_def)
  then have trim: "TrimSpace ?text = ?text" by (rule TrimSpace_id)
  have "?text \<noteq> []"
    using server_segments_join [OF False] False by (auto simp: server_segments_def TrimSpace_def)
  then show ?thesis
    using trim server_segments_join [OF False] server_tokens [OF assms(2)] server_merge [of rs] mergeRanges_id [OF assms(1)]
    by (simp add: ParseHTTPStatusCodeRanges_def Let_def)
qed

lemma server_reads:
  assumes "ParseHTTPStatusCodeRanges s = Inr rs"
  obtains ns where "rs = map to_server (mergeRanges ns)" "\<forall>n \<in> set ns. valid_range n"
    "List.map_filter parseHTTPStatusCodeToken (server_segments (TrimSpace s)) = map to_server ns"
proof (cases "TrimSpace s = []")
  case True
  moreover have "TrimSpace [] = []" by (simp add: TrimSpace_def)
  ultimately show thesis
    using assms by (intro that [of "[]"])
      (simp_all add: ParseHTTPStatusCodeRanges_def mergeRanges_def server_segments_def List.map_filter_simps)
next
  case False
  obtain ns where ns: "List.map_filter parseHTTPStatusCodeToken (server_segments (TrimSpace s)) = map to_server ns"
    "\<forall>n \<in> set ns. valid_range n" using server_tokens_valid by blast
  then have "rs = map to_server (mergeRanges ns)"
    using assms False by (simp add: ParseHTTPStatusCodeRanges_def Let_def server_merge split: if_splits)
  with ns show thesis by (intro that)
qed

lemma range_text_token: "range_text (to_server r) = range_token r"
  by (simp add: range_text_def range_token_def to_server_def Itoa_def int_text_def)

lemma server_prints_normalized: "statusCodeRangesToString (map to_server rs) = join [44] (map range_token rs)"
  by (simp add: statusCodeRangesToString_def range_text_token comp_def)

lemma server_match_covers:
  assumes "canonical rs"
  shows "match_ranges (map to_server rs) (int n) \<longleftrightarrow> n \<in> covers rs"
  using assms
proof (induction rs)
  case (Cons r rs)
  have "n \<notin> covers (r # rs)" if "n < range_start r" using canonical_start_le [OF Cons.prems] that by fastforce
  then show ?case using Cons by (auto simp: to_server_def canonical_Cons cover_def)
qed simp

lemma server_decides:
  assumes "canonical rs" "\<forall>r \<in> set rs. valid_range r"
  shows "shouldMatchStatusCodeRanges (map to_server rs) code \<longleftrightarrow> (\<exists>n \<in> covers rs. code = int n)"
proof (cases "100 \<le> code \<and> code \<le> 599")
  case True
  then obtain n where "code = int n" using nonneg_int_cases [of code] by auto
  with True show ?thesis using server_match_covers [OF assms(1), of n] by (simp add: shouldMatchStatusCodeRanges_def)
next
  case False
  have "100 \<le> n \<and> n \<le> 599" if "n \<in> covers rs" for n
    using that assms(2) by (fastforce simp: covers_def cover_def valid_range_def)
  then show ?thesis using False by (auto simp: shouldMatchStatusCodeRanges_def)
qed

lemma server_merged:
  assumes "\<forall>n \<in> set ns. valid_range n"
  shows "canonical (mergeRanges ns)" "covers (mergeRanges ns) = covers ns" "\<forall>r \<in> set (mergeRanges ns). valid_range r"
proof -
  show c: "canonical (mergeRanges ns)" and e: "covers (mergeRanges ns) = covers ns"
    using mergeRanges_correct [of ns] assms by (auto simp: valid_range_def)
  have "covers ns \<subseteq> {100..599}" using assms by (auto simp: covers_def cover_def valid_range_def)
  with c e show "\<forall>r \<in> set (mergeRanges ns). valid_range r" using covers_valid by simp
qed

text \<open>The codes the server was asked to match: those in the range of some segment.\<close>

definition requested :: "jsstr \<Rightarrow> int \<Rightarrow> bool" where
  "requested s code = list_ex (\<lambda>seg. case parseHTTPStatusCodeToken seg of
       None \<Rightarrow> False | Some r \<Rightarrow> Start r \<le> code \<and> code \<le> End r) (server_segments (TrimSpace s))"

lemma requested_covers:
  assumes "List.map_filter parseHTTPStatusCodeToken (server_segments (TrimSpace s)) = map to_server ns"
  shows "requested s code \<longleftrightarrow> (\<exists>n \<in> covers ns. code = int n)"
proof -
  have "requested s code \<longleftrightarrow> (\<exists>r \<in> set (map to_server ns). Start r \<le> code \<and> code \<le> End r)"
    unfolding assms [symmetric] by (force simp: requested_def list_ex_iff List.map_filter_def split: option.splits)
  also have "\<dots> \<longleftrightarrow> (\<exists>n \<in> covers ns. code = int n)"
  proof
    assume "\<exists>r \<in> set (map to_server ns). Start r \<le> code \<and> code \<le> End r"
    then obtain n where n: "n \<in> set ns" "int (range_start n) \<le> code" "code \<le> int (range_end n)" by (auto simp: to_server_def)
    then have "nat code \<in> covers ns" "code = int (nat code)" by (force simp: covers_def cover_def)+
    then show "\<exists>n \<in> covers ns. code = int n" by blast
  qed (force simp: covers_def cover_def to_server_def)
  finally show ?thesis .
qed

lemma demo_tokens:
  "parseHTTPStatusCodeToken (js ''503'') = Some \<lparr>Start = 503, End = 503\<rparr>"
  "parseHTTPStatusCodeToken (js ''500-502'') = Some \<lparr>Start = 500, End = 502\<rparr>"
  by (simp_all add: parseHTTPStatusCodeToken_def js_eval TrimSpace_def go_space_def Atoi_def is_digit_def digits_val_def includes_char)

lemma demo_segments:
  "server_segments (js ''503, 500-502'') = [js ''503'', js ''500-502'']"
  "TrimSpace (js ''503, 500-502'') = js ''503, 500-502''"
  by (simp_all add: server_segments_def js_eval TrimSpace_def go_space_def)

lemma demo_server_parse:
  "ParseHTTPStatusCodeRanges (js ''503, 500-502'') = Inr [\<lparr>Start = 500, End = 503\<rparr>]"
  "ParseHTTPStatusCodeRanges (js ''401-404'') = Inr [\<lparr>Start = 401, End = 404\<rparr>]"
proof -
  show "ParseHTTPStatusCodeRanges (js ''503, 500-502'') = Inr [\<lparr>Start = 500, End = 503\<rparr>]"
    by (simp add: ParseHTTPStatusCodeRanges_def demo_segments demo_tokens List.map_filter_simps merge_range_def)
  show "ParseHTTPStatusCodeRanges (js ''401-404'') = Inr [\<lparr>Start = 401, End = 404\<rparr>]"
    using server_reads_normalized [of "[\<lparr>range_start = 401, range_end = 404\<rparr>]"]
    by (simp add: canonical_Cons valid_range_def range_token_def demo_digits to_server_def js_eval)
qed

text \<open>
  C31: when the server accepts the text of an option of status code rules, the merged ranges it keeps match exactly the
  codes that lie in the range of some comma-separated segment of the text, and the text it prints for the ranges is
  read back as the same ranges.
\<close>

theorem server_rules_match_request:
  assumes "ParseHTTPStatusCodeRanges s = Inr rs"
  shows "shouldMatchStatusCodeRanges rs code = requested s code
    \<and> ParseHTTPStatusCodeRanges (statusCodeRangesToString rs) = Inr rs"
proof -
  obtain ns where ns: "rs = map to_server (mergeRanges ns)" "\<forall>n \<in> set ns. valid_range n"
    "List.map_filter parseHTTPStatusCodeToken (server_segments (TrimSpace s)) = map to_server ns"
    using assms by (rule server_reads)
  note m = server_merged [OF ns(2)]
  show ?thesis
    using server_decides [OF m(1,3), of code] requested_covers [OF ns(3), of code] m(2)
      server_reads_normalized [OF m(1,3)] ns(1) by (simp add: server_prints_normalized)
qed

theorem server_rules_match_request_witness:
  "ParseHTTPStatusCodeRanges (js ''503, 500-502'') = Inr [\<lparr>Start = 500, End = 503\<rparr>]
   \<and> requested (js ''503, 500-502'') 501 \<and> \<not> requested (js ''503, 500-502'') 504"
proof -
  note e = demo_server_parse(1)
  have "shouldMatchStatusCodeRanges [\<lparr>Start = 500, End = 503\<rparr>] 501"
    "\<not> shouldMatchStatusCodeRanges [\<lparr>Start = 500, End = 503\<rparr>] 504"
    by (simp_all add: shouldMatchStatusCodeRanges_def)
  with e server_rules_match_request [OF e, of 501] server_rules_match_request [OF e, of 504] show ?thesis by simp
qed

text \<open>
  C30: status code rules the console accepts reach the server unchanged. The server accepts the normalised text the
  console sends for either option, prints the same text back, disables a channel for exactly the codes that were
  entered, and retries for exactly the codes that were entered other than 504 and 524.
\<close>

theorem console_rules_reach_server:
  assumes "parseHttpStatusCodeRules (JStr s) = Some r" "rules_ok r"
    "AutomaticDisableStatusCodesFromString (normalized r) st = (e1, st1)"
    "AutomaticRetryStatusCodesFromString (normalized r) st = (e2, st2)"
  shows "e1 = None \<and> e2 = None
    \<and> AutomaticDisableStatusCodesToString st1 = normalized r
    \<and> AutomaticRetryStatusCodesToString st2 = normalized r
    \<and> (ShouldDisableByStatusCode st1 (int code) \<longleftrightarrow> code \<in> entered_codes (trim s))
    \<and> (ShouldRetryByStatusCode st2 (int code) \<longleftrightarrow> code \<in> entered_codes (trim s) - {504, 524})"
proof -
  have r: "r = parse_rules (trim s)" using assms(1) by (simp add: parse_string)
  note a = parse_rules_accepted [OF assms(2) [unfolded r], folded r]
  have p: "ParseHTTPStatusCodeRanges (normalized r) = Inr (map to_server (ranges r))"
    using server_reads_normalized [OF a(1,3)] by (simp add: a(5))
  have d: "shouldMatchStatusCodeRanges (map to_server (ranges r)) (int code) \<longleftrightarrow> code \<in> entered_codes (trim s)"
    using server_decides [OF a(1,3), of "int code"] a(2) by simp
  have t: "statusCodeRangesToString (map to_server (ranges r)) = normalized r"
    by (simp add: server_prints_normalized a(5))
  have "e1 = None" "st1 = st\<lparr>AutomaticDisableStatusCodeRanges := map to_server (ranges r)\<rparr>"
    "e2 = None" "st2 = st\<lparr>AutomaticRetryStatusCodeRanges := map to_server (ranges r)\<rparr>"
    using assms(3,4) p by (auto simp: AutomaticDisableStatusCodesFromString_def AutomaticRetryStatusCodesFromString_def)
  with d t show ?thesis
    by (auto simp: AutomaticDisableStatusCodesToString_def AutomaticRetryStatusCodesToString_def
        ShouldDisableByStatusCode_def ShouldRetryByStatusCode_def IsAlwaysSkipRetryStatusCode_def)
qed

theorem console_rules_reach_server_witness:
  "(\<exists>st. AutomaticDisableStatusCodesFromString (js ''401-404'') initial_settings = (None, st)
     \<and> ShouldDisableByStatusCode st 403) \<and> 403 \<in> entered_codes (trim (js ''404,401-403''))"
proof -
  let ?r = "\<lparr>rules_ok = True, ranges = [\<lparr>range_start = 401, range_end = 404\<rparr>],
      tokens = [js ''401-404''], normalized = js ''401-404'', invalidTokens = []\<rparr>"
  have e: "parseHttpStatusCodeRules (JStr (js ''404,401-403'')) = Some ?r"
    by (simp add: parse_string demo_rules(1,2))
  have d: "AutomaticDisableStatusCodesFromString (js ''401-404'') initial_settings
      = (None, initial_settings\<lparr>AutomaticDisableStatusCodeRanges := [\<lparr>Start = 401, End = 404\<rparr>]\<rparr>)"
    by (simp add: AutomaticDisableStatusCodesFromString_def demo_server_parse(2))
  have t: "AutomaticRetryStatusCodesFromString (js ''401-404'') initial_settings
      = (None, initial_settings\<lparr>AutomaticRetryStatusCodeRanges := [\<lparr>Start = 401, End = 404\<rparr>]\<rparr>)"
    by (simp add: AutomaticRetryStatusCodesFromString_def demo_server_parse(2))
  have m: "ShouldDisableByStatusCode (initial_settings\<lparr>AutomaticDisableStatusCodeRanges := [\<lparr>Start = 401, End = 404\<rparr>]\<rparr>) 403"
    by (simp add: ShouldDisableByStatusCode_def shouldMatchStatusCodeRanges_def)
  have "403 \<in> entered_codes (trim (js ''404,401-403''))"
    using console_rules_reach_server [OF e _ _ _, of initial_settings, simplified, OF d t, of 403] m by simp
  with d m show ?thesis by blast
qed

end
