(* ===== verification/BillingSession.thy ===== *)
theory BillingSession
  imports SubscriptionProperties ServerStatusCodes
begin

text \<open>
  The billing of one request (\<open>service/billing_session.go\<close>, \<open>service/funding_source.go\<close>, \<open>service/billing.go\<close>): quota
  is taken from the token and from the wallet or a subscription before the request is sent, settled against the
  actual cost afterwards, or given back when the request failed.

  A session holds the request data that the code shares by pointer. Errors are given by their code and status, the
  log lines and notifications are left out, and a refund, which the server runs in the background, runs in place.
\<close>

section \<open>Sessions\<close>

record RelayInfo =
  UserId :: int
  TokenId :: int
  TokenKey :: jsstr
  IsPlayground :: bool
  TokenUnlimited :: bool
  ForcePreConsume :: bool
  RequestId :: jsstr
  BillingPreference :: jsstr
  UserQuota :: int
  FinalPreConsumedQuota :: int
  BillingSource :: jsstr
  SubscriptionId :: int
  SubscriptionPreConsumed :: int
  SubscriptionPostDelta :: int
  SubscriptionAmountTotal :: int
  SubscriptionAmountUsedAfterPreConsume :: int
  SubscriptionPlanId :: int
  SubscriptionPlanTitle :: jsstr

record WalletFunding =
  walletUserId :: int
  consumed :: int

record SubscriptionFunding =
  subRequestId :: jsstr
  subUserId :: int
  subAmount :: int
  subscriptionId :: int
  preConsumed :: int
  fundAmountTotal :: int
  fundAmountUsedAfter :: int
  fundPlanId :: int
  fundPlanTitle :: jsstr

datatype FundingSource = Wallet WalletFunding | Subscription SubscriptionFunding

record BillingSession =
  relayInfo :: RelayInfo
  funding :: FundingSource
  preConsumedQuota :: int
  tokenConsumed :: int
  extraReserved :: int
  trusted :: bool
  fundingSettled :: bool
  settled :: bool
  refunded :: bool

text \<open>The trust quota of the configuration and the remaining quota of the token as the request context has it.\<close>

record BillingEnv = SubEnv +
  TrustQuota :: int
  contextTokenQuota :: int

definition api_error :: "jsstr \<Rightarrow> int \<Rightarrow> NewAPIError" where
  "api_error code st = \<lparr>errorCode = code, errorStatusCode = st, skipRetry = True\<rparr>"

section \<open>Funding sources\<close>

definition funding_Source :: "FundingSource \<Rightarrow> jsstr" where
  "funding_Source f = (case f of Wallet _ \<Rightarrow> js ''wallet'' | Subscription _ \<Rightarrow> js ''subscription'')"

definition wallet_PreConsume :: "int \<Rightarrow> WalletFunding \<Rightarrow> Store \<Rightarrow> goerr option \<times> WalletFunding \<times> Store" where
  "wallet_PreConsume amount wal w =
     (if amount \<le> 0 then (None, wal, w)
      else case DecreaseUserQuota False (walletUserId wal) amount w of
             (Some e, w') \<Rightarrow> (Some e, wal, w')
           | (None, w') \<Rightarrow> (None, wal\<lparr>consumed := amount\<rparr>, w'))"

definition sub_PreConsume :: "BillingEnv \<Rightarrow> SubscriptionFunding \<Rightarrow> Store \<Rightarrow> goerr option \<times> SubscriptionFunding \<times> Store" where
  "sub_PreConsume env sf w =
     (case PreConsumeUserSubscription (SubEnv.truncate env) (subRequestId sf) (subUserId sf) (subAmount sf) w of
        (Inl e, w') \<Rightarrow> (Some e, sf, w')
      | (Inr res, w') \<Rightarrow>
          (let sf' = sf\<lparr>subscriptionId := UserSubscriptionId res, preConsumed := PreConsumed res,
                        fundAmountTotal := ResAmountTotal res, fundAmountUsedAfter := AmountUsedAfter res\<rparr>
           in case planInfo env (UserSubscriptionId res) of
                None \<Rightarrow> (None, sf', w')
              | Some (pid, title) \<Rightarrow> (None, sf'\<lparr>fundPlanId := pid, fundPlanTitle := title\<rparr>, w')))"

definition funding_PreConsume :: "BillingEnv \<Rightarrow> int \<Rightarrow> FundingSource \<Rightarrow> Store \<Rightarrow> goerr option \<times> FundingSource \<times> Store" where
  "funding_PreConsume env amount f w =
     (case f of
        Wallet wal \<Rightarrow> (let (e, wal', w') = wallet_PreConsume amount wal w in (e, Wallet wal', w'))
      | Subscription sf \<Rightarrow> (let (e, sf', w') = sub_PreConsume env sf w in (e, Subscription sf', w')))"

definition wallet_Settle :: "int \<Rightarrow> WalletFunding \<Rightarrow> Store \<Rightarrow> goerr option \<times> Store" where
  "wallet_Settle delta wal w =
     (if delta = 0 then (None, w)
      else if delta > 0 then DecreaseUserQuota False (walletUserId wal) delta w
      else IncreaseUserQuota False (walletUserId wal) (- delta) w)"

definition sub_Settle :: "int \<Rightarrow> SubscriptionFunding \<Rightarrow> Store \<Rightarrow> goerr option \<times> Store" where
  "sub_Settle delta sf w =
     (if delta = 0 then (None, w) else PostConsumeUserSubscriptionDelta (subscriptionId sf) delta w)"

definition funding_Settle :: "int \<Rightarrow> FundingSource \<Rightarrow> Store \<Rightarrow> goerr option \<times> Store" where
  "funding_Settle delta f w =
     (case f of Wallet wal \<Rightarrow> wallet_Settle delta wal w | Subscription sf \<Rightarrow> sub_Settle delta sf w)"

fun retry_attempts :: "nat \<Rightarrow> (Store \<Rightarrow> goerr option \<times> Store) \<Rightarrow> goerr option \<Rightarrow> Store \<Rightarrow> goerr option \<times> Store" where
  "retry_attempts 0 fn lastErr w = (lastErr, w)"
| "retry_attempts (Suc n) fn lastErr w =
     (case fn w of (None, w') \<Rightarrow> (None, w') | (Some e, w') \<Rightarrow> retry_attempts n fn (Some e) w')"

definition refundWithRetry :: "(Store \<Rightarrow> goerr option \<times> Store) \<Rightarrow> Store \<Rightarrow> goerr option \<times> Store" where
  "refundWithRetry fn w = retry_attempts 3 fn None w"

definition wallet_Refund :: "WalletFunding \<Rightarrow> Store \<Rightarrow> goerr option \<times> Store" where
  "wallet_Refund wal w =
     (if consumed wal \<le> 0 then (None, w) else IncreaseUserQuota False (walletUserId wal) (consumed wal) w)"

definition sub_Refund :: "SubscriptionFunding \<Rightarrow> Store \<Rightarrow> goerr option \<times> Store" where
  "sub_Refund sf w =
     (if preConsumed sf \<le> 0 then (None, w) else refundWithRetry (RefundSubscriptionPreConsume (subRequestId sf)) w)"

definition funding_Refund :: "FundingSource \<Rightarrow> Store \<Rightarrow> goerr option \<times> Store" where
  "funding_Refund f w = (case f of Wallet wal \<Rightarrow> wallet_Refund wal w | Subscription sf \<Rightarrow> sub_Refund sf w)"

section \<open>Settling and giving back\<close>

definition Settle :: "int \<Rightarrow> BillingSession \<Rightarrow> Store \<Rightarrow> goerr option \<times> BillingSession \<times> Store" where
  "Settle actualQuota s w =
     (let delta = actualQuota - preConsumedQuota s; info = relayInfo s in
      if settled s then (None, s, w)
      else if delta = 0 then (None, s\<lparr>settled := True\<rparr>, w)
      else case (if fundingSettled s then (None, w) else funding_Settle delta (funding s) w) of
             (Some e, w1) \<Rightarrow> (Some e, s, w1)
           | (None, w1) \<Rightarrow>
               (let (tokenErr, w2) =
                      (if IsPlayground info then (None, w1)
                       else if delta > 0 then DecreaseTokenQuota (TokenId info) delta w1
                       else IncreaseTokenQuota (TokenId info) (- delta) w1);
                    info' = (if funding_Source (funding s) = js ''subscription''
                             then info\<lparr>SubscriptionPostDelta := SubscriptionPostDelta info + delta\<rparr> else info)
                in (tokenErr, s\<lparr>relayInfo := info', fundingSettled := True, settled := True\<rparr>, w2)))"

definition needsRefundLocked :: "BillingSession \<Rightarrow> bool" where
  "needsRefundLocked s =
     (if settled s \<or> refunded s \<or> fundingSettled s then False
      else if tokenConsumed s > 0 then True
      else case funding s of Subscription sf \<Rightarrow> preConsumed sf > 0 | Wallet _ \<Rightarrow> False)"

definition NeedsRefund :: "BillingSession \<Rightarrow> bool" where
  "NeedsRefund s = needsRefundLocked s"

definition GetPreConsumedQuota :: "BillingSession \<Rightarrow> int" where
  "GetPreConsumedQuota s = preConsumedQuota s"

definition Refund :: "BillingSession \<Rightarrow> Store \<Rightarrow> BillingSession \<times> Store" where
  "Refund s w =
     (if settled s \<or> refunded s \<or> \<not> needsRefundLocked s then (s, w)
      else let info = relayInfo s;
               w1 = snd (funding_Refund (funding s) w);
               w2 = (if extraReserved s > 0 \<and> funding_Source (funding s) = js ''subscription'' \<and> SubscriptionId info > 0
                     then snd (PostConsumeUserSubscriptionDelta (SubscriptionId info) (- extraReserved s) w1) else w1);
               w3 = (if tokenConsumed s > 0 \<and> \<not> IsPlayground info
                     then snd (IncreaseTokenQuota (TokenId info) (tokenConsumed s) w2) else w2)
           in (s\<lparr>refunded := True\<rparr>, w3))"

section \<open>Taking quota in advance\<close>

definition PreConsumeTokenQuota :: "RelayInfo \<Rightarrow> int \<Rightarrow> Store \<Rightarrow> goerr option \<times> Store" where
  "PreConsumeTokenQuota info quota w =
     (if quota < 0 then (Some err_negative, w)
      else if IsPlayground info then (None, w)
      else case GetTokenByKey (TokenKey info) False w of
             (Inl e, w1) \<Rightarrow> (Some e, w1)
           | (Inr remain, w1) \<Rightarrow>
               if \<not> TokenUnlimited info \<and> remain < quota then (Some (js ''token quota is not enough''), w1)
               else DecreaseTokenQuota (TokenId info) quota w1)"

definition shouldTrust :: "BillingEnv \<Rightarrow> BillingSession \<Rightarrow> bool" where
  "shouldTrust env s =
     (let info = relayInfo s; trustQuota = TrustQuota env in
      if ForcePreConsume info then False
      else if trustQuota \<le> 0 then False
      else if \<not> (TokenUnlimited info \<or> contextTokenQuota env > trustQuota) then False
      else case funding s of Wallet _ \<Rightarrow> UserQuota info > trustQuota | Subscription _ \<Rightarrow> False)"

definition syncRelayInfo :: "BillingSession \<Rightarrow> BillingSession" where
  "syncRelayInfo s =
     (let info = (relayInfo s)\<lparr>FinalPreConsumedQuota := preConsumedQuota s, BillingSource := funding_Source (funding s)\<rparr> in
      s\<lparr>relayInfo :=
         (case funding s of
            Subscription sf \<Rightarrow>
              info\<lparr>SubscriptionId := subscriptionId sf,
                   SubscriptionPreConsumed := preConsumed sf + extraReserved s,
                   SubscriptionPostDelta := 0,
                   SubscriptionAmountTotal := fundAmountTotal sf,
                   SubscriptionAmountUsedAfterPreConsume := fundAmountUsedAfter sf + extraReserved s,
                   SubscriptionPlanId := fundPlanId sf,
                   SubscriptionPlanTitle := fundPlanTitle sf\<rparr>
          | Wallet _ \<Rightarrow> info\<lparr>SubscriptionId := 0, SubscriptionPreConsumed := 0\<rparr>)\<rparr>)"

definition preConsume :: "BillingEnv \<Rightarrow> int \<Rightarrow> BillingSession \<Rightarrow> Store \<Rightarrow> NewAPIError option \<times> BillingSession \<times> Store" where
  "preConsume env quota s0 w =
     (let trust = shouldTrust env s0;
          s = (if trust then s0\<lparr>trusted := True\<rparr> else s0);
          effectiveQuota = (if trust then 0 else quota);
          info = relayInfo s
      in case (if effectiveQuota > 0 then PreConsumeTokenQuota info effectiveQuota w else (None, w)) of
           (Some e, w1) \<Rightarrow> (Some (api_error (js ''pre_consume_token_quota_failed'') 403), s, w1)
         | (None, w1) \<Rightarrow>
             (let s1 = (if effectiveQuota > 0 then s\<lparr>tokenConsumed := effectiveQuota\<rparr> else s) in
              case funding_PreConsume env effectiveQuota (funding s1) w1 of
                (Some e, f, w2) \<Rightarrow>
                  (let err = (if includesStr e (js ''no active subscription'') \<or> includesStr e (js ''subscription quota insufficient'')
                              then api_error (js ''insufficient_user_quota'') 403 else api_error (js ''update_data_error'') 500)
                   in if tokenConsumed s1 > 0 \<and> \<not> IsPlayground info
                      then (Some err, s1\<lparr>funding := f, tokenConsumed := 0\<rparr>, snd (IncreaseTokenQuota (TokenId info) (tokenConsumed s1) w2))
                      else (Some err, s1\<lparr>funding := f\<rparr>, w2))
              | (None, f, w2) \<Rightarrow> (None, syncRelayInfo (s1\<lparr>funding := f, preConsumedQuota := effectiveQuota\<rparr>), w2)))"

section \<open>Taking more before sending\<close>

definition reserveFunding :: "int \<Rightarrow> FundingSource \<Rightarrow> Store \<Rightarrow> NewAPIError option \<times> FundingSource \<times> Store" where
  "reserveFunding delta f w =
     (case f of
        Wallet wal \<Rightarrow>
          (case DecreaseUserQuota False (walletUserId wal) delta w of
             (Some e, w') \<Rightarrow> (Some (api_error (js ''update_data_error'') 500), f, w')
           | (None, w') \<Rightarrow> (None, Wallet (wal\<lparr>consumed := consumed wal + delta\<rparr>), w'))
      | Subscription sf \<Rightarrow>
          (case PostConsumeUserSubscriptionDelta (subscriptionId sf) delta w of
             (Some e, w') \<Rightarrow> (Some (api_error (js ''insufficient_user_quota'') 403), f, w')
           | (None, w') \<Rightarrow> (None, f, w')))"

definition rollbackFundingReserve :: "int \<Rightarrow> FundingSource \<Rightarrow> Store \<Rightarrow> FundingSource \<times> Store" where
  "rollbackFundingReserve delta f w =
     (case f of
        Wallet wal \<Rightarrow>
          (case IncreaseUserQuota False (walletUserId wal) delta w of
             (Some e, w') \<Rightarrow> (f, w')
           | (None, w') \<Rightarrow> (Wallet (wal\<lparr>consumed := consumed wal - delta\<rparr>), w'))
      | Subscription sf \<Rightarrow> (f, snd (PostConsumeUserSubscriptionDelta (subscriptionId sf) (- delta) w)))"

definition reserveToken :: "RelayInfo \<Rightarrow> int \<Rightarrow> Store \<Rightarrow> NewAPIError option \<times> Store" where
  "reserveToken info delta w =
     (if delta \<le> 0 \<or> IsPlayground info then (None, w)
      else case PreConsumeTokenQuota info delta w of
             (Some e, w') \<Rightarrow> (Some (api_error (js ''pre_consume_token_quota_failed'') 403), w')
           | (None, w') \<Rightarrow> (None, w'))"

definition Reserve :: "int \<Rightarrow> BillingSession \<Rightarrow> Store \<Rightarrow> NewAPIError option \<times> BillingSession \<times> Store" where
  "Reserve targetQuota s w =
     (if settled s \<or> refunded s \<or> trusted s \<or> targetQuota \<le> preConsumedQuota s then (None, s, w)
      else let delta = targetQuota - preConsumedQuota s in
           if delta \<le> 0 then (None, s, w)
           else case reserveFunding delta (funding s) w of
                  (Some e, f, w1) \<Rightarrow> (Some e, s\<lparr>funding := f\<rparr>, w1)
                | (None, f, w1) \<Rightarrow>
                    (case reserveToken (relayInfo s) delta w1 of
                       (Some e, w2) \<Rightarrow> (let (f', w3) = rollbackFundingReserve delta f w2 in (Some e, s\<lparr>funding := f'\<rparr>, w3))
                     | (None, w2) \<Rightarrow>
                         (None, syncRelayInfo (s\<lparr>funding := f, preConsumedQuota := preConsumedQuota s + delta,
                            tokenConsumed := tokenConsumed s + delta, extraReserved := extraReserved s + delta\<rparr>), w2)))"

section \<open>Creating a session\<close>

definition NormalizeBillingPreference :: "jsstr \<Rightarrow> jsstr" where
  "NormalizeBillingPreference pref =
     (if TrimSpace pref \<in> {js ''subscription_first'', js ''wallet_first'', js ''subscription_only'', js ''wallet_only''}
      then TrimSpace pref else js ''subscription_first'')"

definition new_session :: "RelayInfo \<Rightarrow> FundingSource \<Rightarrow> BillingSession" where
  "new_session info f = \<lparr>relayInfo = info, funding = f, preConsumedQuota = 0, tokenConsumed = 0, extraReserved = 0,
     trusted = False, fundingSettled = False, settled = False, refunded = False\<rparr>"

definition start_session :: "BillingEnv \<Rightarrow> int \<Rightarrow> BillingSession \<Rightarrow> Store
    \<Rightarrow> (NewAPIError + BillingSession) \<times> RelayInfo \<times> Store" where
  "start_session env quota s w =
     (case preConsume env quota s w of
        (Some e, s', w') \<Rightarrow> (Inl e, relayInfo s', w')
      | (None, s', w') \<Rightarrow> (Inr s', relayInfo s', w'))"

definition tryWallet :: "BillingEnv \<Rightarrow> int \<Rightarrow> RelayInfo \<Rightarrow> Store \<Rightarrow> (NewAPIError + BillingSession) \<times> RelayInfo \<times> Store" where
  "tryWallet env quota info w =
     (case GetUserQuota (UserId info) False w of
        (Inl e, w1) \<Rightarrow> (Inl (api_error (js ''query_data_error'') 500), info, w1)
      | (Inr userQuota, w1) \<Rightarrow>
          if userQuota \<le> 0 then (Inl (api_error (js ''insufficient_user_quota'') 403), info, w1)
          else if userQuota - quota < 0 then (Inl (api_error (js ''insufficient_user_quota'') 403), info, w1)
          else start_session env quota
                 (new_session (info\<lparr>UserQuota := userQuota\<rparr>) (Wallet \<lparr>walletUserId = UserId info, consumed = 0\<rparr>)) w1)"

definition trySubscription :: "BillingEnv \<Rightarrow> int \<Rightarrow> RelayInfo \<Rightarrow> Store \<Rightarrow> (NewAPIError + BillingSession) \<times> RelayInfo \<times> Store" where
  "trySubscription env quota info w =
     (let subConsume = (if quota \<le> 0 then 1 else quota)
      in start_session env subConsume
           (new_session info (Subscription \<lparr>subRequestId = RequestId info, subUserId = UserId info, subAmount = subConsume,
              subscriptionId = 0, preConsumed = 0, fundAmountTotal = 0, fundAmountUsedAfter = 0, fundPlanId = 0, fundPlanTitle = []\<rparr>)) w)"

definition NewBillingSession :: "BillingEnv \<Rightarrow> int \<Rightarrow> RelayInfo \<Rightarrow> Store \<Rightarrow> (NewAPIError + BillingSession) \<times> RelayInfo \<times> Store" where
  "NewBillingSession env quota info w =
     (let pref = NormalizeBillingPreference (BillingPreference info) in
      if pref = js ''subscription_only'' then trySubscription env quota info w
      else if pref = js ''wallet_only'' then tryWallet env quota info w
      else if pref = js ''wallet_first'' then
        (case tryWallet env quota info w of
           (Inl err, info1, w1) \<Rightarrow>
             if errorCode err = js ''insufficient_user_quota'' then trySubscription env quota info1 w1 else (Inl err, info1, w1)
         | (Inr s, info1, w1) \<Rightarrow> (Inr s, info1, w1))
      else
        (case HasActiveUserSubscription (SubEnv.truncate env) (UserId info) w of
           (Inl e, w1) \<Rightarrow> (Inl (api_error (js ''query_data_error'') 500), info, w1)
         | (Inr hasSub, w1) \<Rightarrow>
             if \<not> hasSub then tryWallet env quota info w1
             else case trySubscription env quota info w1 of
                    (Inr s, info1, w2) \<Rightarrow> (Inr s, info1, w2)
                  | (Inl err, info1, w2) \<Rightarrow>
                      if errorCode err = js ''insufficient_user_quota'' then
                        (case UserActiveSubscriptionsAllowWalletOverflow (SubEnv.truncate env) (UserId info) w2 of
                           (Inl e, w3) \<Rightarrow> (Inl (api_error (js ''query_data_error'') 500), info1, w3)
                         | (Inr allowOverflow, w3) \<Rightarrow>
                             if allowOverflow then tryWallet env quota info1 w3 else (Inl err, info1, w3))
                      else (Inl err, info1, w2)))"

section \<open>Settling a request\<close>

definition PostConsumeQuota :: "RelayInfo \<Rightarrow> int \<Rightarrow> Store \<Rightarrow> goerr option \<times> RelayInfo \<times> Store" where
  "PostConsumeQuota info quota w =
     (let (e1, info1, w1) =
            (if BillingSource info = js ''subscription'' then
               (if SubscriptionId info = 0 then (Some (js ''subscription id is missing''), info, w)
                else if quota \<noteq> 0 then
                  (case PostConsumeUserSubscriptionDelta (SubscriptionId info) quota w of
                     (Some e, w') \<Rightarrow> (Some e, info, w')
                   | (None, w') \<Rightarrow> (None, info\<lparr>SubscriptionPostDelta := SubscriptionPostDelta info + quota\<rparr>, w'))
                else (None, info, w))
             else let (e, w') = (if quota > 0 then DecreaseUserQuota False (UserId info) quota w
                                 else IncreaseUserQuota False (UserId info) (- quota) w) in (e, info, w'))
      in case e1 of
           Some e \<Rightarrow> (Some e, info1, w1)
         | None \<Rightarrow>
             if IsPlayground info1 then (None, info1, w1)
             else let (e2, w2) = (if quota > 0 then DecreaseTokenQuota (TokenId info1) quota w1
                                  else IncreaseTokenQuota (TokenId info1) (- quota) w1) in (e2, info1, w2))"

text \<open>The session is kept with the request; a request without a session is settled directly.\<close>

definition PreConsumeBilling :: "BillingEnv \<Rightarrow> int \<Rightarrow> RelayInfo \<Rightarrow> Store \<Rightarrow> NewAPIError option \<times> (BillingSession + RelayInfo) \<times> Store" where
  "PreConsumeBilling env quota info w =
     (case NewBillingSession env quota info w of
        (Inl err, info', w') \<Rightarrow> (Some err, Inr info', w')
      | (Inr s, info', w') \<Rightarrow> (None, Inl s, w'))"

definition SettleBilling :: "BillingSession + RelayInfo \<Rightarrow> int \<Rightarrow> Store \<Rightarrow> goerr option \<times> (BillingSession + RelayInfo) \<times> Store" where
  "SettleBilling req actualQuota w =
     (case req of
        Inl s \<Rightarrow> (let (e, s', w') = Settle actualQuota s w in (e, Inl s', w'))
      | Inr info \<Rightarrow>
          (let quotaDelta = actualQuota - FinalPreConsumedQuota info in
           if quotaDelta \<noteq> 0 then (let (e, info', w') = PostConsumeQuota info quotaDelta w in (e, Inr info', w'))
           else (None, Inr info, w)))"

lemmas funding_Settle_defs = funding_Settle_def wallet_Settle_def sub_Settle_def
lemmas funding_Refund_defs = funding_Refund_def wallet_Refund_def sub_Refund_def

end
