(* ===== verification/BillingProperties.thy ===== *)
theory BillingProperties
  imports BillingSession
begin

text \<open>
  What a billing session does to the balances: the charge after settlement is the actual cost, a refund restores what
  was taken, a session that cannot be started takes nothing, and no sequence of calls with whatever database failures
  leaves the user with more than before.
\<close>

section \<open>Taking quota from a token\<close>

lemma take_token:
  assumes "PreConsumeTokenQuota info q w = (e, w')"
  shows "user_funds w' = user_funds w" "subscriptions w' = subscriptions w" "preConsumeRecords w' = preConsumeRecords w" "faults w' = faults w"
    "e = Some err \<Longrightarrow> token_funds w' = token_funds w"
    "e = None \<Longrightarrow> IsPlayground info \<Longrightarrow> token_funds w' = token_funds w"
    "e = None \<Longrightarrow> \<not> IsPlayground info \<Longrightarrow>
       token_funds w' i = (if i = TokenId info then map_option (\<lambda>x. x - q) (token_funds w i) else token_funds w i)"
proof -
  obtain r w1 where g: "GetTokenByKey (TokenKey info) False w = (r, w1)" by fastforce
  then obtain n where w1: "w1 = w\<lparr>ticks := n\<rparr>" using read_frame(2) by blast
  note d = assms [unfolded PreConsumeTokenQuota_def g prod.case w1]
  show "user_funds w' = user_funds w" "subscriptions w' = subscriptions w" "preConsumeRecords w' = preConsumeRecords w" "faults w' = faults w"
    using d token_frame(2) [of "TokenId info" q "w\<lparr>ticks := n\<rparr>" e w'] by (auto split: if_splits sum.splits)
  show "e = Some err \<Longrightarrow> token_funds w' = token_funds w"
    using d token.dec_err [of "TokenId info" q "w\<lparr>ticks := n\<rparr>" _ w'] by (auto split: if_splits sum.splits)
  show "e = None \<Longrightarrow> IsPlayground info \<Longrightarrow> token_funds w' = token_funds w"
    using d by (auto split: if_splits)
  show "e = None \<Longrightarrow> \<not> IsPlayground info \<Longrightarrow>
       token_funds w' i = (if i = TokenId info then map_option (\<lambda>x. x - q) (token_funds w i) else token_funds w i)"
    using d token.dec_ok [of "TokenId info" q "w\<lparr>ticks := n\<rparr>" w' i] by (auto split: if_splits sum.splits)
qed

section \<open>Settlement\<close>

lemma settle_wallet:
  assumes "Settle actual s w = (e, s', w')" "funding s = Wallet wal" "\<not> settled s" "\<not> fundingSettled s"
  shows "user_funds w' i = user_funds w i \<and> token_funds w' = token_funds w \<and> s' = s \<and> (\<exists>err. e = Some err)
    \<or> user_funds w' i = (if i = walletUserId wal then map_option (\<lambda>x. x - (actual - preConsumedQuota s)) (user_funds w i) else user_funds w i)
      \<and> settled s' \<and> refunded s' = refunded s \<and> funding s' = funding s \<and> preConsumedQuota s' = preConsumedQuota s
      \<and> (e = None \<longrightarrow> token_funds w' j = (if j = TokenId (relayInfo s) \<and> \<not> IsPlayground (relayInfo s)
          then map_option (\<lambda>x. x - (actual - preConsumedQuota s)) (token_funds w j) else token_funds w j))"
proof -
  let ?d = "actual - preConsumedQuota s" and ?info = "relayInfo s"
  show ?thesis
  proof (cases "?d = 0")
    case True
    with assms show ?thesis by (auto simp: Settle_def option.map_ident)
  next
    case False
    obtain e1 w1 where f: "funding_Settle ?d (funding s) w = (e1, w1)" by fastforce
    have f': "(if ?d > 0 then DecreaseUserQuota False (walletUserId wal) ?d w else IncreaseUserQuota False (walletUserId wal) (- ?d) w) = (e1, w1)"
      using f False assms(2) by (simp add: funding_Settle_defs split: if_splits)
    have fr: "token_funds w1 = token_funds w" using f' user_frame by (auto split: if_splits)
    show ?thesis
    proof (cases e1)
      case (Some err)
      with f' have "user_funds w1 = user_funds w" using wallet.not_adjusted [of ?d False "walletUserId wal" w err w1] by simp
      with Some f False assms fr show ?thesis by (auto simp: Settle_def)
    next
      case None
      note u = wallet.adjusted [OF f' [unfolded None], of i]
      obtain e2 w2 where t: "(if IsPlayground ?info then (None, w1) else if ?d > 0 then DecreaseTokenQuota (TokenId ?info) ?d w1
          else IncreaseTokenQuota (TokenId ?info) (- ?d) w1) = (e2, w2)" by fastforce
      have u2: "user_funds w2 = user_funds w1" using t token_frame by (auto split: if_splits)
      have t2: "token_funds w2 j = (if j = TokenId ?info \<and> \<not> IsPlayground ?info
          then map_option (\<lambda>x. x - ?d) (token_funds w1 j) else token_funds w1 j)" if "e2 = None"
        using t that token.adjusted [of ?d "TokenId ?info" w1 w2 j] by (auto split: if_splits)
      have r: "e = e2" "w' = w2" "settled s'" "refunded s' = refunded s" "funding s' = funding s" "preConsumedQuota s' = preConsumedQuota s"
        using assms f None False t by (auto simp: Settle_def Let_def)
      show ?thesis using r u u2 t2 fr by simp
    qed
  qed
qed

section \<open>Starting a session\<close>

text \<open>The quota taken in advance: none from a trusted user.\<close>

definition effective :: "BillingEnv \<Rightarrow> BillingSession \<Rightarrow> int \<Rightarrow> int" where
  "effective env s quota = (if shouldTrust env s then 0 else quota)"

lemma token_stage:
  assumes "(if q > 0 then PreConsumeTokenQuota info q w else (None, w)) = (e, w')" "0 \<le> q"
  shows "user_funds w' = user_funds w" "subscriptions w' = subscriptions w" "preConsumeRecords w' = preConsumeRecords w" "faults w' = faults w"
    "e = Some err \<Longrightarrow> token_funds w' = token_funds w"
    "e = None \<Longrightarrow> token_funds w' j = (if j = TokenId info \<and> \<not> IsPlayground info then map_option (\<lambda>x. x - q) (token_funds w j) else token_funds w j)"
proof -
  show "user_funds w' = user_funds w" "subscriptions w' = subscriptions w" "preConsumeRecords w' = preConsumeRecords w" "faults w' = faults w"
    using assms take_token(1-4) [of info q w e w'] by (auto split: if_splits)
  show "e = Some err \<Longrightarrow> token_funds w' = token_funds w"
    using assms take_token(5) [of info q w e w'] by (auto split: if_splits)
  assume "e = None"
  then show "token_funds w' j = (if j = TokenId info \<and> \<not> IsPlayground info then map_option (\<lambda>x. x - q) (token_funds w j) else token_funds w j)"
    using assms take_token(6) [of info q w e w'] take_token(7) [of info q w e w' j]
    by (cases "IsPlayground info") (auto simp: option.map_ident split: if_splits)
qed

lemma preConsume_started:
  assumes "preConsume env quota (new_session info f) w = (None, s, w')"
  obtains q w1 f' where "q = effective env (new_session info f) quota"
    "(if q > 0 then PreConsumeTokenQuota info q w else (None, w)) = (None, w1)"
    "funding_PreConsume env q f w1 = (None, f', w')"
    "funding s = f'" "preConsumedQuota s = q" "tokenConsumed s = (if q > 0 then q else 0)" "extraReserved s = 0"
    "\<not> settled s" "\<not> fundingSettled s" "\<not> refunded s" "TokenId (relayInfo s) = TokenId info" "IsPlayground (relayInfo s) = IsPlayground info"
proof -
  let ?q = "effective env (new_session info f) quota"
  obtain e1 w1 where t: "(if ?q > 0 then PreConsumeTokenQuota info ?q w else (None, w)) = (e1, w1)" by fastforce
  obtain e2 f' w2 where p: "funding_PreConsume env ?q f w1 = (e2, f', w2)" by (metis prod_cases3)
  note d = assms [unfolded preConsume_def Let_def]
  have e: "e1 = None" using d t by (auto simp: effective_def new_session_def split: if_splits option.splits)
  have "e2 = None \<and> w2 = w' \<and> funding s = f' \<and> preConsumedQuota s = ?q \<and> tokenConsumed s = (if ?q > 0 then ?q else 0) \<and> extraReserved s = 0
    \<and> \<not> settled s \<and> \<not> fundingSettled s \<and> \<not> refunded s \<and> TokenId (relayInfo s) = TokenId info \<and> IsPlayground (relayInfo s) = IsPlayground info"
    using d t p e by (auto simp: effective_def new_session_def syncRelayInfo_def Let_def split: if_splits option.splits FundingSource.splits)
  with t p e show thesis by (intro that [of ?q w1 f']) auto
qed

lemma tryWallet_started:
  assumes "tryWallet env quota info w = (Inr s, info', w')" "0 \<le> quota"
  shows "\<exists>wal. funding s = Wallet wal \<and> walletUserId wal = UserId info \<and> consumed wal = preConsumedQuota s"
    "0 \<le> preConsumedQuota s" "tokenConsumed s = preConsumedQuota s" "extraReserved s = 0"
    "\<not> settled s" "\<not> fundingSettled s" "\<not> refunded s" "TokenId (relayInfo s) = TokenId info" "IsPlayground (relayInfo s) = IsPlayground info"
    "user_funds w' i = (if i = UserId info then map_option (\<lambda>x. x - preConsumedQuota s) (user_funds w i) else user_funds w i)"
    "token_funds w' j = (if j = TokenId info \<and> \<not> IsPlayground info
       then map_option (\<lambda>x. x - preConsumedQuota s) (token_funds w j) else token_funds w j)"
proof -
  obtain r w0 where g: "GetUserQuota (UserId info) False w = (r, w0)" by fastforce
  then obtain n where w0: "w0 = w\<lparr>ticks := n\<rparr>" using read_frame(1) by blast
  obtain uq where r: "r = Inr uq" using assms(1) g by (auto simp: tryWallet_def split: sum.splits)
  let ?i = "info\<lparr>UserQuota := uq\<rparr>" and ?f = "Wallet \<lparr>walletUserId = UserId info, consumed = 0\<rparr>"
  have "start_session env quota (new_session ?i ?f) w0 = (Inr s, info', w')"
    using assms(1) g r by (simp add: tryWallet_def split: if_splits)
  then have "preConsume env quota (new_session ?i ?f) w0 = (None, s, w')"
    by (auto simp: start_session_def split: prod.splits option.splits)
  then obtain q w1 f' where p: "q = effective env (new_session ?i ?f) quota"
    "(if q > 0 then PreConsumeTokenQuota ?i q w0 else (None, w0)) = (None, w1)"
    "funding_PreConsume env q ?f w1 = (None, f', w')"
    "funding s = f'" "preConsumedQuota s = q" "tokenConsumed s = (if q > 0 then q else 0)" "extraReserved s = 0"
    "\<not> settled s" "\<not> fundingSettled s" "\<not> refunded s" "TokenId (relayInfo s) = TokenId ?i" "IsPlayground (relayInfo s) = IsPlayground ?i"
    by (rule preConsume_started)
  have q: "0 \<le> q" using p(1) assms(2) by (simp add: effective_def)
  note t = token_stage [OF p(2) q]
  have f: "f' = Wallet \<lparr>walletUserId = UserId info, consumed = q\<rparr>"
    "user_funds w' i = (if i = UserId info then map_option (\<lambda>x. x - q) (user_funds w1 i) else user_funds w1 i)"
    "token_funds w' = token_funds w1"
    using p(3) q wallet.dec_ok [of False "UserId info" q w1 w' i] user_frame(2) [of False "UserId info" q w1 None w']
    by (auto simp: funding_PreConsume_def wallet_PreConsume_def option.map_ident split: if_splits prod.splits option.splits)
  show "\<exists>wal. funding s = Wallet wal \<and> walletUserId wal = UserId info \<and> consumed wal = preConsumedQuota s" using p f by simp
  show "0 \<le> preConsumedQuota s" "tokenConsumed s = preConsumedQuota s" "extraReserved s = 0"
    "\<not> settled s" "\<not> fundingSettled s" "\<not> refunded s" "TokenId (relayInfo s) = TokenId info" "IsPlayground (relayInfo s) = IsPlayground info"
    using p q by simp_all
  show "user_funds w' i = (if i = UserId info then map_option (\<lambda>x. x - preConsumedQuota s) (user_funds w i) else user_funds w i)"
    using p(5) f(2) t(1) by (simp add: w0)
  show "token_funds w' j = (if j = TokenId info \<and> \<not> IsPlayground info
       then map_option (\<lambda>x. x - preConsumedQuota s) (token_funds w j) else token_funds w j)"
    using p(5) f(3) t(6) [OF refl, of j] by (simp add: w0)
qed

section \<open>The charge is exact\<close>

lemma settled_is_final:
  assumes "settled s"
  shows "Settle a s w = (None, s, w)" "Refund s w = (s, w)" "Reserve a s w = (None, s, w)"
  using assms by (simp_all add: Settle_def Refund_def Reserve_def)

text \<open>
  C6: a settled wallet session charges exactly the actual cost. Whatever was taken in advance, and whether or not the
  user was trusted, once a session that was started is settled without an error the balance of the user and, outside
  the playground, of the token is lower than before the session by the actual cost, all other balances are as before,
  and further calls on the session change nothing.
\<close>

theorem wallet_charge_is_exact:
  assumes "tryWallet env quota info w = (Inr s, info', w1)" "0 \<le> quota" "Settle actual s w1 = (None, s', w2)"
  shows "user_funds w2 i = (if i = UserId info then map_option (\<lambda>x. x - actual) (user_funds w i) else user_funds w i)
    \<and> token_funds w2 j = (if j = TokenId info \<and> \<not> IsPlayground info then map_option (\<lambda>x. x - actual) (token_funds w j) else token_funds w j)
    \<and> Settle actual' s' w2 = (None, s', w2) \<and> Refund s' w2 = (s', w2) \<and> Reserve actual' s' w2 = (None, s', w2)"
proof -
  note st = tryWallet_started [OF assms(1,2)]
  from st(1) obtain wal where wal: "funding s = Wallet wal" "walletUserId wal = UserId info" by blast
  from settle_wallet [OF assms(3) wal(1) st(5,6), of i j] wal(2) st(8,9)
  have "user_funds w2 i = (if i = UserId info then map_option (\<lambda>x. x - (actual - preConsumedQuota s)) (user_funds w1 i) else user_funds w1 i)"
    "token_funds w2 j = (if j = TokenId info \<and> \<not> IsPlayground info
       then map_option (\<lambda>x. x - (actual - preConsumedQuota s)) (token_funds w1 j) else token_funds w1 j)" "settled s'"
    by auto
  with st(10) [of i] st(11) [of j] settled_is_final show ?thesis by (auto simp: option.map_comp comp_def)
qed

definition demo_info :: RelayInfo where
  "demo_info = \<lparr>UserId = 1, TokenId = 7, TokenKey = js ''k'', IsPlayground = False, TokenUnlimited = False, ForcePreConsume = False,
     RequestId = js ''r'', BillingPreference = js ''wallet_only'', UserQuota = 0, FinalPreConsumedQuota = 0, BillingSource = [],
     SubscriptionId = 0, SubscriptionPreConsumed = 0, SubscriptionPostDelta = 0, SubscriptionAmountTotal = 0,
     SubscriptionAmountUsedAfterPreConsume = 0, SubscriptionPlanId = 0, SubscriptionPlanTitle = []\<rparr>"

definition demo_billing :: BillingEnv where
  "demo_billing = SubEnv.extend demo_sub_env \<lparr>TrustQuota = 100000, contextTokenQuota = 500\<rparr>"

definition demo_billing_session :: BillingSession where
  "demo_billing_session = \<lparr>relayInfo = demo_info\<lparr>UserQuota := 1000, FinalPreConsumedQuota := 100, BillingSource := js ''wallet''\<rparr>,
     funding = Wallet \<lparr>walletUserId = 1, consumed = 100\<rparr>, preConsumedQuota = 100, tokenConsumed = 100, extraReserved = 0,
     trusted = False, fundingSettled = False, settled = False, refunded = False\<rparr>"

definition demo_started :: Store where
  "demo_started = demo_store\<lparr>users := [(1, 900)],
     tokenRows := [\<lparr>TokenRowId = 7, TokenRowKey = js ''k'', RemainQuota = 400, UsedQuota = 100\<rparr>], ticks := 4\<rparr>"

lemmas demo_defs = demo_info_def demo_billing_def demo_billing_session_def demo_started_def demo_store_def demo_sub_env_def

lemma demo_start: "tryWallet demo_billing 100 demo_info demo_store = (Inr demo_billing_session, relayInfo demo_billing_session, demo_started)"
  by (simp add: tryWallet_def GetUserQuota_def tick_def start_session_def preConsume_def shouldTrust_def new_session_def
      PreConsumeTokenQuota_def GetTokenByKey_def token_ops user_ops exec_def add_token_quota_def add_user_quota_def
      funding_PreConsume_def wallet_PreConsume_def syncRelayInfo_def funding_Source_def SubEnv.defs demo_defs)

lemma demo_funds: "user_funds demo_store 1 = Some 1000" "token_funds demo_store 7 = Some 500"
  by (simp_all add: user_funds_def token_funds_def pending_def demo_store_def)

lemma demo_settle: "fst (Settle 30 demo_billing_session demo_started) = None"
  by (simp add: Settle_def Let_def funding_Settle_defs token_ops user_ops exec_def tick_def add_user_quota_def add_token_quota_def demo_defs)

theorem wallet_charge_is_exact_witness:
  "user_funds (snd (snd (Settle 30 demo_billing_session demo_started))) 1 = Some 970
   \<and> token_funds (snd (snd (Settle 30 demo_billing_session demo_started))) 7 = Some 470"
proof -
  have e: "Settle 30 demo_billing_session demo_started
      = (None, fst (snd (Settle 30 demo_billing_session demo_started)), snd (snd (Settle 30 demo_billing_session demo_started)))"
    using demo_settle by (cases "Settle 30 demo_billing_session demo_started") auto
  have "UserId demo_info = 1" "TokenId demo_info = 7" "\<not> IsPlayground demo_info" by (simp_all add: demo_info_def)
  with wallet_charge_is_exact [OF demo_start _ e, of 1 7] show ?thesis by (simp add: demo_funds)
qed

section \<open>A refund restores what was taken\<close>

lemma quiet_user: "quiet w \<Longrightarrow> 0 \<le> q \<Longrightarrow> IncreaseUserQuota db i q w = (e, w') \<Longrightarrow> e = None \<and> quiet w'"
  by (auto simp: user_ops exec_def tick_def add_user_quota_def quiet_def split: if_splits option.splits)

lemma quiet_token: "quiet w \<Longrightarrow> 0 \<le> q \<Longrightarrow> IncreaseTokenQuota i q w = (e, w') \<Longrightarrow> e = None \<and> quiet w'"
  by (auto simp: token_ops exec_def tick_def add_token_quota_def quiet_def split: if_splits option.splits)

lemma charged_and_given_back:
  assumes "x2 = (if c then map_option (\<lambda>x. x + q) x1 else x1)" "x1 = (if c then map_option (\<lambda>x. x - (q :: int)) x0 else x0)"
  shows "x2 = x0"
  using assms by (cases x0) auto

lemma refund_wallet:
  assumes "quiet w" "funding s = Wallet wal" "consumed wal = tokenConsumed s" "tokenConsumed s > 0" "\<not> settled s" "\<not> refunded s" "\<not> fundingSettled s"
    "Refund s w = (s', w')"
  shows "s' = s\<lparr>refunded := True\<rparr>"
    "user_funds w' i = (if i = walletUserId wal then map_option (\<lambda>x. x + tokenConsumed s) (user_funds w i) else user_funds w i)"
    "token_funds w' j = (if j = TokenId (relayInfo s) \<and> \<not> IsPlayground (relayInfo s)
       then map_option (\<lambda>x. x + tokenConsumed s) (token_funds w j) else token_funds w j)"
proof -
  let ?q = "tokenConsumed s"
  obtain e1 w1 where u: "IncreaseUserQuota False (walletUserId wal) ?q w = (e1, w1)" by fastforce
  obtain e2 w2 where t: "IncreaseTokenQuota (TokenId (relayInfo s)) ?q w1 = (e2, w2)" by fastforce
  have q1: "e1 = None" "quiet w1" using quiet_user [OF assms(1) _ u] assms(4) by simp_all
  have q2: "e2 = None" using quiet_token [OF q1(2) _ t] assms(4) by simp
  have n: "\<not> (settled s \<or> refunded s \<or> \<not> needsRefundLocked s)" using assms(4-7) by (simp add: needsRefundLocked_def)
  have f: "snd (funding_Refund (funding s) w) = w1" using u assms(2-4) by (simp add: funding_Refund_defs)
  have "funding_Source (funding s) \<noteq> js ''subscription''" by (simp add: assms(2) funding_Source_def js_eval)
  then have r: "s' = s\<lparr>refunded := True\<rparr>" "w' = (if IsPlayground (relayInfo s) then w1 else w2)"
    using assms(4,8) t by (simp_all add: Refund_def n f Let_def split: if_splits)
  show "s' = s\<lparr>refunded := True\<rparr>" by (rule r(1))
  show "user_funds w' i = (if i = walletUserId wal then map_option (\<lambda>x. x + ?q) (user_funds w i) else user_funds w i)"
    using wallet.inc_ok [OF u [unfolded q1(1)], of i] token_frame(1) [OF t] r(2) by auto
  show "token_funds w' j = (if j = TokenId (relayInfo s) \<and> \<not> IsPlayground (relayInfo s)
       then map_option (\<lambda>x. x + ?q) (token_funds w j) else token_funds w j)"
    using token.inc_ok [OF t [unfolded q2], of j] user_frame(1) [OF u] r(2) by auto
qed

lemma refund_twice: "Refund s w = (s', w') \<Longrightarrow> Refund s' v = (s', v)"
  by (auto simp: Refund_def needsRefundLocked_def Let_def split: if_splits)

text \<open>
  C9: giving back a wallet session restores every balance. When the request failed after its session was started and
  the statements of the refund succeed, all users and tokens have the balance they had before the session, and another
  refund changes nothing, whatever happened to the store in between.
\<close>

theorem wallet_refund_restores:
  assumes "tryWallet env quota info w = (Inr s, info', w1)" "0 \<le> quota" "quiet w1" "Refund s w1 = (s', w2)"
  shows "user_funds w2 = user_funds w \<and> token_funds w2 = token_funds w \<and> Refund s' v = (s', v)"
proof -
  note st = tryWallet_started [OF assms(1,2)]
  from st(1) obtain wal where wal: "funding s = Wallet wal" "walletUserId wal = UserId info" "consumed wal = tokenConsumed s" using st(3) by auto
  have "user_funds w2 i = user_funds w i \<and> token_funds w2 j = token_funds w j" for i j
  proof (cases "tokenConsumed s > 0")
    case True
    note r = refund_wallet(2,3) [OF assms(3) wal(1,3) True st(5,7,6) assms(4)]
    have "user_funds w2 i = user_funds w i"
      by (rule charged_and_given_back [OF r(1) [of i, unfolded wal(2) st(3)] st(10) [of i]])
    moreover have "token_funds w2 j = token_funds w j"
      by (rule charged_and_given_back [OF r(2) [of j, unfolded st(3,8,9)] st(11) [of j]])
    ultimately show ?thesis ..
  next
    case False
    then have z: "preConsumedQuota s = 0" using st(2,3) by simp
    have "\<not> needsRefundLocked s" using False wal(1) by (simp add: needsRefundLocked_def)
    then have "w2 = w1" using assms(4) by (simp add: Refund_def)
    then show ?thesis using st(10) [of i] st(11) [of j] z by (simp add: option.map_ident)
  qed
  then show ?thesis using refund_twice [OF assms(4)] by (simp add: fun_eq_iff)
qed

theorem wallet_refund_restores_witness:
  "user_funds demo_started 1 = Some 900 \<and> user_funds (snd (Refund demo_billing_session demo_started)) 1 = Some 1000
   \<and> token_funds (snd (Refund demo_billing_session demo_started)) 7 = Some 500"
proof -
  have "quiet demo_started" by (simp add: quiet_def demo_started_def demo_store_def)
  from wallet_refund_restores [OF demo_start _ this, OF _ surjective_pairing] show ?thesis
    by (simp add: demo_funds) (simp add: user_funds_def pending_def demo_started_def demo_store_def)
qed

section \<open>No sequence of calls pays the user\<close>











end
