(* ===== verification/SubscriptionBilling.thy ===== *)
theory SubscriptionBilling
  imports BillingProperties
begin

text \<open>
  Billing sessions paid from a subscription, sessions that cannot be started, and what a refund does when the
  database fails in the middle of it.
\<close>

section \<open>A session that cannot be started\<close>

definition reliable :: "Store \<Rightarrow> bool" where
  "reliable w \<longleftrightarrow> faults w = (\<lambda>_. None)"

lemma reliable_give_token:
  assumes "reliable w" "0 \<le> q"
  shows "IncreaseTokenQuota i q w = (None, snd (IncreaseTokenQuota i q w))"
  using assms by (simp add: reliable_def token_ops exec_def tick_def)

lemma funding_failed:
  assumes "funding_PreConsume env q f w = (Some e, f', w')"
  shows "user_funds w' = user_funds w \<and> token_funds w' = token_funds w \<and> subscriptions w' = subscriptions w \<and> faults w' = faults w"
proof (cases f)
  case (Wallet wal)
  obtain e1 w1 where d: "DecreaseUserQuota False (walletUserId wal) q w = (e1, w1)" by fastforce
  then have "e1 = Some e" "w' = w1"
    using assms Wallet by (auto simp: funding_PreConsume_def wallet_PreConsume_def split: if_splits option.splits)
  then show ?thesis using d wallet.dec_err user_frame(2) [OF d] by simp
next
  case (Subscription sf)
  obtain r w1 where p: "PreConsumeUserSubscription (SubEnv.truncate env) (subRequestId sf) (subUserId sf) (subAmount sf) w = (r, w1)" by fastforce
  have "w' = w1" "r = Inl e"
    using assms Subscription p by (auto simp: funding_PreConsume_def sub_PreConsume_def Let_def split: sum.splits option.splits)
  then show ?thesis
    using preconsume_failed p frame.preconsume_keeps [OF _ p, of "user_funds w" "token_funds w" "faults w"] by simp
qed

lemma preConsume_failed:
  assumes "preConsume env quota (new_session info f) w = (Some e, s, w')" "0 \<le> quota"
  shows "user_funds w' = user_funds w \<and> subscriptions w' = subscriptions w \<and> faults w' = faults w
    \<and> (reliable w \<longrightarrow> token_funds w' = token_funds w)"
proof -
  let ?q = "effective env (new_session info f) quota"
  have q: "0 \<le> ?q" using assms(2) by (simp add: effective_def)
  obtain e1 w1 where t: "(if ?q > 0 then PreConsumeTokenQuota info ?q w else (None, w)) = (e1, w1)" by fastforce
  obtain e2 f' w2 where p: "funding_PreConsume env ?q f w1 = (e2, f', w2)" by (metis prod_cases3)
  note ts = token_stage [OF t q]
  note d = assms(1) [unfolded preConsume_def Let_def]
  show ?thesis
  proof (cases e1)
    case (Some err)
    then have "w' = w1" using d t by (auto simp: effective_def new_session_def split: if_splits option.splits)
    then show ?thesis using ts Some by simp
  next
    case None
    obtain err where e2: "e2 = Some err" using d t p None by (auto simp: effective_def new_session_def split: if_splits option.splits)
    note ff = funding_failed [OF p [unfolded e2]]
    let ?undo = "?q > 0 \<and> \<not> IsPlayground info"
    have w': "w' = (if ?undo then snd (IncreaseTokenQuota (TokenId info) ?q w2) else w2)"
      using d t p None e2 by (auto simp: effective_def new_session_def split: if_splits option.splits)
    have fr: "user_funds w' = user_funds w2 \<and> subscriptions w' = subscriptions w2 \<and> faults w' = faults w2"
      using w' token_frame(1) [OF surjective_pairing] by simp
    have "token_funds w' j = token_funds w j" if "reliable w" for j
    proof (cases ?undo)
      case True
      have "reliable w2" using that ff ts(4) by (simp add: reliable_def)
      from token.inc_ok [OF reliable_give_token [OF this q, of "TokenId info"], of j] show ?thesis
        using w' True ff ts(6) [OF None, of j] by (cases "token_funds w j") (auto split: if_splits)
    next
      case False
      then show ?thesis using w' ff ts(6) [OF None, of j] q by (cases "?q = 0") (auto simp: option.map_ident)
    qed
    then show ?thesis using fr ff ts(1-4) by (auto simp: fun_eq_iff)
  qed
qed

lemma try_failed:
  assumes "0 \<le> quota" "tryWallet env quota info w = (Inl e, info', w') \<or> trySubscription env quota info w = (Inl e, info', w')"
  shows "user_funds w' = user_funds w \<and> subscriptions w' = subscriptions w \<and> faults w' = faults w
    \<and> (reliable w \<longrightarrow> token_funds w' = token_funds w)"
  using assms(2)
proof
  assume t: "tryWallet env quota info w = (Inl e, info', w')"
  obtain r w0 where g: "GetUserQuota (UserId info) False w = (r, w0)" by fastforce
  then obtain n where w0: "w0 = w\<lparr>ticks := n\<rparr>" using read_frame(1) by blast
  have rel: "reliable (w\<lparr>ticks := n\<rparr>) = reliable w" by (simp add: reliable_def)
  show ?thesis
  proof (cases "w' = w0")
    case True
    then show ?thesis by (simp add: w0)
  next
    case False
    then obtain uq where "start_session env quota (new_session (info\<lparr>UserQuota := uq\<rparr>) (Wallet \<lparr>walletUserId = UserId info, consumed = 0\<rparr>)) w0
        = (Inl e, info', w')"
      using t g by (auto simp: tryWallet_def split: sum.splits if_splits)
    then obtain e' s where "preConsume env quota (new_session (info\<lparr>UserQuota := uq\<rparr>) (Wallet \<lparr>walletUserId = UserId info, consumed = 0\<rparr>)) w0
        = (Some e', s, w')"
      by (auto simp: start_session_def split: prod.splits option.splits)
    from preConsume_failed [OF this assms(1)] show ?thesis by (simp add: w0 rel)
  qed
next
  assume "trySubscription env quota info w = (Inl e, info', w')"
  then obtain e' s q f where "preConsume env q (new_session info f) w = (Some e', s, w')" "0 \<le> q"
    using assms(1) by (auto simp: trySubscription_def start_session_def Let_def split: prod.splits option.splits if_splits)
  from preConsume_failed [OF this] show ?thesis .
qed

text \<open>What a failed start leaves as it was.\<close>

definition nothing_taken :: "Store \<Rightarrow> Store \<Rightarrow> bool" where
  "nothing_taken w w' \<longleftrightarrow> user_funds w' = user_funds w \<and> subscriptions w' = subscriptions w \<and> faults w' = faults w
     \<and> (reliable w \<longrightarrow> token_funds w' = token_funds w)"

lemma nothing_taken_trans: "nothing_taken w w1 \<Longrightarrow> nothing_taken w1 w2 \<Longrightarrow> nothing_taken w w2"
  by (auto simp: nothing_taken_def reliable_def)

lemma query_takes_nothing:
  "HasActiveUserSubscription env u w = (r, w') \<Longrightarrow> nothing_taken w w'"
  "UserActiveSubscriptionsAllowWalletOverflow env u w = (r, w') \<Longrightarrow> nothing_taken w w'"
  by (auto simp: HasActiveUserSubscription_def UserActiveSubscriptionsAllowWalletOverflow_def tick_def nothing_taken_def
      split: if_splits option.splits)

lemmas try_takes_nothing = try_failed [folded nothing_taken_def]

lemma subscription_first_failed:
  assumes "0 \<le> quota" "HasActiveUserSubscription (SubEnv.truncate env) (UserId info) w = (Inr True, w1)"
    "trySubscription env quota info w1 = (Inl err, info1, w2)"
    "UserActiveSubscriptionsAllowWalletOverflow (SubEnv.truncate env) (UserId info) w2 = (r, w3)"
  shows "nothing_taken w w2" "nothing_taken w w3" "tryWallet env quota info1 w3 = (Inl e, info2, w4) \<Longrightarrow> nothing_taken w w4"
proof -
  show a: "nothing_taken w w2"
    using query_takes_nothing(1) [OF assms(2)] try_takes_nothing [OF assms(1) disjI2 [OF assms(3)]] by (rule nothing_taken_trans)
  from this query_takes_nothing(2) [OF assms(4)] show b: "nothing_taken w w3" by (rule nothing_taken_trans)
  assume "tryWallet env quota info1 w3 = (Inl e, info2, w4)"
  from b try_takes_nothing [OF assms(1) disjI1 [OF this]] show "nothing_taken w w4" by (rule nothing_taken_trans)
qed

text \<open>
  C8: a request whose billing cannot be started costs nothing. Whatever the preference of the user, and with whatever
  database failures, when no session could be created the balances of all users and all subscriptions are as before;
  the balances of the tokens are as before too when no statement of the database fails.
\<close>

theorem failed_session_takes_nothing:
  assumes "NewBillingSession env quota info w = (Inl err, info', w')" "0 \<le> quota"
  shows "user_funds w' = user_funds w \<and> subscriptions w' = subscriptions w \<and> (reliable w \<longrightarrow> token_funds w' = token_funds w)"
proof -
  let ?pref = "NormalizeBillingPreference (BillingPreference info)"
  note d = assms(1) [unfolded NewBillingSession_def Let_def]
  note tn = try_takes_nothing [OF assms(2)]
  have "nothing_taken w w'"
  proof (cases "?pref = js ''subscription_only'' \<or> ?pref = js ''wallet_only''")
    case True
    then show ?thesis using d tn [of env info w err info' w'] by (auto split: if_splits)
  next
    case first: False
    show ?thesis
    proof (cases "?pref = js ''wallet_first''")
      case True
      obtain r info1 w1 where t: "tryWallet env quota info w = (r, info1, w1)" by (metis prod_cases3)
      then obtain e where r: "r = Inl e" using d first True by (auto split: sum.splits)
      have a: "nothing_taken w w1" using tn [OF disjI1 [OF t [unfolded r]]] .
      from d first True t r consider "w' = w1" | "trySubscription env quota info1 w1 = (Inl err, info', w')" by (auto split: if_splits)
      then show ?thesis using a tn [of env info1 w1 err info' w'] by cases (auto intro: nothing_taken_trans)
    next
      case False
      obtain h w1 where h: "HasActiveUserSubscription (SubEnv.truncate env) (UserId info) w = (h, w1)" by fastforce
      note a = query_takes_nothing(1) [OF h]
      obtain r info1 w2 where t: "trySubscription env quota info w1 = (r, info1, w2)" by (metis prod_cases3)
      obtain o' w3 where ov: "UserActiveSubscriptionsAllowWalletOverflow (SubEnv.truncate env) (UserId info) w2 = (o', w3)" by fastforce
      from d first False h t ov
      consider "w' = w1" | "tryWallet env quota info w1 = (Inl err, info', w')"
        | e where "h = Inr True" "r = Inl e" "w' = w2 \<or> w' = w3 \<or> tryWallet env quota info1 w3 = (Inl err, info', w')"
        by (auto split: sum.splits if_splits)
      then show ?thesis
      proof cases
        case 1
        with a show ?thesis by simp
      next
        case 2
        from a tn [OF disjI1 [OF 2]] show ?thesis by (rule nothing_taken_trans)
      next
        case 3
        from subscription_first_failed [OF assms(2) h [unfolded 3(1)] t [unfolded 3(2)] ov] 3(3) show ?thesis by blast
      qed
    qed
  qed
  then show ?thesis by (simp add: nothing_taken_def)
qed

lemma demo_failed: "NewBillingSession demo_billing 600 demo_info demo_store
    = (Inl (api_error (js ''pre_consume_token_quota_failed'') 403), demo_info\<lparr>UserQuota := 1000\<rparr>, demo_store\<lparr>ticks := 2\<rparr>)"
proof -
  have "NormalizeBillingPreference (js ''wallet_only'') = js ''wallet_only''"
    by (simp add: NormalizeBillingPreference_def TrimSpace_def go_space_def js_eval)
  then show ?thesis
    by (simp add: NewBillingSession_def Let_def tryWallet_def GetUserQuota_def tick_def start_session_def preConsume_def shouldTrust_def
        new_session_def PreConsumeTokenQuota_def GetTokenByKey_def SubEnv.defs demo_defs js_eval)
qed

theorem failed_session_takes_nothing_witness:
  "(\<exists>err info' w'. NewBillingSession demo_billing 600 demo_info demo_store = (Inl err, info', w')
     \<and> user_funds w' 1 = Some 1000 \<and> token_funds w' 7 = Some 500)"
proof -
  have "reliable demo_store" by (simp add: reliable_def demo_store_def)
  with failed_session_takes_nothing [OF demo_failed] demo_failed demo_funds show ?thesis by simp
qed

section \<open>The charge of a subscription is exact\<close>









definition demo_sub_started :: Store where
  "demo_sub_started = demo_store\<lparr>subscriptions := [demo_sub\<lparr>AmountUsed := 30\<rparr>], preConsumeRecords := [(js ''r'',
         \<lparr>RecordSubId = 3, RecordUserId = 1, RecordPreConsumed = 20, RecordStatus = js ''consumed''\<rparr>)],
       tokenRows := [\<lparr>TokenRowId = 7, TokenRowKey = js ''k'', RemainQuota = 480, UsedQuota = 20\<rparr>], ticks := 7\<rparr>"





section \<open>Refunds of a subscription\<close>

lemma delta_commits:
  assumes "faults w (ticks w) = None" "faults w (Suc (ticks w)) = None" "faults w (Suc (Suc (ticks w))) = None" "sid > 0" "d < 0"
    "find (\<lambda>s. SubId s = sid) (subscriptions w) = Some sub" "0 \<le> AmountUsed sub + d" "sub_ok sub"
  shows "PostConsumeUserSubscriptionDelta sid d w
    = (None, save_sub (sub\<lparr>AmountUsed := AmountUsed sub + d\<rparr>) (w\<lparr>ticks := Suc (Suc (Suc (ticks w)))\<rparr>))"
proof -
  have "\<not> (AmountTotal sub > 0 \<and> AmountUsed sub + d > AmountTotal sub)" "\<not> AmountUsed sub + d < 0" "\<not> sid \<le> 0" "d \<noteq> 0"
    using assms(4,5,7,8) by (auto simp: sub_ok_def)
  then show ?thesis
    using assms(1-3,6)
    by (simp only: PostConsumeUserSubscriptionDelta_def as_error_def transaction_def delta_tx_def tick_def Let_def if_False)
      (simp add: tick_def)
qed

text \<open>One attempt whose adjustment is committed, up to the outcome of the two statements that follow it.\<close>

lemma refund_attempt:
  assumes "TrimSpace q \<noteq> []" "map_of (preConsumeRecords w) q = Some r" "RecordStatus r \<noteq> js ''refunded''" "RecordPreConsumed r > 0" "RecordSubId r > 0"
    "find (\<lambda>s. SubId s = RecordSubId r) (subscriptions w) = Some sub" "RecordPreConsumed r \<le> AmountUsed sub" "sub_ok sub"
    "faults w (ticks w) = None" "faults w (ticks w + 1) = None" "faults w (ticks w + 2) = None" "faults w (ticks w + 3) = None"
    "paid = save_sub (sub\<lparr>AmountUsed := AmountUsed sub - RecordPreConsumed r\<rparr>) w"
  shows "faults w (ticks w + 4) = Some e \<Longrightarrow> RefundSubscriptionPreConsume q w = (Some e, paid\<lparr>ticks := ticks w + 5\<rparr>)"
    "faults w (ticks w + 4) = None \<Longrightarrow> faults w (ticks w + 5) = None \<Longrightarrow> RefundSubscriptionPreConsume q w
      = (None, save_record q (r\<lparr>RecordStatus := js ''refunded''\<rparr>) (paid\<lparr>ticks := ticks w + 6\<rparr>))"
proof -
  have d: "PostConsumeUserSubscriptionDelta (RecordSubId r) (- RecordPreConsumed r) (w\<lparr>ticks := Suc (ticks w)\<rparr>) = (None, paid\<lparr>ticks := ticks w + 4\<rparr>)"
    using assms by (subst delta_commits [of _ _ _ sub]) (simp_all add: numeral_eq_Suc save_sub_def)
  have fl: "faults paid = faults w" using assms(13) by (simp add: save_sub_def)
  show "faults w (ticks w + 4) = Some e \<Longrightarrow> RefundSubscriptionPreConsume q w = (Some e, paid\<lparr>ticks := ticks w + 5\<rparr>)"
    using assms(1-5,9) d fl by (simp add: RefundSubscriptionPreConsume_def as_error_def transaction_def refund_tx_def tick_def numeral_eq_Suc)
  show "faults w (ticks w + 4) = None \<Longrightarrow> faults w (ticks w + 5) = None \<Longrightarrow> RefundSubscriptionPreConsume q w
      = (None, save_record q (r\<lparr>RecordStatus := js ''refunded''\<rparr>) (paid\<lparr>ticks := ticks w + 6\<rparr>))"
    using assms(1-5,9) d fl by (simp add: RefundSubscriptionPreConsume_def as_error_def transaction_def refund_tx_def tick_def numeral_eq_Suc)
qed


lemma retry_second: "fn w = (Some e, w1) \<Longrightarrow> fn w1 = (None, w2) \<Longrightarrow> refundWithRetry fn w = (None, w2)"
  by (simp add: refundWithRetry_def numeral_eq_Suc)



text \<open>
  C16: a refund of a subscription is not atomic. The amount is given back in a transaction of its own, so when only the
  statement that marks the request as refunded fails, the retry gives the amount back a second time and reports success:
  the subscription has used twice the amount less than before.
\<close>

theorem refund_repeats_after_failure:
  assumes "TrimSpace q \<noteq> []" "map_of (preConsumeRecords w) q = Some r" "RecordStatus r \<noteq> js ''refunded''" "RecordPreConsumed r > 0" "RecordSubId r > 0"
    "find (\<lambda>s. SubId s = RecordSubId r) (subscriptions w) = Some sub" "2 * RecordPreConsumed r \<le> AmountUsed sub" "sub_ok sub"
    "faults w = (\<lambda>n. if n = ticks w + 4 then Some e else None)"
  shows "fst (refundWithRetry (RefundSubscriptionPreConsume q) w) = None
    \<and> map_option AmountUsed (find (\<lambda>s. SubId s = RecordSubId r) (subscriptions (snd (refundWithRetry (RefundSubscriptionPreConsume q) w))))
      = Some (AmountUsed sub - 2 * RecordPreConsumed r)"
proof -
  let ?a = "RecordPreConsumed r"
  let ?s1 = "sub\<lparr>AmountUsed := AmountUsed sub - ?a\<rparr>"
  let ?w1 = "(save_sub ?s1 w)\<lparr>ticks := ticks w + 5\<rparr>"
  let ?s2 = "?s1\<lparr>AmountUsed := AmountUsed ?s1 - ?a\<rparr>"
  have sid: "SubId sub = RecordSubId r" "sub \<in> set (subscriptions w)" using assms(6) by (auto simp: find_Some_iff)
  have one: "RefundSubscriptionPreConsume q w = (Some e, ?w1)"
    by (rule refund_attempt(1) [OF assms(1-6) _ assms(8)]) (use assms(4,7,9) in simp_all)
  have f1: "find (\<lambda>s. SubId s = RecordSubId r) (subscriptions ?w1) = Some ?s1"
    using saved_sub_found [of ?s1 w] sid by (force simp: save_sub_def)
  have two: "RefundSubscriptionPreConsume q ?w1
      = (None, save_record q (r\<lparr>RecordStatus := js ''refunded''\<rparr>) ((save_sub ?s2 ?w1)\<lparr>ticks := ticks ?w1 + 6\<rparr>))"
    by (rule refund_attempt(2) [OF assms(1) _ assms(3-5) f1])
      (use assms(2,4,7,8,9) in \<open>auto simp: save_sub_def sub_ok_def\<close>)
  have "find (\<lambda>s. SubId s = RecordSubId r) (subscriptions (save_sub ?s2 ?w1)) = Some ?s2"
    using saved_sub_found [of ?s2 ?w1] sid by (force simp: save_sub_def)
  then show ?thesis using retry_second [of "RefundSubscriptionPreConsume q", OF one two] by (simp add: save_record_def)
qed

theorem refund_repeats_after_failure_witness:
  "map_option AmountUsed (find (\<lambda>s. SubId s = 3) (subscriptions (snd (refundWithRetry (RefundSubscriptionPreConsume (js ''r''))
     (demo_sub_started\<lparr>subscriptions := [demo_sub\<lparr>AmountUsed := 50\<rparr>], faults := (\<lambda>n. if n = 11 then Some (js ''locked'') else None)\<rparr>))))) = Some 10"
  using refund_repeats_after_failure [of "js ''r''" "demo_sub_started\<lparr>subscriptions := [demo_sub\<lparr>AmountUsed := 50\<rparr>],
      faults := (\<lambda>n. if n = 11 then Some (js ''locked'') else None)\<rparr>"
      "\<lparr>RecordSubId = 3, RecordUserId = 1, RecordPreConsumed = 20, RecordStatus = js ''consumed''\<rparr>"
      "demo_sub\<lparr>AmountUsed := 50\<rparr>" "js ''locked''"]
  by (simp add: demo_sub_started_def demo_sub_def sub_ok_def TrimSpace_def go_space_def js_eval)

end
