(* ===== verification/Spec2Isabelle.thy ===== *)
theory Spec2Isabelle
  imports SessionProperties PlaygroundState ModelMapping NavModules AdminPermissions AdvancedCustom FlowLimits
    QuotaMath SubscriptionBilling
begin

text \<open>
  Verification of QAPI: its web console (\<open>src/web/default/src\<close>) and the billing of its server. Of the console: the chat playground
  (\<open>features/playground\<close>, abbreviated \<open>P\<close> below) with everything between a request and the text on
  the screen or in the local storage, the libraries by which administrators configure channels,
  status codes, menus and permissions, and the flow chart of the dashboard. Of the server, in Go: the
  balances of users, tokens and subscriptions, the billing of a request, and the status code rules that
  the console edits.

  \<^bold>\<open>The program.\<close> The playground keeps a list of messages. Sending, regenerating or editing
  (\<open>P/lib/message/conversation-message-utils.ts\<close>) appends a pending reply, after which the chat
  handler (\<open>P/hooks/use-chat-handler.ts\<close>) sends a request, either one answer or a stream of events
  (\<open>P/hooks/use-stream-request.ts\<close>). Chunks of a stream are buffered, flushed by a timer into the
  last reply, split into visible text and reasoning, and completed, failed or stopped. The state hook
  (\<open>P/hooks/use-playground-state.ts\<close>) saves messages and settings in the local storage and loads them
  on the next visit. The components show the newest messages and an editor.

  The server bills a request (\<open>service/billing_session.go\<close>) by taking an estimate from the token and from the
  wallet or a subscription, settling it against the actual cost, or giving it back. The balances live in a
  database (\<open>model\<close>), where every statement may fail. Whether a failed request is tried again depends on the
  status code rules (\<open>setting/operation_setting/status_code_ranges.go\<close>).

  \<^bold>\<open>Theories.\<close>
  \<^item> \<open>Prelude\<close>: strings as lists of UTF-16 units with the methods the source calls, arrays, and the
    regular expressions it uses. \<open>JsValue\<close>: values behind the type \<open>unknown\<close>, objects as association
    lists in enumeration order. \<open>Json\<close>, \<open>JsonPretty\<close>: \<open>JSON.parse\<close> and \<open>JSON.stringify\<close>, both
    printers interpreted as a \<open>json_codec\<close>.
  \<^item> \<open>Messages\<close>, \<open>Streaming\<close>, \<open>Conversation\<close>: \<open>P/types.ts\<close> and \<open>P/lib/message\<close>. Every change of the last
    reply is an instance of the locales \<open>message_update\<close>, \<open>wf_update\<close> and \<open>settling_update\<close>.
  \<^item> \<open>MessageView\<close>: the display states of \<open>P/lib/message\<close>, \<open>P/lib/options\<close>, \<open>P/lib/input\<close> and what the
    components render from them.
  \<^item> \<open>StreamProtocol\<close>: \<open>P/lib/streaming\<close>, payload and events. \<open>ChatSession\<close>: the three chat hooks as a
    record \<open>Session\<close>, one definition per callback, and the relation \<open>reachable\<close>.
    \<open>SessionInvariants\<close>, \<open>SessionProperties\<close>: the invariant of every reachable state and what it means.
  \<^item> \<open>Schema\<close>, \<open>Storage\<close>, \<open>StorageProperties\<close>: \<open>P/lib/storage\<close>. \<open>PlaygroundState\<close>: the state hook with
    its timers and effects as events.
  \<^item> \<open>StatusCodes\<close>: \<open>lib/http-status-code-rules.ts\<close> and \<open>status-code-risk-guard.ts\<close> of the channels.
    \<open>ModelMapping\<close>: \<open>model-mapping-validation.ts\<close> and \<open>upstream-update-utils.ts\<close>. \<open>AdvancedCustom\<close>:
    \<open>advanced-custom.ts\<close>, all under \<open>features/channels/lib\<close>. \<open>NavModules\<close>: \<open>lib/nav-modules.ts\<close>.
    \<open>AdminPermissions\<close>: \<open>lib/roles.ts\<close>, \<open>lib/admin-permissions.ts\<close>, \<open>stores/auth-store.ts\<close>.
  \<^item> \<open>FlowGraph\<close>: \<open>features/dashboard/lib/flow.ts\<close> up to \<open>buildDashboardFlowData\<close>, from the rows of usage to
    the nodes and links of the chart and the options of its filters. \<open>FlowProperties\<close>, \<open>FlowLimits\<close>: its
    properties; the loops that add up metrics are instances of the locale \<open>tally\<close>.
  \<^item> \<open>GoText\<close>: the text functions of Go's library. \<open>ServerStatusCodes\<close>: \<open>status_code_ranges.go\<close> and
    \<open>shouldRetry\<close> of \<open>controller/relay.go\<close>. \<open>QuotaMath\<close>: \<open>common/quota_math.go\<close>.
  \<^item> \<open>QuotaStore\<close>: the record \<open>Store\<close> of tables and the operations of \<open>model/user.go\<close>, \<open>model/token.go\<close> and
    \<open>model/utils.go\<close> on balances; both kinds of balance are interpretations of the locale \<open>quota_column\<close>.
    \<open>SubscriptionStore\<close>, \<open>SubscriptionProperties\<close>: \<open>model/subscription.go\<close>; what every operation keeps is an
    interpretation of the locale \<open>subscription_property\<close>.
  \<^item> \<open>BillingSession\<close>: the records \<open>BillingSession\<close>, \<open>RelayInfo\<close> and the funding sources with one definition per
    method. \<open>BillingProperties\<close>, \<open>SubscriptionBilling\<close>: its properties for wallets and for subscriptions.

  \<^bold>\<open>What is shown.\<close>
  \<^item> Sessions: in every reachable state with nothing generating no reply is pending and nothing is
    buffered; a busy state can finish; stopping and stream errors end the generation; a stream
    delivers the concatenation of its deltas for every schedule of the flush timer. Counterparts
    show where the code loses or misplaces text: a repeated delta, a stale buffer, the answer to an
    older request, an open editor.
  \<^item> Messages: streams of deltas and of snapshots, the split at think tags, and that each operation on
    the conversation keeps its invariant and changes what it should.
  \<^item> Storage: what is saved is loaded back, over whole visits; whatever the storage holds loads as the
    defaults or within the limits; nothing overwrites a conversation that is not loaded yet.
  \<^item> Administration: status code rules have a normal form that decides equality of the sets of codes;
    the redirect guard, the mapping repairs and the route validation are exact; settings of the header
    are well typed and read back; permission matrices are normal.
  \<^item> Dashboard: the chart conserves the metrics of the rows at every stage and along the links, shares are
    fractions of the whole, the node limit keeps the largest nodes, node filters are exact, and masking
    leaves no sensitive label.
  \<^item> Billing: a settled request costs exactly the actual cost, from a wallet or a subscription; a refund
    restores what was taken; a session that cannot be started takes nothing; no sequence of calls and
    failures pays the user; no subscription is overdrawn; a request is charged to a subscription once; prices
    become quota within 32 bits; writing the batch keeps the balances. A counterpart shows that a refund of a
    subscription can be paid twice when the database fails in the middle of it.
  \<^item> Console and server: status code rules accepted by the console mean the same codes on the server.

  \<^bold>\<open>Conventions and parameters.\<close> Numbers are exact rationals; the rounding of JavaScript's
  numbers is not modelled. Clock reads, identifiers made by nanoid
  and the answers of the network are arguments. The translation function is a parameter. The library
  zod is a function \<open>zparse\<close> on schemas with the laws of the locale \<open>zod_parser\<close>, which the reference
  parser \<open>zref\<close> satisfies; the URL parser of the browser is a parameter of \<open>AdvancedCustom\<close>; \<open>localeCompare\<close>,
  the number formatter and the color table of VChart are fields of \<open>FlowEnv\<close>; a storage
  that refuses a write is the predicate \<open>accepts\<close>. An operation that may raise a \<open>TypeError\<close> returns
  \<open>None\<close> or \<open>Inl\<close>. Errors of the Go code are values too; the failures of the database are the field \<open>faults\<close> of the
  store, the copies of balances in Redis are arbitrary, and the time, the plans and the calendar of the time
  zone are fields of \<open>SubEnv\<close>. The requests of other users run between the calls of a session, not inside
  them. Quota is an unbounded integer.

  \<^bold>\<open>Bounds and fuel.\<close> The limits of the source (a hundred messages, the sizes of texts, twenty-four
  rendered messages) are its constants. The JSON parser has fuel \<open>2 * length s + 1\<close>;
  \<open>parse_value_fuel\<close> shows that more never changes its result. The loop that moves the reset time of a
  subscription past now has as much fuel as seconds up to now; \<open>reset_loop_done\<close> shows that it ends by its
  own condition when the calendar moves forward. The loops of the think tags and of the
  pattern search are proved to terminate.

  \<^bold>\<open>Not modelled.\<close> Styling, icons, tooltips and toasts of the playground; what remains of its page
  (\<open>P/index.tsx\<close>) beyond clearing messages and enabling the handlers, and its HTTP calls
  (\<open>P/api.ts\<close>), whose answers are the environment of the session; the drawing specification of the flow
  chart and the other charts of the dashboard; the other features of the console (pricing and its
  billing expressions, which rest on regular expressions and floating point numbers; wallet, users,
  system settings and the rest, mostly forms and tables over HTTP); routing and translations; the
  classic console (\<open>src/web/classic\<close>) and the desktop shell (\<open>src/electron\<close>). Of the server: the relay and
  its adaptors, which are network traffic; pricing, the statistics of usage, notifications and logs;
  the updates of the Redis copies, which run in the background; orders, purchases and expiry of
  subscriptions; all other controllers, services, models and settings.
\<close>

end
